(* ===== verification/Prelude.thy ===== *)
theory Prelude
  imports Main "HOL-Library.Word" "HOL-Library.AList" "HOL-Library.Monad_Syntax"
begin

text \<open>
  Shared vocabulary of the modrpc development: the machine integer types of the Rust
  sources, the little-endian byte layout that the \<open>mproto\<close> codec gives every
  fixed-width integer (the codec crate is not part of the repository; its layout is the
  one the specification fixes in its section on wire framing), and lemmas on association
  lists, which model the hash tables of the runtime wherever a loop walks or drains one.
  The collections \<open>wire_simps\<close> and \<open>alist_simps\<close> gather the facts the component
  theories hand to \<open>simp\<close>.
\<close>

named_theorems wire_simps "equations evaluating the wire codecs"
named_theorems alist_simps "facts on association lists used as hash tables"

type_synonym u8 = "8 word"
type_synonym u16 = "16 word"
type_synonym u32 = "32 word"
type_synonym u64 = "64 word"
type_synonym bytes = "u8 list"

section \<open>Little-endian integers\<close>

text \<open>
  \<open>le_bytes n x\<close> is the \<open>n\<close>-byte little-endian image of the natural number
  \<open>x\<close> (taken modulo \<open>256 ^ n\<close>); \<open>le_value\<close> reads a byte string back.
\<close>

fun le_bytes :: "nat \<Rightarrow> nat \<Rightarrow> bytes" where
  "le_bytes 0 x = []"
| "le_bytes (Suc n) x = of_nat (x mod 256) # le_bytes n (x div 256)"

fun le_value :: "bytes \<Rightarrow> nat" where
  "le_value [] = 0"
| "le_value (b # bs) = unat b + 256 * le_value bs"

text \<open>
  The fixed-width codec of \<open>mproto\<close>: \<open>encode\<close> appends the \<open>LENGTH('a) div 8\<close>
  bytes of the word, \<open>decode\<close> reads them from the front of the cursor and fails on a
  buffer that is too short.
\<close>

definition word_bytes :: "'a::len word \<Rightarrow> nat \<Rightarrow> bytes" where
  "word_bytes w n = le_bytes n (unat w)"

definition decode_word :: "nat \<Rightarrow> bytes \<Rightarrow> ('a::len word \<times> bytes) option" where
  "decode_word n bs = (if n \<le> length bs then Some (of_nat (le_value (take n bs)), drop n bs) else None)"

definition encode_u16 :: "u16 \<Rightarrow> bytes" where
  "encode_u16 w = word_bytes w 2"

definition encode_u32 :: "u32 \<Rightarrow> bytes" where
  "encode_u32 w = word_bytes w 4"

definition encode_u64 :: "u64 \<Rightarrow> bytes" where
  "encode_u64 w = word_bytes w 8"

definition decode_u16 :: "bytes \<Rightarrow> (u16 \<times> bytes) option" where
  "decode_u16 = decode_word 2"

definition decode_u32 :: "bytes \<Rightarrow> (u32 \<times> bytes) option" where
  "decode_u32 = decode_word 4"

definition decode_u64 :: "bytes \<Rightarrow> (u64 \<times> bytes) option" where
  "decode_u64 = decode_word 8"

lemma length_le_bytes [simp, wire_simps]: "length (le_bytes n x) = n"
  by (induction n arbitrary: x) simp_all

lemma le_value_le_bytes: "le_value (le_bytes n x) = x mod 256 ^ n"
proof (induction n arbitrary: x)
  case 0
  then show ?case by simp
next
  case (Suc n)
  have "unat (of_nat (x mod 256) :: u8) = x mod 256"
    by (simp add: unat_of_nat)
  then have "le_value (le_bytes (Suc n) x) = x mod 256 + 256 * (x div 256 mod 256 ^ n)"
    by (simp add: Suc.IH)
  also have "\<dots> = x mod 256 ^ Suc n"
    by (simp add: mod_mult2_eq ac_simps)
  finally show ?case .
qed

lemma le_value_bound: "le_value bs < 256 ^ length bs"
proof (induction bs)
  case Nil
  then show ?case by simp
next
  case (Cons b bs)
  have "unat b < 256"
    using unsigned_less [of b] by simp
  with Cons.IH show ?case by simp
qed

lemma unat_of_nat_u64 [simp]: "i < 2 ^ 64 \<Longrightarrow> unat (of_nat i :: u64) = i"
  by (simp add: unat_of_nat)

lemma of_nat_u64_eq: "i < 2 ^ 64 \<Longrightarrow> j < 2 ^ 64 \<Longrightarrow> (of_nat i :: u64) = of_nat j \<longleftrightarrow> i = j"
  by (simp add: word_unat_eq_iff)

lemma of_nat_u64_le: "i < 2 ^ 64 \<Longrightarrow> j < 2 ^ 64 \<Longrightarrow> (of_nat i :: u64) \<le> of_nat j \<longleftrightarrow> i \<le> j"
  by (simp add: word_le_nat_alt)

lemma of_nat_u64_less: "i < 2 ^ 64 \<Longrightarrow> j < 2 ^ 64 \<Longrightarrow> (of_nat i :: u64) < of_nat j \<longleftrightarrow> i < j"
  by (simp add: word_less_nat_alt)

lemma le_value_append: "le_value (xs @ ys) = le_value xs + 256 ^ length xs * le_value ys"
  by (induction xs) simp_all

lemma unat_lt_byte_pow:
  fixes w :: "'a::len word"
  assumes "LENGTH('a) = 8 * n"
  shows "unat w < 256 ^ n"
  using unsigned_less [of w] assms by (simp add: power_mult)

lemma word_bytes_length [simp, wire_simps]: "length (word_bytes w n) = n"
  by (simp add: word_bytes_def)

lemma decode_word_bytes:
  fixes w :: "'a::len word"
  assumes "LENGTH('a) = 8 * n"
  shows "decode_word n (word_bytes w n @ rest) = Some (w, rest)"
proof -
  have "le_value (le_bytes n (unat w)) = unat w"
    using unat_lt_byte_pow [OF assms, of w] by (simp add: le_value_le_bytes)
  then show ?thesis
    by (simp add: decode_word_def word_bytes_def)
qed

lemma decode_u16_encode [simp, wire_simps]: "decode_u16 (encode_u16 w @ rest) = Some (w, rest)"
  by (simp add: decode_u16_def encode_u16_def decode_word_bytes)

lemma decode_u32_encode [simp, wire_simps]: "decode_u32 (encode_u32 w @ rest) = Some (w, rest)"
  by (simp add: decode_u32_def encode_u32_def decode_word_bytes)

lemma decode_u64_encode [simp, wire_simps]: "decode_u64 (encode_u64 w @ rest) = Some (w, rest)"
  by (simp add: decode_u64_def encode_u64_def decode_word_bytes)

lemma length_encode_u16 [simp, wire_simps]: "length (encode_u16 w) = 2"
  by (simp add: encode_u16_def)

lemma length_encode_u32 [simp, wire_simps]: "length (encode_u32 w) = 4"
  by (simp add: encode_u32_def)

lemma length_encode_u64 [simp, wire_simps]: "length (encode_u64 w) = 8"
  by (simp add: encode_u64_def)

lemma decode_word_Some_length:
  "decode_word n bs = Some (w, rest) \<Longrightarrow> length rest = length bs - n \<and> n \<le> length bs"
  by (auto simp: decode_word_def split: if_splits)

lemma decode_word_None: "decode_word n bs = None \<longleftrightarrow> length bs < n"
  by (simp add: decode_word_def)

lemma le_bytes_le_value: "le_bytes (length bs) (le_value bs) = bs"
proof (induction bs)
  case Nil
  then show ?case by simp
next
  case (Cons b bs)
  have b: "unat b < 256"
    using unsigned_less [of b] by simp
  have "(unat b + 256 * le_value bs) mod 256 = unat b"
    using b by simp
  moreover have "(unat b + 256 * le_value bs) div 256 = le_value bs"
    using b by simp
  ultimately show ?case using Cons.IH by simp
qed

lemma decode_word_inv:
  fixes w :: "'a::len word"
  assumes "LENGTH('a) = 8 * n" and "decode_word n bs = Some (w, r)"
  shows "bs = word_bytes w n @ r"
proof -
  from assms(2) have n: "n \<le> length bs" and w: "w = of_nat (le_value (take n bs))" and r: "r = drop n bs"
    by (auto simp: decode_word_def split: if_splits)
  have ln: "length (take n bs) = n"
    using n by simp
  have lt: "le_value (take n bs) < 2 ^ LENGTH('a)"
    using le_value_bound [of "take n bs"] unfolding ln assms(1) by (simp add: power_mult)
  have "unat w = le_value (take n bs)"
    using lt by (simp add: w unat_of_nat)
  then have "word_bytes w n = take n bs"
    using le_bytes_le_value [of "take n bs"] unfolding ln by (simp add: word_bytes_def)
  then show ?thesis by (simp add: r)
qed

lemma decode_u16_iff [wire_simps]: "decode_u16 bs = Some (w, r) \<longleftrightarrow> bs = encode_u16 w @ r"
  using decode_word_inv [of 2 bs w r] decode_u16_encode [of w r]
  by (auto simp: decode_u16_def encode_u16_def)

lemma decode_u32_iff [wire_simps]: "decode_u32 bs = Some (w, r) \<longleftrightarrow> bs = encode_u32 w @ r"
  using decode_word_inv [of 4 bs w r] decode_u32_encode [of w r]
  by (auto simp: decode_u32_def encode_u32_def)

lemma decode_u64_iff [wire_simps]: "decode_u64 bs = Some (w, r) \<longleftrightarrow> bs = encode_u64 w @ r"
  using decode_word_inv [of 8 bs w r] decode_u64_encode [of w r]
  by (auto simp: decode_u64_def encode_u64_def)

section \<open>Association lists as hash tables\<close>

text \<open>
  A loop that drains a hash table entry by entry terminates because each step deletes an
  entry that is present: the table gets shorter.
\<close>

lemma length_delete_less [alist_simps]:
  "map_of m k = Some v \<Longrightarrow> length (AList.delete k m) < length m"
proof (induction m)
  case Nil
  then show ?case by simp
next
  case (Cons p m)
  show ?case
  proof (cases "fst p = k")
    case True
    with True show ?thesis
      by (cases p) (simp add: AList.delete_eq less_Suc_eq_le length_filter_le)
  next
    case False
    with Cons show ?thesis by (simp add: AList.delete_eq split: if_splits)
  qed
qed

lemma map_of_delete_other [alist_simps]: "k' \<noteq> k \<Longrightarrow> map_of (AList.delete k m) k' = map_of m k'"
  by (simp add: delete_conv')

lemma map_of_delete_same [alist_simps]: "map_of (AList.delete k m) k = None"
  by (simp add: delete_conv')

lemma update_absent [alist_simps]:
  "p \<notin> set (map fst xs) \<Longrightarrow> AList.update p y xs = xs @ [(p, y)]"
  by (induction xs) auto

lemma update_present [alist_simps]:
  "distinct (map fst xs) \<Longrightarrow> p \<in> set (map fst xs) \<Longrightarrow>
   AList.update p y xs = map (\<lambda>(q, z). if q = p then (q, y) else (q, z)) xs"
proof (induction xs)
  case (Cons a xs)
  show ?case
  proof (cases "fst a = p")
    case True
    with Cons.prems have "p \<notin> set (map fst xs)" by auto
    then have "map (\<lambda>(q, z). if q = p then (q, y) else (q, z)) xs = xs"
      by (induction xs) auto
    with True show ?thesis by (cases a) simp
  next
    case False
    with Cons show ?thesis by (cases a) simp
  qed
qed simp

lemma map_of_filter_fst [alist_simps]:
  "map_of (filter (\<lambda>x. fst x \<notin> S) xs) q = (if q \<in> S then None else map_of xs q)"
  by (induction xs) auto

lemma delete_absent [alist_simps]:
  "k \<notin> set (map fst al) \<Longrightarrow> AList.delete k al = al"
  by (induction al) auto

lemma distinct_map_eq:
  "distinct (map f xs) \<Longrightarrow> x \<in> set xs \<Longrightarrow> y \<in> set xs \<Longrightarrow> f x = f y \<Longrightarrow> x = y"
  by (auto simp: distinct_map dest: inj_onD)

lemma option_eqI: "(\<And>v. a = Some v \<longleftrightarrow> b = Some v) \<Longrightarrow> a = b"
  by (cases a; cases b) auto

lemma map_pair_eq:
  "map f xs = map f ys \<Longrightarrow> map g xs = map g ys \<Longrightarrow> map (\<lambda>x. (f x, g x)) xs = map (\<lambda>x. (f x, g x)) ys"
proof (induction xs arbitrary: ys)
  case (Cons a xs)
  then obtain b ys' where "ys = b # ys'" by (cases ys) auto
  with Cons show ?case by simp
qed simp

lemma map_of_distinct_mem [alist_simps]:
  "distinct (map fst xs) \<Longrightarrow> (p, y) \<in> set xs \<Longrightarrow> map_of xs p = Some y"
  by (rule map_of_is_SomeI)

lemma map_of_append_fresh [alist_simps]:
  "p \<notin> set (map fst xs) \<Longrightarrow> map_of (xs @ [(p, y)]) p = Some y"
proof -
  assume "p \<notin> set (map fst xs)"
  then have "map_of xs p = None" by (simp add: map_of_eq_None_iff)
  then show ?thesis by (simp add: map_add_def)
qed

lemma update_last [alist_simps]:
  "p \<notin> set (map fst xs) \<Longrightarrow> AList.update p y (xs @ [(p, z)]) = xs @ [(p, y)]"
  by (induction xs) auto

text \<open>A predicate on every entry of an association list with distinct keys is one on its map.\<close>

lemma list_all_map_of:
  "distinct (map fst al) \<Longrightarrow>
     list_all (\<lambda>(k, v). P k v) al \<longleftrightarrow> (\<forall>k v. map_of al k = Some v \<longrightarrow> P k v)"
  by (auto simp: list_all_iff dest: map_of_SomeD map_of_is_SomeI)

section \<open>Partial functions\<close>

text \<open>Admissibility of ``never returns on these first arguments'', for fixpoint induction
  on a \<open>partial_function (option)\<close> of three arguments.\<close>

lemma option_admissible_None: "option.admissible (\<lambda>f. \<forall>x. curry (curry f) a b x = None)"
proof -
  have eq: "(\<lambda>f. \<forall>x. curry (curry f) a b x = None) = (\<lambda>f. \<forall>x y. f x = Some y \<longrightarrow> fst x \<noteq> (a, b))"
    by (auto simp: fun_eq_iff) (metis option.exhaust)
  show ?thesis by (subst eq) (rule option_admissible)
qed

lemma option_admissible_None_at: "option.admissible (\<lambda>f. f x0 = None)"
proof -
  have eq: "(\<lambda>f. f x0 = None) = (\<lambda>f. \<forall>x y. f x = Some y \<longrightarrow> x \<noteq> x0)"
    by (auto simp: fun_eq_iff)
  show ?thesis by (subst eq) (rule option_admissible)
qed

section \<open>Exact codecs\<close>

text \<open>
  A codec is exact when decoding succeeds on a buffer exactly when it starts with the encoding
  of the decoded value, returning the bytes after it.
\<close>

definition codec_exact :: "('a \<Rightarrow> bytes) \<Rightarrow> (bytes \<Rightarrow> ('a \<times> bytes) option) \<Rightarrow> bool" where
  "codec_exact enc dec \<longleftrightarrow> (\<forall>bs x r. dec bs = Some (x, r) \<longleftrightarrow> bs = enc x @ r)"

lemma codec_exact_u16 [wire_simps]: "codec_exact encode_u16 decode_u16"
  by (simp add: codec_exact_def decode_u16_iff)

lemma codec_exact_u32 [wire_simps]: "codec_exact encode_u32 decode_u32"
  by (simp add: codec_exact_def decode_u32_iff)

lemma codec_exact_u64 [wire_simps]: "codec_exact encode_u64 decode_u64"
  by (simp add: codec_exact_def decode_u64_iff)

lemma codec_exactD: "codec_exact enc dec \<Longrightarrow> dec bs = Some (x, r) \<longleftrightarrow> bs = enc x @ r"
  by (simp add: codec_exact_def)

lemma codec_exact_enc: "codec_exact enc dec \<Longrightarrow> dec (enc x @ r) = Some (x, r)"
  by (simp add: codec_exact_def)

end
