(* ===== verification/Wire.thy ===== *)
theory Wire
  imports Prelude
begin

text \<open>
  The fixed headers of the modrpc wire format (\<open>crates/modrpc/src/endpoint_proto.rs\<close>):
  \<open>EndpointAddr\<close>, the 20-byte \<open>TransmitPacket\<close> that starts every packet and the
  6-byte \<open>PacketBundle\<close> that starts every bundle on a transport channel, with their
  eager decoders and the lazy field accessors at fixed offsets. On top of them: the
  header that \<open>PacketSender::send_raw\<close> writes (\<open>packet_sender.rs\<close>), the splitting
  of a received bundle into packet offsets (\<open>shatter_packet_bundle\<close> in
  \<open>transport.rs\<close>) and the iterator \<open>ShatterPacketBundle\<close> that the hub uses.
  Decoders return \<open>None\<close> on a short buffer, as \<open>mproto\<close>'s \<open>DecodeResult\<close> does;
  the \<open>expect\<close> panics of \<open>shatter_packet_bundle\<close> are the \<open>Inl\<close> branch of its
  result.
\<close>

section \<open>Header records\<close>

record endpoint_addr =
  endpoint :: u64

record transmit_packet =
  tp_payload_length :: u16
  tp_infra_id :: u16
  tp_plane_id :: u32
  tp_topic :: u32
  tp_source :: endpoint_addr

record packet_bundle =
  pb_channel_id :: u32
  pb_length :: u16

definition transmit_packet_base_len :: nat where
  "transmit_packet_base_len = 20"

definition packet_bundle_base_len :: nat where
  "packet_bundle_base_len = 6"

section \<open>Encoders and decoders\<close>

definition encode_endpoint_addr :: "endpoint_addr \<Rightarrow> bytes" where
  "encode_endpoint_addr a = encode_u64 (endpoint a)"

definition decode_endpoint_addr :: "bytes \<Rightarrow> (endpoint_addr \<times> bytes) option" where
  "decode_endpoint_addr bs = do {
     (e, r) \<leftarrow> decode_u64 bs;
     Some (\<lparr>endpoint = e\<rparr>, r)
   }"

definition encode_transmit_packet :: "transmit_packet \<Rightarrow> bytes" where
  "encode_transmit_packet h =
     encode_u16 (tp_payload_length h) @ encode_u16 (tp_infra_id h) @
     encode_u32 (tp_plane_id h) @ encode_u32 (tp_topic h) @
     encode_endpoint_addr (tp_source h)"

definition decode_transmit_packet :: "bytes \<Rightarrow> (transmit_packet \<times> bytes) option" where
  "decode_transmit_packet bs = do {
     (payload_length, r) \<leftarrow> decode_u16 bs;
     (infra_id, r) \<leftarrow> decode_u16 r;
     (plane_id, r) \<leftarrow> decode_u32 r;
     (topic, r) \<leftarrow> decode_u32 r;
     (source, r) \<leftarrow> decode_endpoint_addr r;
     Some (\<lparr>tp_payload_length = payload_length, tp_infra_id = infra_id,
            tp_plane_id = plane_id, tp_topic = topic, tp_source = source\<rparr>, r)
   }"

definition encode_packet_bundle :: "packet_bundle \<Rightarrow> bytes" where
  "encode_packet_bundle b = encode_u32 (pb_channel_id b) @ encode_u16 (pb_length b)"

definition decode_packet_bundle :: "bytes \<Rightarrow> (packet_bundle \<times> bytes) option" where
  "decode_packet_bundle bs = do {
     (channel_id, r) \<leftarrow> decode_u32 bs;
     (len, r) \<leftarrow> decode_u16 r;
     Some (\<lparr>pb_channel_id = channel_id, pb_length = len\<rparr>, r)
   }"

text \<open>The lazy accessors of \<open>TransmitPacketLazy\<close> read each field at its fixed offset.\<close>

definition lazy_payload_length :: "bytes \<Rightarrow> u16 option" where
  "lazy_payload_length bs = map_option fst (decode_u16 (drop 0 bs))"

definition lazy_infra_id :: "bytes \<Rightarrow> u16 option" where
  "lazy_infra_id bs = map_option fst (decode_u16 (drop 2 bs))"

definition lazy_plane_id :: "bytes \<Rightarrow> u32 option" where
  "lazy_plane_id bs = map_option fst (decode_u32 (drop 4 bs))"

definition lazy_topic :: "bytes \<Rightarrow> u32 option" where
  "lazy_topic bs = map_option fst (decode_u32 (drop 8 bs))"

definition lazy_source :: "bytes \<Rightarrow> endpoint_addr option" where
  "lazy_source bs = map_option fst (decode_endpoint_addr (drop 12 bs))"

section \<open>Packets as bytes\<close>

text \<open>
  A packet on the wire is its header followed by its payload. \<open>wf_packet\<close> says the
  header's \<open>payload_length\<close> is the payload's real length.
\<close>

type_synonym wire_packet = "transmit_packet \<times> bytes"

definition encode_packet :: "wire_packet \<Rightarrow> bytes" where
  "encode_packet p = encode_transmit_packet (fst p) @ snd p"

definition wf_packet :: "wire_packet \<Rightarrow> bool" where
  "wf_packet p \<longleftrightarrow> unat (tp_payload_length (fst p)) = length (snd p)"

fun packet_offsets :: "nat \<Rightarrow> wire_packet list \<Rightarrow> nat list" where
  "packet_offsets c [] = []"
| "packet_offsets c (p # ps) = c # packet_offsets (c + length (encode_packet p)) ps"

definition packets_len :: "wire_packet list \<Rightarrow> nat" where
  "packets_len ps = length (concat (map encode_packet ps))"

text \<open>
  The writer of a transport channel (the external \<open>bab\<close> crate) prefixes the packets of
  one flush with a \<open>PacketBundle\<close> header whose \<open>length\<close> is the byte length of the
  packets that follow (specification, section on wire framing).
\<close>

definition bundle_bytes :: "u32 \<Rightarrow> wire_packet list \<Rightarrow> bytes" where
  "bundle_bytes ch ps =
     encode_packet_bundle \<lparr>pb_channel_id = ch, pb_length = of_nat (packets_len ps)\<rparr> @
     concat (map encode_packet ps)"

section \<open>The header written by \<open>PacketSender::send_raw\<close>\<close>

text \<open>
  \<open>send_raw\<close> reserves \<open>20 + len\<close> bytes, writes the header with
  \<open>payload_length: len as u16\<close> (a truncating cast) and lets the caller fill the payload.
\<close>

definition send_raw_header :: "endpoint_addr \<Rightarrow> u32 \<Rightarrow> u32 \<Rightarrow> nat \<Rightarrow> transmit_packet" where
  "send_raw_header src plane_id topic len =
     \<lparr>tp_payload_length = of_nat len, tp_infra_id = 0, tp_plane_id = plane_id,
      tp_topic = topic, tp_source = src\<rparr>"

definition send_raw_bytes :: "endpoint_addr \<Rightarrow> u32 \<Rightarrow> u32 \<Rightarrow> bytes \<Rightarrow> bytes" where
  "send_raw_bytes src plane_id topic payload =
     encode_transmit_packet (send_raw_header src plane_id topic (length payload)) @ payload"

section \<open>Splitting a received bundle\<close>

datatype shatter_error =
    DecodeBundleHeader
  | DecodePacketHeader
  | SliceOutOfRange

text \<open>
  The loop of \<open>shatter_packet_bundle\<close>: while the cursor is inside the bundle body,
  decode the packet header at the cursor (a panic if it does not decode, and a slice
  panic if the cursor is past the buffer), record the offset and step over the packet.
\<close>

function shatter_offsets :: "bytes \<Rightarrow> nat \<Rightarrow> nat \<Rightarrow> nat list \<Rightarrow> shatter_error + nat list" where
  "shatter_offsets pkt limit cursor offsets =
     (if cursor < limit then
        (if length pkt < cursor then Inl SliceOutOfRange
         else case decode_transmit_packet (drop cursor pkt) of
           None \<Rightarrow> Inl DecodePacketHeader
         | Some (h, _) \<Rightarrow>
             shatter_offsets pkt limit (cursor + transmit_packet_base_len + unat (tp_payload_length h))
               (offsets @ [cursor]))
      else Inr offsets)"
  by pat_completeness auto
termination
  by (relation "measure (\<lambda>(pkt, limit, cursor, offsets). limit - cursor)")
     (auto simp: transmit_packet_base_len_def)

declare shatter_offsets.simps [simp del]

definition shatter_packet_bundle :: "bytes \<Rightarrow> shatter_error + (packet_bundle \<times> nat list)" where
  "shatter_packet_bundle pkt =
     (case decode_packet_bundle pkt of
        None \<Rightarrow> Inl DecodeBundleHeader
      | Some (hdr, _) \<Rightarrow>
          (case shatter_offsets pkt (packet_bundle_base_len + unat (pb_length hdr)) packet_bundle_base_len [] of
             Inl e \<Rightarrow> Inl e
           | Inr offs \<Rightarrow> Inr (hdr, offs)))"

text \<open>
  \<open>Packet::shatter_into\<close> (in \<open>bab\<close>) cuts the buffer at the offsets: each view runs
  to the next offset, the last one to the end of the buffer.
\<close>

fun shatter_into :: "bytes \<Rightarrow> nat list \<Rightarrow> bytes list" where
  "shatter_into pkt [] = []"
| "shatter_into pkt [o1] = [drop o1 pkt]"
| "shatter_into pkt (o1 # o2 # os) = take (o2 - o1) (drop o1 pkt) # shatter_into pkt (o2 # os)"

text \<open>
  \<open>ShatterPacketBundle::next\<close>: yields the view at the cursor while
  \<open>cursor + 20 < len\<close>, stops at the first header that does not decode.
\<close>

function shatter_iter :: "bytes \<Rightarrow> nat \<Rightarrow> nat list" where
  "shatter_iter pkt cursor =
     (if cursor + transmit_packet_base_len < length pkt then
        (case decode_transmit_packet (drop cursor pkt) of
           None \<Rightarrow> []
         | Some (h, _) \<Rightarrow>
             cursor # shatter_iter pkt (cursor + transmit_packet_base_len + unat (tp_payload_length h)))
      else [])"
  by pat_completeness auto
termination
  by (relation "measure (\<lambda>(pkt, cursor). length pkt - cursor)")
     (auto simp: transmit_packet_base_len_def)

declare shatter_iter.simps [simp del]

section \<open>Codec lemmas\<close>

lemma length_encode_endpoint_addr [simp, wire_simps]: "length (encode_endpoint_addr a) = 8"
  by (simp add: encode_endpoint_addr_def)

lemma length_encode_transmit_packet [simp, wire_simps]:
  "length (encode_transmit_packet h) = transmit_packet_base_len"
  by (simp add: encode_transmit_packet_def transmit_packet_base_len_def)

lemma length_encode_packet_bundle [simp, wire_simps]:
  "length (encode_packet_bundle b) = packet_bundle_base_len"
  by (simp add: encode_packet_bundle_def packet_bundle_base_len_def)

lemma decode_endpoint_addr_encode [simp, wire_simps]:
  "decode_endpoint_addr (encode_endpoint_addr a @ rest) = Some (a, rest)"
  by (simp add: decode_endpoint_addr_def encode_endpoint_addr_def)

lemma length_encode_packet [simp, wire_simps]:
  "length (encode_packet p) = transmit_packet_base_len + length (snd p)"
  by (simp add: encode_packet_def)

lemma decode_transmit_packet_encode [simp, wire_simps]:
  "decode_transmit_packet (encode_transmit_packet h @ rest) = Some (h, rest)"
  by (simp add: decode_transmit_packet_def encode_transmit_packet_def)
lemma decode_packet_bundle_encode [simp, wire_simps]:
  "decode_packet_bundle (encode_packet_bundle b @ rest) = Some (b, rest)"
  by (simp add: decode_packet_bundle_def encode_packet_bundle_def)

lemma decode_endpoint_addr_iff:
  "decode_endpoint_addr bs = Some (a, r) \<longleftrightarrow> bs = encode_endpoint_addr a @ r"
  by (cases a) (auto simp: decode_endpoint_addr_def encode_endpoint_addr_def decode_u64_iff
                     bind_eq_Some_conv)

text \<open>
  Claim C2. The \<open>TransmitPacket\<close> codec round-trips in both directions: decoding succeeds
  on a buffer exactly when the buffer starts with the 20-byte encoding of the decoded
  header, and it hands back the bytes after it.
\<close>

theorem transmit_packet_codec:
  "decode_transmit_packet bs = Some (h, r) \<longleftrightarrow> bs = encode_transmit_packet h @ r"
proof
  assume "decode_transmit_packet bs = Some (h, r)"
  then show "bs = encode_transmit_packet h @ r"
    by (auto simp: decode_transmit_packet_def encode_transmit_packet_def bind_eq_Some_conv
                   decode_u16_iff decode_u32_iff decode_endpoint_addr_iff)
next
  assume "bs = encode_transmit_packet h @ r"
  then show "decode_transmit_packet bs = Some (h, r)" by simp
qed

lemma packet_bundle_codec:
  "decode_packet_bundle bs = Some (b, r) \<longleftrightarrow> bs = encode_packet_bundle b @ r"
proof
  assume "decode_packet_bundle bs = Some (b, r)"
  then show "bs = encode_packet_bundle b @ r"
    by (auto simp: decode_packet_bundle_def encode_packet_bundle_def bind_eq_Some_conv
                   decode_u16_iff decode_u32_iff)
next
  assume "bs = encode_packet_bundle b @ r"
  then show "decode_packet_bundle bs = Some (b, r)" by simp
qed

text \<open>
  The lazy accessors of \<open>TransmitPacketLazy\<close>, which read each field at a
  fixed offset, agree with the eager decoder on every buffer the eager decoder accepts.
\<close>

theorem lazy_accessors_agree:
  assumes "decode_transmit_packet bs = Some (h, r)"
  shows "lazy_payload_length bs = Some (tp_payload_length h) \<and> lazy_infra_id bs = Some (tp_infra_id h) \<and>
         lazy_plane_id bs = Some (tp_plane_id h) \<and> lazy_topic bs = Some (tp_topic h) \<and>
         lazy_source bs = Some (tp_source h)"
proof -
  from assms have bs: "bs = encode_transmit_packet h @ r"
    by (simp add: transmit_packet_codec)
  show ?thesis
    by (simp add: bs encode_transmit_packet_def lazy_payload_length_def lazy_infra_id_def
                  lazy_plane_id_def lazy_topic_def lazy_source_def)
qed

text \<open>
  The header written by \<open>send_raw\<close> decodes back from the sent bytes, its
  \<open>payload_length\<close> is the payload length modulo \<open>2^16\<close> (the \<open>as u16\<close> cast),
  and the packet is well formed exactly when the payload is shorter than 64 KiB.
\<close>

theorem send_raw_payload_length:
  "decode_transmit_packet (send_raw_bytes src plane_id topic payload) =
     Some (send_raw_header src plane_id topic (length payload), payload) \<and>
   unat (tp_payload_length (send_raw_header src plane_id topic (length payload))) = length payload mod 2 ^ 16 \<and>
   (wf_packet (send_raw_header src plane_id topic (length payload), payload) \<longleftrightarrow> length payload < 2 ^ 16)"
  by (simp add: send_raw_bytes_def send_raw_header_def wf_packet_def unat_of_nat)
     (metis mod_less mod_less_divisor zero_less_numeral)

lemma wf_packet_step:
  "wf_packet p \<Longrightarrow> transmit_packet_base_len + unat (tp_payload_length (fst p)) = length (encode_packet p)"
  by (simp add: wf_packet_def)

lemma decode_encode_packet_prefix:
  "decode_transmit_packet (encode_packet p @ rest) = Some (fst p, snd p @ rest)"
  by (simp add: encode_packet_def)

lemma shatter_offsets_packets:
  assumes "list_all wf_packet ps" and "length pre = c"
  shows "shatter_offsets (pre @ concat (map encode_packet ps)) (c + packets_len ps) c acc =
           Inr (acc @ packet_offsets c ps)"
  using assms
proof (induction ps arbitrary: pre c acc)
  case Nil
  then show ?case by (simp add: shatter_offsets.simps packets_len_def)
next
  case (Cons p ps)
  let ?c' = "c + length (encode_packet p)"
  have lim: "c + packets_len (p # ps) = ?c' + packets_len ps"
    by (simp add: packets_len_def)
  have lt: "c < ?c' + packets_len ps"
    by (simp add: transmit_packet_base_len_def)
  have dec: "decode_transmit_packet (drop c (pre @ concat (map encode_packet (p # ps)))) =
               Some (fst p, snd p @ concat (map encode_packet ps))"
    using Cons.prems(2) by (simp add: decode_encode_packet_prefix)
  have step: "c + transmit_packet_base_len + unat (tp_payload_length (fst p)) = ?c'"
    using Cons.prems(1) wf_packet_step [of p] by simp
  have IH: "shatter_offsets ((pre @ encode_packet p) @ concat (map encode_packet ps)) (?c' + packets_len ps) ?c'
              (acc @ [c]) = Inr ((acc @ [c]) @ packet_offsets ?c' ps)"
    using Cons.prems by (intro Cons.IH) simp_all
  show ?case
    unfolding lim
    using lt dec step IH Cons.prems(2)
    by (subst shatter_offsets.simps) (simp add: add.assoc)
qed

lemma shatter_into_packets:
  "length pre = c \<Longrightarrow> shatter_into (pre @ concat (map encode_packet ps)) (packet_offsets c ps) = map encode_packet ps"
proof (induction ps arbitrary: pre c)
  case Nil
  then show ?case by simp
next
  case (Cons p ps)
  show ?case
  proof (cases ps)
    case Nil
    with Cons.prems show ?thesis by simp
  next
    case (Cons q qs)
    have IH: "shatter_into ((pre @ encode_packet p) @ concat (map encode_packet ps))
                (packet_offsets (c + length (encode_packet p)) ps) = map encode_packet ps"
      using Cons.prems by (intro Cons.IH) simp
    with Cons.prems \<open>ps = q # qs\<close> show ?thesis by simp
  qed
qed

text \<open>
  Claim C3. Splitting a bundle is the inverse of the framing: for well-formed packets
  whose total length fits the 16-bit \<open>length\<close> field, \<open>shatter_packet_bundle\<close>
  returns the bundle header and the offset of every packet, and cutting the buffer at
  those offsets gives back exactly the encoded packets, in order.
\<close>

theorem shatter_bundle_roundtrip:
  assumes "list_all wf_packet ps" and "packets_len ps < 2 ^ 16"
  shows "shatter_packet_bundle (bundle_bytes ch ps) =
           Inr (\<lparr>pb_channel_id = ch, pb_length = of_nat (packets_len ps)\<rparr>,
                packet_offsets packet_bundle_base_len ps)
         \<and> shatter_into (bundle_bytes ch ps) (packet_offsets packet_bundle_base_len ps) =
           map encode_packet ps"
proof
  let ?hdr = "\<lparr>pb_channel_id = ch, pb_length = (of_nat (packets_len ps) :: u16)\<rparr>"
  have len: "unat (pb_length ?hdr) = packets_len ps"
    using assms(2) by (simp add: unat_of_nat)
  have off: "shatter_offsets (encode_packet_bundle ?hdr @ concat (map encode_packet ps))
               (packet_bundle_base_len + packets_len ps) packet_bundle_base_len [] =
             Inr (packet_offsets packet_bundle_base_len ps)"
    using shatter_offsets_packets [OF assms(1), of "encode_packet_bundle ?hdr" packet_bundle_base_len "[]"]
    by simp
  show "shatter_packet_bundle (bundle_bytes ch ps) = Inr (?hdr, packet_offsets packet_bundle_base_len ps)"
    using off len by (simp add: shatter_packet_bundle_def bundle_bytes_def)
  show "shatter_into (bundle_bytes ch ps) (packet_offsets packet_bundle_base_len ps) = map encode_packet ps"
    unfolding bundle_bytes_def by (rule shatter_into_packets) simp
qed

lemma shatter_iter_packets_gen:
  assumes "list_all wf_packet ps" and "length pre = c"
  shows "shatter_iter (pre @ concat (map encode_packet ps)) c =
           packet_offsets c (if ps \<noteq> [] \<and> snd (last ps) = [] then butlast ps else ps)"
  using assms
proof (induction ps arbitrary: pre c)
  case Nil
  then show ?case by (subst shatter_iter.simps) simp
next
  case (Cons p ps)
  let ?c' = "c + length (encode_packet p)"
  have dec: "decode_transmit_packet (drop c (pre @ concat (map encode_packet (p # ps)))) =
               Some (fst p, snd p @ concat (map encode_packet ps))"
    using Cons.prems(2) by (simp add: decode_encode_packet_prefix)
  have step: "c + transmit_packet_base_len + unat (tp_payload_length (fst p)) = ?c'"
    using Cons.prems(1) wf_packet_step [of p] by simp
  have IH: "shatter_iter ((pre @ encode_packet p) @ concat (map encode_packet ps)) ?c' =
              packet_offsets ?c' (if ps \<noteq> [] \<and> snd (last ps) = [] then butlast ps else ps)"
    using Cons.prems by (intro Cons.IH) simp_all
  show ?case
  proof (cases "ps = [] \<and> snd p = []")
    case True
    with Cons.prems(2) show ?thesis
      by (subst shatter_iter.simps) (simp add: encode_packet_def)
  next
    case False
    have more: "c + transmit_packet_base_len < length (pre @ concat (map encode_packet (p # ps)))"
    proof (cases ps)
      case Nil
      with False Cons.prems(2) show ?thesis by (simp add: encode_packet_def)
    next
      case (Cons q qs)
      with Cons.prems(2) show ?thesis by (simp add: transmit_packet_base_len_def)
    qed
    define T where "T = pre @ concat (map encode_packet (p # ps))"
    have eq: "(pre @ encode_packet p) @ concat (map encode_packet ps) = T"
      by (simp add: T_def)
    have unf: "shatter_iter T c =
                 (case decode_transmit_packet (drop c T) of None \<Rightarrow> []
                  | Some (h, _) \<Rightarrow> c # shatter_iter T (c + transmit_packet_base_len + unat (tp_payload_length h)))"
      using more unfolding T_def by (subst shatter_iter.simps) simp
    have "shatter_iter T c = c # packet_offsets ?c'
            (if ps \<noteq> [] \<and> snd (last ps) = [] then butlast ps else ps)"
      using unf dec step IH [unfolded eq] unfolding T_def [symmetric] by simp
    then have "shatter_iter (pre @ concat (map encode_packet (p # ps))) c = c # packet_offsets ?c'
            (if ps \<noteq> [] \<and> snd (last ps) = [] then butlast ps else ps)"
      by (simp add: T_def)
    with False show ?thesis by (cases ps) auto
  qed
qed

text \<open>
  Claim C10. The iterator \<open>ShatterPacketBundle\<close> over a buffer of well-formed packets
  yields the offset of every packet except a last packet with an empty payload: its
  guard \<open>cursor + 20 < len\<close> is strict.
\<close>

theorem shatter_iter_packets:
  assumes "list_all wf_packet ps"
  shows "shatter_iter (concat (map encode_packet ps)) 0 =
           packet_offsets 0 (if ps \<noteq> [] \<and> snd (last ps) = [] then butlast ps else ps)"
  using shatter_iter_packets_gen [OF assms, of "[]" 0] by simp


theorem lazy_accessors_agree_witness:
  "decode_transmit_packet (encode_transmit_packet \<lparr>tp_payload_length = 2, tp_infra_id = 0, tp_plane_id = 7, tp_topic = 3, tp_source = \<lparr>endpoint = 42\<rparr>\<rparr> @ [5, 6]) = Some (\<lparr>tp_payload_length = 2, tp_infra_id = 0, tp_plane_id = 7, tp_topic = 3, tp_source = \<lparr>endpoint = 42\<rparr>\<rparr>, [5, 6]) \<and>
   lazy_topic (encode_transmit_packet \<lparr>tp_payload_length = 2, tp_infra_id = 0, tp_plane_id = 7, tp_topic = 3, tp_source = \<lparr>endpoint = 42\<rparr>\<rparr> @ [5, 6]) = Some 3 \<and>
   lazy_plane_id (encode_transmit_packet \<lparr>tp_payload_length = 2, tp_infra_id = 0, tp_plane_id = 7, tp_topic = 3, tp_source = \<lparr>endpoint = 42\<rparr>\<rparr> @ [5, 6]) = Some 7"
  using lazy_accessors_agree [of "encode_transmit_packet \<lparr>tp_payload_length = 2, tp_infra_id = 0, tp_plane_id = 7, tp_topic = 3, tp_source = \<lparr>endpoint = 42\<rparr>\<rparr> @ [5, 6]" "\<lparr>tp_payload_length = 2, tp_infra_id = 0, tp_plane_id = 7, tp_topic = 3, tp_source = \<lparr>endpoint = 42\<rparr>\<rparr>" "[5, 6]"]
  by simp

theorem shatter_bundle_roundtrip_witness:
  "list_all wf_packet [(\<lparr>tp_payload_length = 2, tp_infra_id = 0, tp_plane_id = 7, tp_topic = 3, tp_source = \<lparr>endpoint = 42\<rparr>\<rparr>, [1, 2])] \<and> packets_len [(\<lparr>tp_payload_length = 2, tp_infra_id = 0, tp_plane_id = 7, tp_topic = 3, tp_source = \<lparr>endpoint = 42\<rparr>\<rparr>, [1, 2])] < 2 ^ 16 \<and>
   shatter_packet_bundle (bundle_bytes 9 [(\<lparr>tp_payload_length = 2, tp_infra_id = 0, tp_plane_id = 7, tp_topic = 3, tp_source = \<lparr>endpoint = 42\<rparr>\<rparr>, [1, 2])]) =
     Inr (\<lparr>pb_channel_id = 9, pb_length = 22\<rparr>, [6])"
  using shatter_bundle_roundtrip [of "[(\<lparr>tp_payload_length = 2, tp_infra_id = 0, tp_plane_id = 7, tp_topic = 3, tp_source = \<lparr>endpoint = 42\<rparr>\<rparr>, [1, 2])]" 9]
  by (simp add: wf_packet_def packets_len_def packet_bundle_base_len_def transmit_packet_base_len_def)

theorem shatter_iter_packets_witness:
  "list_all wf_packet [(\<lparr>tp_payload_length = 2, tp_infra_id = 0, tp_plane_id = 7, tp_topic = 3, tp_source = \<lparr>endpoint = 42\<rparr>\<rparr>, [1, 2]), (\<lparr>tp_payload_length = 0, tp_infra_id = 0, tp_plane_id = 7, tp_topic = 3, tp_source = \<lparr>endpoint = 42\<rparr>\<rparr>, [])] \<and>
   shatter_iter (concat (map encode_packet [(\<lparr>tp_payload_length = 2, tp_infra_id = 0, tp_plane_id = 7, tp_topic = 3, tp_source = \<lparr>endpoint = 42\<rparr>\<rparr>, [1, 2]), (\<lparr>tp_payload_length = 0, tp_infra_id = 0, tp_plane_id = 7, tp_topic = 3, tp_source = \<lparr>endpoint = 42\<rparr>\<rparr>, [])])) 0 = [0]"
  using shatter_iter_packets [of "[(\<lparr>tp_payload_length = 2, tp_infra_id = 0, tp_plane_id = 7, tp_topic = 3, tp_source = \<lparr>endpoint = 42\<rparr>\<rparr>, [1, 2]), (\<lparr>tp_payload_length = 0, tp_infra_id = 0, tp_plane_id = 7, tp_topic = 3, tp_source = \<lparr>endpoint = 42\<rparr>\<rparr>, [])]"]
  by (simp add: wf_packet_def)

end
