(* ===== verification/PacketProcessor.thy ===== *)
theory PacketProcessor
  imports Wire
begin

unbundle bit_operations_syntax

text \<open>
  The per-worker dispatch table of \<open>crates/modrpc/src/packet_processor.rs\<close>. A
  \<open>PacketProcessor\<close> maps \<open>(plane_id, topic)\<close> to a chain of nodes, newest first,
  each with a source filter and one of five bodies. \<open>handle_packet\<close> decodes the
  header, finds the chain, refuses to re-enter a chain whose handler is running (the
  packet is put back on the worker's local queue) and walks the chain. Nodes added and
  planes removed while a dispatch holds the read lock are queued as mutations and
  applied when the outermost dispatch ends.

  The user closures of the \<open>Inline\<close>, \<open>RouteToLocalQueue\<close> and
  \<open>RouteToWorker\<close> nodes are the \<open>handler_env\<close>: an inline handler is the list
  of operations it performs synchronously (sending a packet with \<open>try_send\<close>, which
  dispatches it at once on this processor, adding a node, removing a plane); a routing
  handler is the queue or worker it picks. The \<open>Cell<bool>\<close> flag \<open>is_in_handler\<close>
  of a chain is true exactly while one of its handlers runs; the model carries the set of
  those chains (the call stack) as the argument \<open>active\<close> of the dispatch functions.
  Every push onto a queue and every handler call is recorded as a \<open>pp_effect\<close>.
\<close>

type_synonym worker_id = u16
type_synonym topic_key = "u32 \<times> u32"

section \<open>Sources, nodes and chains\<close>

definition PACKET_PROCESSOR_SOURCE_ANY :: u8 where
  "PACKET_PROCESSOR_SOURCE_ANY = 255"

definition PACKET_PROCESSOR_SOURCE_NEW :: u8 where
  "PACKET_PROCESSOR_SOURCE_NEW = 1"

definition PACKET_PROCESSOR_SOURCE_INTER_WORKER :: u8 where
  "PACKET_PROCESSOR_SOURCE_INTER_WORKER = 2"

datatype node_body =
    Inline nat
  | LocalQueue nat
  | RouteToLocalQueue nat
  | ToWorker worker_id
  | RouteToWorker nat

record node =
  source_filter :: u8
  body :: node_body

record node_chain =
  nc_nodes :: "node list"
  nc_tracer :: string
  nc_plane_next_topic :: "u32 option"

datatype mutation =
    AddNode u8 u32 u32 "string option" node_body
  | RemovePlane u32

record packet_processor =
  pp_handlers :: "(topic_key \<times> node_chain) list"
  pp_existing_topics :: "topic_key list"
  pp_mutations :: "mutation list"
  pp_plane_topic_chain :: "(u32 \<times> u32) list"
  pp_inter_worker_senders :: "bool list"

datatype pp_error =
    DecodeHeaderPanic
  | MissingTracerPanic
  | MissingTopicPanic

section \<open>User handlers and observable effects\<close>

datatype handler_op =
    SendPacket bytes
  | AddHandler string u8 u32 u32 node_body
  | RemovePlaneOp u32

record handler_env =
  inline_ops :: "nat \<Rightarrow> endpoint_addr \<Rightarrow> bytes \<Rightarrow> handler_op list"
  route_local :: "nat \<Rightarrow> endpoint_addr \<Rightarrow> bytes \<Rightarrow> nat option"
  route_worker :: "nat \<Rightarrow> endpoint_addr \<Rightarrow> bytes \<Rightarrow> worker_id option"

datatype pp_effect =
    HandlerCall nat topic_key endpoint_addr bytes
  | HandlerReturn nat topic_key
  | QueuePush nat bytes
  | WorkerPush worker_id bytes
  | Requeue bytes

type_synonym pp_state = "packet_processor \<times> pp_effect list"

definition emit :: "pp_effect \<Rightarrow> pp_state \<Rightarrow> pp_state" where
  "emit e st = (fst st, snd st @ [e])"

section \<open>Table mutation\<close>

text \<open>\<open>_add_node\<close>: push onto an existing chain, or create the chain and link it into its plane's topic stack.\<close>

definition add_node_impl ::
  "u8 \<Rightarrow> u32 \<Rightarrow> u32 \<Rightarrow> string option \<Rightarrow> node_body \<Rightarrow> packet_processor \<Rightarrow> pp_error + packet_processor" where
  "add_node_impl filt plane topic tracer b pp =
     (let n = \<lparr>source_filter = filt, body = b\<rparr> in
      case map_of (pp_handlers pp) (plane, topic) of
        Some chain \<Rightarrow>
          Inr (pp\<lparr>pp_handlers := AList.update (plane, topic)
                    (chain\<lparr>nc_nodes := n # nc_nodes chain\<rparr>) (pp_handlers pp)\<rparr>)
      | None \<Rightarrow>
          (case tracer of
             None \<Rightarrow> Inl MissingTracerPanic
           | Some tr \<Rightarrow>
               Inr (pp\<lparr>pp_plane_topic_chain := AList.update plane topic (pp_plane_topic_chain pp),
                       pp_handlers := AList.update (plane, topic)
                         \<lparr>nc_nodes = [n], nc_tracer = tr,
                          nc_plane_next_topic = map_of (pp_plane_topic_chain pp) plane\<rparr>
                         (pp_handlers pp)\<rparr>)))"

text \<open>\<open>_remove_plane\<close>: walk the plane's topic stack, removing each chain; a missing chain panics.\<close>

function remove_topics ::
  "u32 \<Rightarrow> (topic_key \<times> node_chain) list \<Rightarrow> topic_key list \<Rightarrow> u32 option
   \<Rightarrow> pp_error + ((topic_key \<times> node_chain) list \<times> topic_key list)" where
  "remove_topics plane hs ex None = Inr (hs, ex)"
| "remove_topics plane hs ex (Some t) =
     (case map_of hs (plane, t) of
        None \<Rightarrow> Inl MissingTopicPanic
      | Some chain \<Rightarrow>
          remove_topics plane (AList.delete (plane, t) hs) (removeAll (plane, t) ex) (nc_plane_next_topic chain))"
  by pat_completeness auto
termination
  by (relation "measure (\<lambda>(plane, hs, ex, t). length hs)") (auto simp: length_delete_less)

definition remove_plane_impl :: "u32 \<Rightarrow> packet_processor \<Rightarrow> pp_error + packet_processor" where
  "remove_plane_impl plane pp =
     (case remove_topics plane (pp_handlers pp) (pp_existing_topics pp)
             (map_of (pp_plane_topic_chain pp) plane) of
        Inl e \<Rightarrow> Inl e
      | Inr (hs, ex) \<Rightarrow>
          Inr (pp\<lparr>pp_handlers := hs, pp_existing_topics := ex,
                  pp_plane_topic_chain := AList.delete plane (pp_plane_topic_chain pp)\<rparr>))"

text \<open>
  \<open>add_node\<close>: the first handler of a topic creates its trace source (recorded in
  \<open>existing_topics\<close> at once); the node is added now if the write lock is free, and
  queued as a mutation if a dispatch holds the read lock (\<open>locked\<close>).
\<close>

definition add_node ::
  "bool \<Rightarrow> string \<Rightarrow> u8 \<Rightarrow> u32 \<Rightarrow> u32 \<Rightarrow> node_body \<Rightarrow> packet_processor \<Rightarrow> pp_error + packet_processor" where
  "add_node locked topic_name filt plane topic b pp =
     (let first = (plane, topic) \<notin> set (pp_existing_topics pp);
          tracer = (if first then Some topic_name else None);
          pp1 = pp\<lparr>pp_existing_topics := List.insert (plane, topic) (pp_existing_topics pp)\<rparr>
      in if locked then Inr (pp1\<lparr>pp_mutations := pp_mutations pp1 @ [AddNode filt plane topic tracer b]\<rparr>)
         else add_node_impl filt plane topic tracer b pp1)"

definition remove_plane :: "bool \<Rightarrow> u32 \<Rightarrow> packet_processor \<Rightarrow> pp_error + packet_processor" where
  "remove_plane locked plane pp =
     (if locked then Inr (pp\<lparr>pp_mutations := pp_mutations pp @ [RemovePlane plane]\<rparr>)
      else remove_plane_impl plane pp)"

fun apply_mutation :: "mutation \<Rightarrow> packet_processor \<Rightarrow> pp_error + packet_processor" where
  "apply_mutation (AddNode filt plane topic tracer b) pp = add_node_impl filt plane topic tracer b pp"
| "apply_mutation (RemovePlane plane) pp = remove_plane_impl plane pp"

fun apply_mutations :: "mutation list \<Rightarrow> packet_processor \<Rightarrow> pp_error + packet_processor" where
  "apply_mutations [] pp = Inr pp"
| "apply_mutations (m # ms) pp =
     (case apply_mutation m pp of Inl e \<Rightarrow> Inl e | Inr pp' \<Rightarrow> apply_mutations ms pp')"

section \<open>Dispatch\<close>

text \<open>
  The per-packet worker mask \<open>sent_to_workers\<close> is an \<open>i32\<close> (the literal \<open>0\<close> and
  \<open>1 << to_worker_id.0\<close> are not otherwise typed); with overflow checks off, Rust's
  \<open><<\<close> on \<open>i32\<close> shifts by the amount modulo 32.
\<close>

definition worker_mask :: "worker_id \<Rightarrow> 32 word" where
  "worker_mask w = push_bit (unat w mod 32) 1"

definition to_worker_step ::
  "worker_id \<Rightarrow> bytes \<Rightarrow> 32 word \<times> pp_state \<Rightarrow> 32 word \<times> pp_state" where
  "to_worker_step w pkt sst =
     (let (sent, st) = sst; mask = worker_mask w in
      if sent AND mask = 0 then
        (sent OR mask,
         if unat w < length (pp_inter_worker_senders (fst st)) \<and> pp_inter_worker_senders (fst st) ! unat w
         then emit (WorkerPush w pkt) st else st)
      else (sent, st))"

definition handler_add_node :: "string \<Rightarrow> u8 \<Rightarrow> u32 \<Rightarrow> u32 \<Rightarrow> node_body \<Rightarrow> pp_state \<Rightarrow> pp_error + pp_state" where
  "handler_add_node name filt plane topic b st =
     (case add_node True name filt plane topic b (fst st) of Inl e \<Rightarrow> Inl e | Inr pp \<Rightarrow> Inr (pp, snd st))"

definition handler_remove_plane :: "u32 \<Rightarrow> pp_state \<Rightarrow> pp_error + pp_state" where
  "handler_remove_plane plane st =
     (case remove_plane True plane (fst st) of Inl e \<Rightarrow> Inl e | Inr pp \<Rightarrow> Inr (pp, snd st))"

definition free_chains :: "(topic_key \<times> node_chain) list \<Rightarrow> topic_key list \<Rightarrow> nat" where
  "free_chains tbl active = card (set (map fst tbl) - set active)"

function
  dispatch :: "handler_env \<Rightarrow> (topic_key \<times> node_chain) list \<Rightarrow> topic_key list \<Rightarrow> u8 \<Rightarrow> bytes
               \<Rightarrow> pp_state \<Rightarrow> pp_error + pp_state"
and walk_nodes :: "handler_env \<Rightarrow> (topic_key \<times> node_chain) list \<Rightarrow> topic_key list \<Rightarrow> topic_key
               \<Rightarrow> transmit_packet \<Rightarrow> u8 \<Rightarrow> bytes \<Rightarrow> node list \<Rightarrow> 32 word \<Rightarrow> pp_state \<Rightarrow> pp_error + pp_state"
and run_ops :: "handler_env \<Rightarrow> (topic_key \<times> node_chain) list \<Rightarrow> topic_key list \<Rightarrow> handler_op list
               \<Rightarrow> pp_state \<Rightarrow> pp_error + pp_state"
where
  "dispatch env tbl active src pkt st =
     (case decode_transmit_packet pkt of
        None \<Rightarrow> Inl DecodeHeaderPanic
      | Some (hdr, _) \<Rightarrow>
          (let key = (tp_plane_id hdr, tp_topic hdr) in
           case map_of tbl key of
             None \<Rightarrow> Inr st
           | Some chain \<Rightarrow>
               if key \<in> set active then Inr (emit (Requeue pkt) st)
               else walk_nodes env tbl (key # active) key hdr src pkt (nc_nodes chain) 0 st))"
| "walk_nodes env tbl active key hdr src pkt [] sent st = Inr st"
| "walk_nodes env tbl active key hdr src pkt (n # ns) sent st =
     (if src AND source_filter n = 0 then walk_nodes env tbl active key hdr src pkt ns sent st
      else case body n of
        Inline h \<Rightarrow>
          (case run_ops env tbl active (inline_ops env h (tp_source hdr) pkt)
                  (emit (HandlerCall h key (tp_source hdr) pkt) st) of
             Inl e \<Rightarrow> Inl e
           | Inr st' \<Rightarrow> walk_nodes env tbl active key hdr src pkt ns sent (emit (HandlerReturn h key) st'))
      | LocalQueue q \<Rightarrow> walk_nodes env tbl active key hdr src pkt ns sent (emit (QueuePush q pkt) st)
      | RouteToLocalQueue h \<Rightarrow>
          (case route_local env h (tp_source hdr) pkt of
             None \<Rightarrow> walk_nodes env tbl active key hdr src pkt ns sent st
           | Some q \<Rightarrow> walk_nodes env tbl active key hdr src pkt ns sent (emit (QueuePush q pkt) st))
      | ToWorker w \<Rightarrow>
          (let (sent', st') = to_worker_step w pkt (sent, st) in
           walk_nodes env tbl active key hdr src pkt ns sent' st')
      | RouteToWorker h \<Rightarrow>
          (case route_worker env h (tp_source hdr) pkt of
             None \<Rightarrow> walk_nodes env tbl active key hdr src pkt ns sent st
           | Some w \<Rightarrow>
               (let (sent', st') = to_worker_step w pkt (sent, st) in
                walk_nodes env tbl active key hdr src pkt ns sent' st')))"
| "run_ops env tbl active [] st = Inr st"
| "run_ops env tbl active (SendPacket bs # ops) st =
     (case dispatch env tbl active PACKET_PROCESSOR_SOURCE_NEW bs st of
        Inl e \<Rightarrow> Inl e
      | Inr st' \<Rightarrow> run_ops env tbl active ops st')"
| "run_ops env tbl active (AddHandler name filt plane topic b # ops) st =
     (case handler_add_node name filt plane topic b st of
        Inl e \<Rightarrow> Inl e
      | Inr st' \<Rightarrow> run_ops env tbl active ops st')"
| "run_ops env tbl active (RemovePlaneOp plane # ops) st =
     (case handler_remove_plane plane st of
        Inl e \<Rightarrow> Inl e
      | Inr st' \<Rightarrow> run_ops env tbl active ops st')"
  by pat_completeness auto
termination
proof -
  have enter: "free_chains tbl (key # active) < free_chains tbl active"
    if "map_of tbl key = Some chain" and "key \<notin> set active"
    for tbl :: "(topic_key \<times> node_chain) list" and key chain active
  proof -
    have "key \<in> set (map fst tbl) - set active"
      using that map_of_SomeD [of tbl key chain] by force
    then have lt: "card ((set (map fst tbl) - set active) - {key}) < card (set (map fst tbl) - set active)"
      by (intro card_Diff1_less) simp_all
    have "set (map fst tbl) - set (key # active) = (set (map fst tbl) - set active) - {key}"
      by auto
    with lt show ?thesis
      unfolding free_chains_def by simp
  qed
  show ?thesis
    by (relation "measures
    [\<lambda>x. case x of
       Inl (env, tbl, active, src, pkt, st) \<Rightarrow> free_chains tbl active
     | Inr (Inl (env, tbl, active, key, hdr, src, pkt, ns, sent, st)) \<Rightarrow> free_chains tbl active
     | Inr (Inr (env, tbl, active, ops, st)) \<Rightarrow> free_chains tbl active,
     \<lambda>x. case x of Inl _ \<Rightarrow> 0 | Inr (Inl _) \<Rightarrow> 2 | Inr (Inr _) \<Rightarrow> 1,
     \<lambda>x. case x of
       Inl _ \<Rightarrow> 0
     | Inr (Inl (env, tbl, active, key, hdr, src, pkt, ns, sent, st)) \<Rightarrow> length ns
     | Inr (Inr (env, tbl, active, ops, st)) \<Rightarrow> length ops]") (auto simp: enter)
qed

text \<open>
  \<open>handle_packet\<close> at the top of a worker's stack: a packet without a chain returns
  at once; otherwise the chain is walked under the read lock and the queued mutations are
  applied in order once it is released.
\<close>

definition handle_packet ::
  "handler_env \<Rightarrow> u8 \<Rightarrow> bytes \<Rightarrow> packet_processor \<Rightarrow> pp_error + (packet_processor \<times> pp_effect list)" where
  "handle_packet env src pkt pp =
     (case decode_transmit_packet pkt of
        None \<Rightarrow> Inl DecodeHeaderPanic
      | Some (hdr, _) \<Rightarrow>
          (case map_of (pp_handlers pp) (tp_plane_id hdr, tp_topic hdr) of
             None \<Rightarrow> Inr (pp, [])
           | Some _ \<Rightarrow>
               (case dispatch env (pp_handlers pp) [] src pkt (pp, []) of
                  Inl e \<Rightarrow> Inl e
                | Inr (pp', effs) \<Rightarrow>
                    (case apply_mutations (pp_mutations pp') (pp'\<lparr>pp_mutations := []\<rparr>) of
                       Inl e \<Rightarrow> Inl e
                     | Inr pp'' \<Rightarrow> Inr (pp'', effs)))))"

section \<open>Reference behaviours\<close>

text \<open>
  \<open>frames stk es\<close> replays a trace of effects against a stack of running handler
  chains: a call pushes its chain and is refused when the chain is already on the stack, a
  return pops the matching chain. A trace is well nested from the empty stack exactly when
  \<open>frames [] es = Some []\<close>.
\<close>

fun frames :: "topic_key list \<Rightarrow> pp_effect list \<Rightarrow> topic_key list option" where
  "frames stk [] = Some stk"
| "frames stk (HandlerCall h k s p # es) = (if k \<in> set stk then None else frames (k # stk) es)"
| "frames stk (HandlerReturn h k # es) =
     (case stk of [] \<Rightarrow> None | k' # r \<Rightarrow> if k' = k then frames r es else None)"
| "frames stk (QueuePush q p # es) = frames stk es"
| "frames stk (WorkerPush w p # es) = frames stk es"
| "frames stk (Requeue p # es) = frames stk es"

text \<open>The part of the processor that the read lock protects during a dispatch.\<close>

definition locked_part ::
  "packet_processor \<Rightarrow> (topic_key \<times> node_chain) list \<times> (u32 \<times> u32) list \<times> bool list" where
  "locked_part pp = (pp_handlers pp, pp_plane_topic_chain pp, pp_inter_worker_senders pp)"

text \<open>
  \<open>extends A st st'\<close>: \<open>st'\<close> is reached from \<open>st\<close> by a computation that leaves the
  locked part alone and appends effects that are well nested over the stack \<open>A\<close>.
\<close>

definition extends :: "topic_key list \<Rightarrow> pp_state \<Rightarrow> pp_state \<Rightarrow> bool" where
  "extends A st st' \<longleftrightarrow> locked_part (fst st') = locked_part (fst st) \<and>
     (\<exists>new. snd st' = snd st @ new \<and> frames A new = Some A)"

text \<open>
  The worker bitmask read as the set of workers already served, and the step of the
  \<open>ToWorker\<close> branch written with that set instead of the mask.
\<close>

definition mask_of :: "worker_id list \<Rightarrow> 32 word" where
  "mask_of seen = foldr (\<lambda>w m. worker_mask w OR m) seen 0"

definition to_worker_ref ::
  "worker_id \<Rightarrow> bytes \<Rightarrow> worker_id list \<times> pp_state \<Rightarrow> worker_id list \<times> pp_state" where
  "to_worker_ref w pkt sst =
     (let (seen, st) = sst in
      if w \<in> set seen then (seen, st)
      else (w # seen,
            if unat w < length (pp_inter_worker_senders (fst st)) \<and> pp_inter_worker_senders (fst st) ! unat w
            then emit (WorkerPush w pkt) st else st))"

text \<open>The pushes a chain of \<open>LocalQueue\<close> nodes makes, newest node first.\<close>

definition queue_pushes :: "u8 \<Rightarrow> bytes \<Rightarrow> node list \<Rightarrow> pp_effect list" where
  "queue_pushes src pkt ns =
     concat (map (\<lambda>n. case body n of LocalQueue q \<Rightarrow> [QueuePush q pkt] | _ \<Rightarrow> [])
                 (filter (\<lambda>n. src AND source_filter n \<noteq> 0) ns))"

section \<open>Scenarios\<close>

definition hdr0 :: "u32 \<Rightarrow> u32 \<Rightarrow> transmit_packet" where
  "hdr0 p t = \<lparr>tp_payload_length = 1, tp_infra_id = 0, tp_plane_id = p, tp_topic = t,
               tp_source = \<lparr>endpoint = 5\<rparr>\<rparr>"

definition pkt0 :: "u32 \<Rightarrow> u32 \<Rightarrow> u8 \<Rightarrow> bytes" where
  "pkt0 p t x = encode_transmit_packet (hdr0 p t) @ [x]"

definition pp_empty :: "nat \<Rightarrow> packet_processor" where
  "pp_empty n = \<lparr>pp_handlers = [], pp_existing_topics = [], pp_mutations = [],
                 pp_plane_topic_chain = [], pp_inter_worker_senders = replicate n True\<rparr>"

definition add_nodes :: "(u32 \<times> u32 \<times> node_body) list \<Rightarrow> packet_processor \<Rightarrow> pp_error + packet_processor" where
  "add_nodes ns pp =
     fold (\<lambda>(p, t, b) r. case r of Inl e \<Rightarrow> Inl e
                                  | Inr pp \<Rightarrow> add_node False ''topic'' PACKET_PROCESSOR_SOURCE_ANY p t b pp)
          ns (Inr pp)"

definition handle_after :: "(u32 \<times> u32 \<times> node_body) list \<Rightarrow> nat \<Rightarrow> handler_env \<Rightarrow> bytes
                            \<Rightarrow> pp_error + (packet_processor \<times> pp_effect list)" where
  "handle_after ns n env pkt =
     (case add_nodes ns (pp_empty n) of Inl e \<Rightarrow> Inl e
      | Inr pp \<Rightarrow> handle_packet env PACKET_PROCESSOR_SOURCE_NEW pkt pp)"

definition env_none :: handler_env where
  "env_none = \<lparr>inline_ops = (\<lambda>_ _ _. []), route_local = (\<lambda>_ _ _. None), route_worker = (\<lambda>_ _ _. None)\<rparr>"

text \<open>An inline handler that sends the next packet of its own topic.\<close>

definition env_self :: handler_env where
  "env_self = \<lparr>inline_ops = (\<lambda>h src bs. if bs = pkt0 1 7 1 then [SendPacket (pkt0 1 7 2)] else []),
     route_local = (\<lambda>_ _ _. None), route_worker = (\<lambda>_ _ _. None)\<rparr>"

text \<open>An inline handler that tears its plane down and installs a new handler on its own topic.\<close>

definition env_teardown :: handler_env where
  "env_teardown = \<lparr>inline_ops = (\<lambda>h _ _. if h = 0 then [RemovePlaneOp 1,
        AddHandler ''topic'' PACKET_PROCESSOR_SOURCE_ANY 1 7 (Inline 1)] else []),
      route_local = (\<lambda>_ _ _. None), route_worker = (\<lambda>_ _ _. None)\<rparr>"

definition pp_self :: packet_processor where
  "pp_self = \<lparr>pp_handlers = [((1, 7), \<lparr>nc_nodes = [\<lparr>source_filter = PACKET_PROCESSOR_SOURCE_ANY, body = Inline 0\<rparr>],
                                    nc_tracer = ''topic'', nc_plane_next_topic = None\<rparr>)],
               pp_existing_topics = [(1, 7)], pp_mutations = [], pp_plane_topic_chain = [(1, 7)],
               pp_inter_worker_senders = [True]\<rparr>"

definition ns_q :: "node list" where
  "ns_q = [\<lparr>source_filter = PACKET_PROCESSOR_SOURCE_INTER_WORKER, body = LocalQueue 2\<rparr>,
       \<lparr>source_filter = PACKET_PROCESSOR_SOURCE_ANY, body = LocalQueue 3\<rparr>]"
section \<open>Nesting of handler calls\<close>

lemma frames_append:
  "frames stk (xs @ ys) = (case frames stk xs of None \<Rightarrow> None | Some stk' \<Rightarrow> frames stk' ys)"
  by (induction stk xs rule: frames.induct) (auto split: list.splits option.splits)

lemma extends_refl [simp]: "extends A st st"
  by (simp add: extends_def)

lemma extends_trans: "extends A st1 st2 \<Longrightarrow> extends A st2 st3 \<Longrightarrow> extends A st1 st3"
  by (auto simp: extends_def frames_append)

lemma extends_emit [simp]:
  "(\<forall>h k s p. e \<noteq> HandlerCall h k s p) \<Longrightarrow> (\<forall>h k. e \<noteq> HandlerReturn h k) \<Longrightarrow> extends A st (emit e st)"
  by (cases e) (auto simp: extends_def emit_def)

lemma to_worker_step_extends:
  "to_worker_step w pkt (sent, st) = (sent', st') \<Longrightarrow> extends A st st'"
  by (auto simp: to_worker_step_def Let_def split: if_splits)

lemma handler_add_node_extends:
  "handler_add_node name filt plane topic b st = Inr st' \<Longrightarrow> extends A st st'"
  by (auto simp: handler_add_node_def add_node_def Let_def extends_def locked_part_def split: sum.splits)

lemma handler_remove_plane_extends:
  "handler_remove_plane plane st = Inr st' \<Longrightarrow> extends A st st'"
  by (auto simp: handler_remove_plane_def remove_plane_def extends_def locked_part_def split: sum.splits)

lemma dispatch_extends:
  shows "dispatch env tbl A src pkt st = Inr st' \<Longrightarrow> extends A st st'"
    and "walk_nodes env tbl act key hdr src pkt ns sent st = Inr st' \<Longrightarrow> act = key # A \<Longrightarrow>
           key \<notin> set A \<Longrightarrow> extends A st st'"
    and "run_ops env tbl A ops st = Inr st' \<Longrightarrow> extends A st st'"
proof (induction env tbl A src pkt st and env tbl act key hdr src pkt ns sent st and env tbl A ops st
       arbitrary: st' and st' A and st' rule: dispatch_walk_nodes_run_ops.induct)
  case (1 env tbl active src pkt st)
  then show ?case
    by (auto simp: Let_def split: option.splits if_splits prod.splits)
next
  case (2 env tbl active key hdr src pkt sent st)
  then show ?case by simp
next
  case (3 env tbl active key hdr src pkt n ns sent st)
  show ?case
  proof (cases "src AND source_filter n = 0")
    case True
    with 3 show ?thesis by simp
  next
    case False
    show ?thesis
    proof (cases "body n")
      case (Inline h)
      let ?st1 = "emit (HandlerCall h key (tp_source hdr) pkt) st"
      from "3.prems"(1) False Inline obtain st2 where
          r: "run_ops env tbl active (inline_ops env h (tp_source hdr) pkt) ?st1 = Inr st2" and
          w: "walk_nodes env tbl active key hdr src pkt ns sent (emit (HandlerReturn h key) st2) = Inr st'"
        by (auto split: sum.splits)
      have e1: "extends active ?st1 st2"
        using "3.IH" False Inline r by blast
      have e2: "extends A (emit (HandlerReturn h key) st2) st'"
        using "3.IH" False Inline r w "3.prems"(2,3) by blast
      from e1 "3.prems"(2,3) have "extends A st (emit (HandlerReturn h key) st2)"
        by (auto simp: extends_def emit_def frames_append)
      then show ?thesis using e2 by (rule extends_trans)
    next
      case (LocalQueue q)
      have e2: "extends A (emit (QueuePush q pkt) st) st'"
        using "3.IH" False LocalQueue "3.prems" by simp
      have e1: "extends A st (emit (QueuePush q pkt) st)"
        by simp
      from e1 e2 show ?thesis by (rule extends_trans)
    next
      case (RouteToLocalQueue h)
      show ?thesis
      proof (cases "route_local env h (tp_source hdr) pkt")
        case None
        then show ?thesis using "3.IH" False RouteToLocalQueue "3.prems" by simp
      next
        case (Some q)
        have e2: "extends A (emit (QueuePush q pkt) st) st'"
          using "3.IH" False RouteToLocalQueue Some "3.prems" by simp
        have e1: "extends A st (emit (QueuePush q pkt) st)"
        by simp
      from e1 e2 show ?thesis by (rule extends_trans)
      qed
    next
      case (ToWorker w)
      obtain sent' st1 where t: "to_worker_step w pkt (sent, st) = (sent', st1)"
        by (cases "to_worker_step w pkt (sent, st)")
      have e2: "extends A st1 st'"
        using "3.IH" False ToWorker "3.prems" t by simp
      show ?thesis using to_worker_step_extends [OF t] e2 by (rule extends_trans)
    next
      case (RouteToWorker h)
      show ?thesis
      proof (cases "route_worker env h (tp_source hdr) pkt")
        case None
        then show ?thesis using "3.IH" False RouteToWorker "3.prems" by simp
      next
        case (Some w)
        obtain sent' st1 where t: "to_worker_step w pkt (sent, st) = (sent', st1)"
          by (cases "to_worker_step w pkt (sent, st)")
        have e2: "extends A st1 st'"
          using "3.IH" False RouteToWorker Some "3.prems" t by simp
        show ?thesis using to_worker_step_extends [OF t] e2 by (rule extends_trans)
      qed
    qed
  qed
next
  case (4 env tbl active st)
  then show ?case by simp
next
  case (5 env tbl active bs ops st)
  obtain st1 where d: "dispatch env tbl active PACKET_PROCESSOR_SOURCE_NEW bs st = Inr st1"
      and r: "run_ops env tbl active ops st1 = Inr st'"
    using "5.prems" by (auto simp del: dispatch.simps split: sum.splits)
  have "extends active st st1"
    using "5.IH"(1) d by blast
  moreover have "extends active st1 st'"
    using "5.IH"(2) d r by blast
  ultimately show ?case by (rule extends_trans)
next
  case (6 env tbl active name filt plane topic b ops st)
  obtain st1 where h: "handler_add_node name filt plane topic b st = Inr st1"
      and r: "run_ops env tbl active ops st1 = Inr st'"
    using "6.prems" by (auto split: sum.splits)
  have "extends active st1 st'"
    using "6.IH" h r by blast
  with handler_add_node_extends [OF h] show ?case by (rule extends_trans)
next
  case (7 env tbl active plane ops st)
  obtain st1 where h: "handler_remove_plane plane st = Inr st1"
      and r: "run_ops env tbl active ops st1 = Inr st'"
    using "7.prems" by (auto split: sum.splits)
  have "extends active st1 st'"
    using "7.IH" h r by blast
  with handler_remove_plane_extends [OF h] show ?case by (rule extends_trans)
qed


text \<open>
  Claim C1. A packet handled at the top of a worker's stack produces a trace of handler calls
  and returns that is well nested and never enters a chain whose handler is already running:
  the re-entrancy guard of \<open>handle_packet\<close> makes recursive calls of one \<open>FnMut\<close>
  handler impossible, however the handlers send packets to each other.
\<close>

theorem handle_packet_frames:
  "handle_packet env src pkt pp = Inr (pp', effs) \<Longrightarrow> frames [] effs = Some []"
proof -
  assume h: "handle_packet env src pkt pp = Inr (pp', effs)"
  then obtain pp1 where d: "dispatch env (pp_handlers pp) [] src pkt (pp, []) = Inr (pp1, effs) \<or> effs = []"
    by (auto simp: handle_packet_def simp del: dispatch.simps split: option.splits sum.splits prod.splits)
  then show ?thesis
  proof
    assume "dispatch env (pp_handlers pp) [] src pkt (pp, []) = Inr (pp1, effs)"
    then have "extends [] (pp, []) (pp1, effs)"
      by (rule dispatch_extends(1))
    then show ?thesis by (auto simp: extends_def)
  qed simp
qed

text \<open>
  While a dispatch holds the read lock, the dispatch table and the per-plane topic stacks
  are not changed: every mutation a handler asks for is deferred.
\<close>

theorem dispatch_keeps_table:
  "dispatch env tbl active src pkt (pp, es) = Inr (pp', es') \<Longrightarrow>
     pp_handlers pp' = pp_handlers pp \<and> pp_plane_topic_chain pp' = pp_plane_topic_chain pp"
  by (drule dispatch_extends(1)) (simp add: extends_def locked_part_def)

section \<open>The worker bitmask\<close>

lemma bit_worker_mask: "bit (worker_mask w) i \<longleftrightarrow> i = unat w mod 32"
  by (auto simp: worker_mask_def bit_push_bit_iff bit_exp_iff)

lemma worker_mask_disjoint:
  assumes "unat a < 32" and "unat b < 32"
  shows "worker_mask a AND worker_mask b = 0 \<longleftrightarrow> a \<noteq> b"
proof
  assume z: "worker_mask a AND worker_mask b = 0"
  show "a \<noteq> b"
  proof
    assume "a = b"
    then have "bit (worker_mask a AND worker_mask b) (unat a mod 32)"
      by (simp add: bit_and_iff bit_worker_mask)
    with z show False by simp
  qed
next
  assume "a \<noteq> b"
  then have "unat a mod 32 \<noteq> unat b mod 32"
    using assms by (simp add: word_unat_eq_iff)
  then show "worker_mask a AND worker_mask b = 0"
    by (auto simp: bit_eq_iff bit_and_iff bit_worker_mask)
qed

lemma mask_of_fresh:
  "\<forall>w' \<in> set seen. unat w' < 32 \<Longrightarrow> unat w < 32 \<Longrightarrow> mask_of seen AND worker_mask w = 0 \<longleftrightarrow> w \<notin> set seen"
proof (induction seen)
  case Nil
  then show ?case by (simp add: mask_of_def)
next
  case (Cons a seen)
  then show ?case
    using worker_mask_disjoint [of a w]
    by (auto simp: mask_of_def bit.conj_disj_distrib2)
qed

text \<open>
  Claim C9. For worker ids below 32 the \<open>i32\<close> bitmask of \<open>ToWorker\<close> dispatch behaves as
  the set of workers already served: a worker gets the packet once, and only if it has an
  inter-worker sender.
\<close>

theorem to_worker_step_ref:
  assumes "\<forall>w' \<in> set seen. unat w' < 32" and "unat w < 32"
  shows "to_worker_step w pkt (mask_of seen, st) = map_prod mask_of id (to_worker_ref w pkt (seen, st))"
  using mask_of_fresh [OF assms]
  by (auto simp: to_worker_step_def to_worker_ref_def mask_of_def Let_def word_bw_comms(2))

section \<open>Walking a chain\<close>

text \<open>
  A chain of \<open>LocalQueue\<close> nodes pushes the packet onto the queue of every node whose
  source filter meets the packet's source, once each, newest node first, and touches nothing
  else.
\<close>

theorem walk_queue_chain:
  "\<forall>n \<in> set ns. \<exists>q. body n = LocalQueue q \<Longrightarrow>
     walk_nodes env tbl act key hdr src pkt ns sent st = Inr (fst st, snd st @ queue_pushes src pkt ns)"
proof (induction ns arbitrary: st)
  case Nil
  then show ?case by (simp add: queue_pushes_def)
next
  case (Cons n ns)
  then obtain q where q: "body n = LocalQueue q" by auto
  with Cons show ?case by (auto simp: queue_pushes_def emit_def)
qed

section \<open>Behaviour on concrete tables\<close>

lemma worker_mask_served:
  "(sent OR worker_mask w) AND worker_mask w \<noteq> 0"
  "sent AND worker_mask w \<noteq> 0 \<Longrightarrow> sent OR worker_mask w = sent"
proof -
  have "bit ((sent OR worker_mask w) AND worker_mask w) (unat w mod 32)"
    by (simp add: bit_and_iff bit_or_iff bit_worker_mask)
  then show "(sent OR worker_mask w) AND worker_mask w \<noteq> 0"
    by auto
  assume nz: "sent AND worker_mask w \<noteq> 0"
  have "bit sent (unat w mod 32)"
  proof (rule ccontr)
    assume "\<not> bit sent (unat w mod 32)"
    then have "sent AND worker_mask w = 0"
      by (intro bit_word_eqI) (auto simp: bit_and_iff bit_worker_mask)
    with nz show False by simp
  qed
  then show "sent OR worker_mask w = sent"
    by (intro bit_word_eqI) (auto simp: bit_or_iff bit_worker_mask)
qed

text \<open>
  Claim C36. Workers whose ids are equal modulo 32 share a bit of the i32 mask a dispatch
  keeps of the workers it has sent the packet to (1 << w wraps the shift amount).  So in
  any chain, once a ToWorker node for worker b has run, a following ToWorker node for any
  worker a with a = b modulo 32 (for instance b = 32 and a = 0) is skipped: a never gets
  the packet, though it was never sent to a.
\<close>
theorem worker_mask_alias:
  assumes ab: "unat a mod 32 = unat b mod 32"
    and nb: "body nb = ToWorker b" "src AND source_filter nb \<noteq> 0"
    and na: "body na = ToWorker a" "src AND source_filter na \<noteq> 0"
  shows "walk_nodes env tbl active key hdr src pkt (nb # na # ns) sent st =
           walk_nodes env tbl active key hdr src pkt ns (sent OR worker_mask b)
             (if sent AND worker_mask b = 0 \<and> unat b < length (pp_inter_worker_senders (fst st)) \<and>
                 pp_inter_worker_senders (fst st) ! unat b
              then emit (WorkerPush b pkt) st else st)"
proof -
  have m: "worker_mask a = worker_mask b"
    using ab by (simp add: worker_mask_def)
  have fst_emit: "fst (emit e st) = fst st" for e
    by (simp add: emit_def)
  show ?thesis
  proof (cases "sent AND worker_mask b = 0")
    case True
    then show ?thesis
      using nb na worker_mask_served(1) [of sent b]
      by (simp add: to_worker_step_def m fst_emit)
  next
    case False
    then show ?thesis
      using nb na worker_mask_served(2) [OF False]
      by (simp add: to_worker_step_def m)
  qed
qed

text \<open>An inline handler that sends a packet on its own topic does not run again: the nested
  packet is put back on the local queue while the handler is still running.\<close>
theorem reentrant_send_requeued:
  "map_sum id snd (handle_after [(1, 7, Inline 0)] 1 env_self (pkt0 1 7 1)) =
     Inr [HandlerCall 0 (1, 7) \<lparr>endpoint = 5\<rparr> (pkt0 1 7 1), Requeue (pkt0 1 7 2), HandlerReturn 0 (1, 7)]"
  by code_simp

text \<open>
  Claim C37. An inline handler that removes its plane and then adds a handler to its own
  topic makes handle_packet panic.  Take any processor with no queued mutations in which
  the packet's topic is the only topic of its plane, with a single inline handler.  The
  topic is still registered when the handler adds a node, so the deferred AddNode carries
  no tracer; it is applied after the deferred RemovePlane has deleted the chain.
\<close>
theorem deferred_teardown_panics:
  assumes dec: "decode_transmit_packet pkt = Some (hdr, payload)"
    and key: "tp_plane_id hdr = p" "tp_topic hdr = t"
    and chain: "map_of (pp_handlers pp) (p, t) = Some ch" "nc_nodes ch = [n]" "nc_plane_next_topic ch = None"
    and node: "body n = Inline h" "src AND source_filter n \<noteq> 0"
    and plane: "map_of (pp_plane_topic_chain pp) p = Some t"
    and ex: "(p, t) \<in> set (pp_existing_topics pp)"
    and muts: "pp_mutations pp = []"
    and ops: "inline_ops env h (tp_source hdr) pkt = [RemovePlaneOp p, AddHandler name filt p t b]"
  shows "handle_packet env src pkt pp = Inl MissingTracerPanic"
proof -
  have ins: "List.insert (p, t) (pp_existing_topics pp) = pp_existing_topics pp"
    using ex by simp
  have gone: "map_of (AList.delete (p, t) (pp_handlers pp)) (p, t) = None"
    by (simp add: delete_conv')
  show ?thesis
    using dec key chain node plane ops muts gone ex
    by (simp add: handle_packet_def handler_remove_plane_def
        remove_plane_def handler_add_node_def add_node_def emit_def ins remove_plane_impl_def
        add_node_impl_def Let_def)
qed

text \<open> Nodes of one topic run newest first: of two local queues, the one registered last gets the
  packet first.
\<close>
theorem handlers_newest_first:
  "map_sum id snd (handle_after [(1, 7, LocalQueue 0), (1, 7, LocalQueue 1)] 1 env_none (pkt0 1 7 1)) =
     Inr [QueuePush 1 (pkt0 1 7 1), QueuePush 0 (pkt0 1 7 1)]"
  by code_simp

section \<open>Witnesses\<close>

theorem handle_packet_frames_witness:
  "\<not> isl (handle_packet env_self PACKET_PROCESSOR_SOURCE_NEW (pkt0 1 7 1) pp_self) \<and>
   frames [] (snd (projr (handle_packet env_self PACKET_PROCESSOR_SOURCE_NEW (pkt0 1 7 1) pp_self))) = Some []"
proof -
  have n: "\<not> isl (handle_packet env_self PACKET_PROCESSOR_SOURCE_NEW (pkt0 1 7 1) pp_self)"
    by code_simp
  then obtain pp' effs where r: "handle_packet env_self PACKET_PROCESSOR_SOURCE_NEW (pkt0 1 7 1) pp_self = Inr (pp', effs)"
    by (cases "handle_packet env_self PACKET_PROCESSOR_SOURCE_NEW (pkt0 1 7 1) pp_self") auto
  from n r handle_packet_frames [OF r] show ?thesis by simp
qed

theorem dispatch_keeps_table_witness:
  "\<not> isl (dispatch env_self (pp_handlers pp_self) [] PACKET_PROCESSOR_SOURCE_NEW (pkt0 1 7 1) (pp_self, [])) \<and>
   pp_handlers (fst (projr (dispatch env_self (pp_handlers pp_self) [] PACKET_PROCESSOR_SOURCE_NEW (pkt0 1 7 1) (pp_self, []))))
     = pp_handlers pp_self"
proof -
  have n: "\<not> isl (dispatch env_self (pp_handlers pp_self) [] PACKET_PROCESSOR_SOURCE_NEW (pkt0 1 7 1) (pp_self, []))"
    by code_simp
  then obtain pp' es' where r: "dispatch env_self (pp_handlers pp_self) [] PACKET_PROCESSOR_SOURCE_NEW (pkt0 1 7 1) (pp_self, []) = Inr (pp', es')"
    by (cases "dispatch env_self (pp_handlers pp_self) [] PACKET_PROCESSOR_SOURCE_NEW (pkt0 1 7 1) (pp_self, [])") auto
  from n r dispatch_keeps_table [OF r] show ?thesis by simp
qed

theorem to_worker_step_ref_witness:
  "to_worker_step 3 (pkt0 1 7 1) (mask_of [0, 5], (pp_empty 4, [])) =
     map_prod mask_of id (to_worker_ref 3 (pkt0 1 7 1) ([0, 5], (pp_empty 4, [])))"
  by (rule to_worker_step_ref) simp_all

theorem walk_queue_chain_witness:
  "walk_nodes env_none [] [(1, 7)] (1, 7) (hdr0 1 7) PACKET_PROCESSOR_SOURCE_NEW (pkt0 1 7 1) ns_q 0 (pp_empty 0, [])
   = Inr (pp_empty 0, [QueuePush 3 (pkt0 1 7 1)])"
proof -
  have h: "\<forall>n \<in> set ns_q. \<exists>q. body n = LocalQueue q" by (simp add: ns_q_def)
  from walk_queue_chain [OF h, of env_none "[]" "[(1, 7)]" "(1, 7)" "hdr0 1 7" PACKET_PROCESSOR_SOURCE_NEW
      "pkt0 1 7 1" 0 "(pp_empty 0, [])"]
  show ?thesis
    by (simp add: ns_q_def queue_pushes_def PACKET_PROCESSOR_SOURCE_NEW_def
                  PACKET_PROCESSOR_SOURCE_INTER_WORKER_def PACKET_PROCESSOR_SOURCE_ANY_def)
qed

theorem worker_mask_alias_witness:
  "walk_nodes env_none [] [] (1, 7) (hdr0 1 7) PACKET_PROCESSOR_SOURCE_NEW (pkt0 1 7 1)
     [\<lparr>source_filter = PACKET_PROCESSOR_SOURCE_ANY, body = ToWorker 32\<rparr>,
      \<lparr>source_filter = PACKET_PROCESSOR_SOURCE_ANY, body = ToWorker 0\<rparr>] 0 (pp_empty 33, []) =
   Inr (pp_empty 33, [WorkerPush 32 (pkt0 1 7 1)])"
  by (subst worker_mask_alias [where a = 0 and b = 32])
     (simp_all add: PACKET_PROCESSOR_SOURCE_ANY_def PACKET_PROCESSOR_SOURCE_NEW_def pp_empty_def emit_def)

theorem deferred_teardown_panics_witness:
  "handle_packet env_teardown PACKET_PROCESSOR_SOURCE_NEW (pkt0 1 7 1) pp_self = Inl MissingTracerPanic"
proof -
  have dec: "decode_transmit_packet (pkt0 1 7 1) = Some (hdr0 1 7, [1])"
    by code_simp
  show ?thesis
    by (rule deferred_teardown_panics [OF dec, where ch = "\<lparr>nc_nodes = [\<lparr>source_filter = PACKET_PROCESSOR_SOURCE_ANY,
          body = Inline 0\<rparr>], nc_tracer = ''topic'', nc_plane_next_topic = None\<rparr>"
        and n = "\<lparr>source_filter = PACKET_PROCESSOR_SOURCE_ANY, body = Inline 0\<rparr>" and h = 0
        and name = "''topic''" and filt = PACKET_PROCESSOR_SOURCE_ANY and b = "Inline 1"])
       (simp_all add: hdr0_def pp_self_def env_teardown_def PACKET_PROCESSOR_SOURCE_ANY_def
          PACKET_PROCESSOR_SOURCE_NEW_def)
qed

end
