(* ===== verification/ContextMap.thy ===== *)
theory ContextMap
  imports Prelude
begin

text \<open>
  The context map of \<open>crates/modrpc/src/context_map.rs\<close>: a registry of values keyed by
  \<open>(TypeId, key)\<close>, each item also threaded onto the intrusive chain of the tag
  (\<open>Role(id)\<close> or \<open>Worker(id)\<close>) under which it was created, so that
  \<open>shutdown_tag\<close> drops a tag's items in one walk. Items live in a hash table and are
  named by the address of their boxed \<open>ItemTyped\<close>; the model names them by natural
  numbers handed out by an allocator (\<open>cm_next_ptr\<close>), stores the table as an
  association list from address to item, and writes the null \<open>ItemId\<close> as \<open>None\<close>.
  The key type \<open>'k\<close> stands for the pair of the value's \<open>TypeId\<close> and its key, which
  is what \<open>item_compare\<close> compares; the hash only locates the bucket and is not modelled.
  The drops that \<open>shutdown_tag\<close> performs are returned as the list of dropped addresses.
\<close>

datatype modrpc_context_tag = Role u64 | Worker u16

record ('k, 'v) ctx_item =
  it_key :: 'k
  it_value :: 'v
  it_tag_next :: "nat option"

record ('k, 'v, 'tag) context_map =
  cm_items :: "(nat \<times> ('k, 'v) ctx_item) list"
  cm_tag_chains :: "('tag \<times> nat) list"
  cm_next_ptr :: nat

datatype ctx_error = MissingItemPanic

definition new_inner :: "('k, 'v, 'tag) context_map" where
  "new_inner = \<lparr>cm_items = [], cm_tag_chains = [], cm_next_ptr = 0\<rparr>"

text \<open>The entry lookup of \<open>HashTable::entry\<close> with \<open>item_compare\<close>.\<close>

definition find_key :: "(nat \<times> ('k, 'v) ctx_item) list \<Rightarrow> 'k \<Rightarrow> nat option" where
  "find_key items k = map_option fst (find (\<lambda>(p, it). it_key it = k) items)"

text \<open>
  \<open>get_ptr_fn\<close> (and \<open>get_ptr\<close>, which differs only in how the value is built): return the
  item with the key, or box a new one, make it the head of its tag's chain and link it to the
  previous head.
\<close>

definition get_ptr_fn :: "'tag \<Rightarrow> 'k \<Rightarrow> 'v \<Rightarrow> ('k, 'v, 'tag) context_map \<Rightarrow> nat \<times> ('k, 'v, 'tag) context_map" where
  "get_ptr_fn tag k v cm =
     (case find_key (cm_items cm) k of
        Some p \<Rightarrow> (p, cm)
      | None \<Rightarrow>
          (let p = cm_next_ptr cm;
               it = \<lparr>it_key = k, it_value = v, it_tag_next = map_of (cm_tag_chains cm) tag\<rparr>
           in (p, cm\<lparr>cm_items := AList.update p it (cm_items cm),
                     cm_tag_chains := AList.update tag p (cm_tag_chains cm),
                     cm_next_ptr := Suc p\<rparr>)))"

text \<open>
  \<open>with_inner_fn\<close>: find or create the item, run \<open>f\<close> on its value (the closure takes
  \<open>&mut T\<close>, so it returns the new value with its result).
\<close>

definition with_inner_fn ::
  "'tag \<Rightarrow> 'k \<Rightarrow> 'v \<Rightarrow> ('v \<Rightarrow> 'v \<times> 'u) \<Rightarrow> ('k, 'v, 'tag) context_map \<Rightarrow> 'u \<times> ('k, 'v, 'tag) context_map" where
  "with_inner_fn tag k v f cm =
     (let (p, cm1) = get_ptr_fn tag k v cm;
          it = the (map_of (cm_items cm1) p);
          (v', u) = f (it_value it)
      in (u, cm1\<lparr>cm_items := AList.update p (it\<lparr>it_value := v'\<rparr>) (cm_items cm1)\<rparr>))"

text \<open>\<open>with_inner\<close>: the same, the value built by the class constructor \<open>T::new(params)\<close>.\<close>

definition with_inner ::
  "('p \<Rightarrow> 'v) \<Rightarrow> 'tag \<Rightarrow> 'k \<Rightarrow> 'p \<Rightarrow> ('v \<Rightarrow> 'v \<times> 'u) \<Rightarrow> ('k, 'v, 'tag) context_map
   \<Rightarrow> 'u \<times> ('k, 'v, 'tag) context_map" where
  "with_inner new tag k params f cm = with_inner_fn tag k (new params) f cm"

text \<open>
  The loop of \<open>shutdown_tag\<close>: remove the item at the cursor (a missing item panics),
  drop it, and go on with its \<open>tag_next\<close>.
\<close>

function shutdown_walk ::
  "(nat \<times> ('k, 'v) ctx_item) list \<Rightarrow> nat option \<Rightarrow> nat list
   \<Rightarrow> ctx_error + ((nat \<times> ('k, 'v) ctx_item) list \<times> nat list)" where
  "shutdown_walk items None dropped = Inr (items, dropped)"
| "shutdown_walk items (Some p) dropped =
     (case map_of items p of
        None \<Rightarrow> Inl MissingItemPanic
      | Some it \<Rightarrow> shutdown_walk (AList.delete p items) (it_tag_next it) (dropped @ [p]))"
  by pat_completeness auto
termination
  by (relation "measure (\<lambda>(items, p, dropped). length items)") (auto simp: length_delete_less)

definition shutdown_tag ::
  "'tag \<Rightarrow> ('k, 'v, 'tag) context_map \<Rightarrow> ctx_error + (('k, 'v, 'tag) context_map \<times> nat list)" where
  "shutdown_tag tag cm =
     (case map_of (cm_tag_chains cm) tag of
        None \<Rightarrow> Inr (cm, [])
      | Some h \<Rightarrow>
          (case shutdown_walk (cm_items cm) (Some h) [] of
             Inl e \<Rightarrow> Inl e
           | Inr (items, dropped) \<Rightarrow>
               Inr (cm\<lparr>cm_items := items, cm_tag_chains := AList.delete tag (cm_tag_chains cm)\<rparr>, dropped)))"

text \<open>\<open>Drop for ContextMapPrivate\<close>: every item still in the table is dropped.\<close>

definition drop_all :: "('k, 'v, 'tag) context_map \<Rightarrow> nat list" where
  "drop_all cm = map fst (cm_items cm)"

section \<open>The abstract registry\<close>

text \<open>
  \<open>chain_ptrs items n x\<close> follows \<open>tag_next\<close> from \<open>x\<close> for at most \<open>n\<close> items;
  \<open>tag_chain cm t\<close> is the chain of tag \<open>t\<close> with as much fuel as there are items,
  which is enough for any chain without repetition.
\<close>

fun chain_ptrs :: "(nat \<times> ('k, 'v) ctx_item) list \<Rightarrow> nat \<Rightarrow> nat option \<Rightarrow> nat list option" where
  "chain_ptrs items n None = Some []"
| "chain_ptrs items 0 (Some p) = None"
| "chain_ptrs items (Suc n) (Some p) =
     (case map_of items p of
        None \<Rightarrow> None
      | Some it \<Rightarrow> map_option (Cons p) (chain_ptrs items n (it_tag_next it)))"

definition tag_chain :: "('k, 'v, 'tag) context_map \<Rightarrow> 'tag \<Rightarrow> nat list option" where
  "tag_chain cm t =
     (case map_of (cm_tag_chains cm) t of
        None \<Rightarrow> Some []
      | Some h \<Rightarrow> chain_ptrs (cm_items cm) (length (cm_items cm)) (Some h))"

definition chain_list :: "('k, 'v, 'tag) context_map \<Rightarrow> 'tag \<Rightarrow> nat list" where
  "chain_list cm t = (case tag_chain cm t of None \<Rightarrow> [] | Some ps \<Rightarrow> ps)"

text \<open>
  The invariant: addresses and keys are unique, addresses are below the allocator, every tag
  in \<open>tag_chains\<close> heads a finite chain without repetition, the chains of distinct tags
  are disjoint, and every item is on some chain.
\<close>

definition cm_wf :: "('k, 'v, 'tag) context_map \<Rightarrow> bool" where
  "cm_wf cm \<longleftrightarrow>
     distinct (map fst (cm_items cm)) \<and>
     distinct (map (it_key \<circ> snd) (cm_items cm)) \<and>
     (\<forall>p \<in> set (map fst (cm_items cm)). p < cm_next_ptr cm) \<and>
     distinct (map fst (cm_tag_chains cm)) \<and>
     (\<forall>t \<in> set (map fst (cm_tag_chains cm)).
        case tag_chain cm t of None \<Rightarrow> False | Some ps \<Rightarrow> distinct ps) \<and>
     (\<forall>t1 \<in> set (map fst (cm_tag_chains cm)). \<forall>t2 \<in> set (map fst (cm_tag_chains cm)).
        t1 \<noteq> t2 \<longrightarrow> set (chain_list cm t1) \<inter> set (chain_list cm t2) = {}) \<and>
     (\<forall>p \<in> set (map fst (cm_items cm)). \<exists>t \<in> set (map fst (cm_tag_chains cm)). p \<in> set (chain_list cm t))"

text \<open>
  What the map promises its users: a partial map from keys to values, and for each tag the
  keys of the items created under it.
\<close>

definition cm_abs :: "('k, 'v, 'tag) context_map \<Rightarrow> 'k \<Rightarrow> 'v option" where
  "cm_abs cm = map_of (map (\<lambda>(p, it). (it_key it, it_value it)) (cm_items cm))"

definition tag_keys :: "('k, 'v, 'tag) context_map \<Rightarrow> 'tag \<Rightarrow> 'k set" where
  "tag_keys cm t = set (map (it_key \<circ> snd) (filter (\<lambda>(p, it). p \<in> set (chain_list cm t)) (cm_items cm)))"

definition with_spec :: "('k \<Rightarrow> 'v option) \<Rightarrow> 'k \<Rightarrow> 'v \<Rightarrow> ('v \<Rightarrow> 'v \<times> 'u) \<Rightarrow> 'u \<times> ('k \<Rightarrow> 'v option)" where
  "with_spec m k v f = (let (v', u) = f (case m k of None \<Rightarrow> v | Some w \<Rightarrow> w) in (u, m(k \<mapsto> v')))"

section \<open>Proof vocabulary\<close>

text \<open>
  \<open>next_of\<close> is what a chain walk reads of an item; \<open>shutdown_state\<close> and
  \<open>insert_state\<close> are the states that \<open>shutdown_tag\<close> and an inserting
  \<open>with_inner_fn\<close> produce on a well-formed map.
\<close>

definition next_of :: "(nat \<times> ('k, 'v) ctx_item) list \<Rightarrow> nat \<Rightarrow> nat option option" where
  "next_of items p = map_option it_tag_next (map_of items p)"

definition shutdown_state :: "'tag \<Rightarrow> ('k, 'v, 'tag) context_map \<Rightarrow> ('k, 'v, 'tag) context_map" where
  "shutdown_state t cm =
     cm\<lparr>cm_items := filter (\<lambda>q. fst q \<notin> set (chain_list cm t)) (cm_items cm),
        cm_tag_chains := AList.delete t (cm_tag_chains cm)\<rparr>"

definition insert_state :: "'tag \<Rightarrow> 'k \<Rightarrow> 'v \<Rightarrow> ('k, 'v, 'tag) context_map \<Rightarrow> ('k, 'v, 'tag) context_map" where
  "insert_state tag k v cm =
     cm\<lparr>cm_items := cm_items cm @
          [(cm_next_ptr cm, \<lparr>it_key = k, it_value = v, it_tag_next = map_of (cm_tag_chains cm) tag\<rparr>)],
        cm_tag_chains := AList.update tag (cm_next_ptr cm) (cm_tag_chains cm),
        cm_next_ptr := Suc (cm_next_ptr cm)\<rparr>"

section \<open>Scenarios\<close>

text \<open>
  The unit test \<open>test_context_map\<close> of \<open>context_map.rs\<close>: keys pair a class name
  with the key, \<open>Foo::new(p) = p\<close> and \<open>Bar::new(p) = p + 10\<close>, and every call
  adds to the value.
\<close>

type_synonym test_map = "(string \<times> string, nat, modrpc_context_tag) context_map"

definition test_new :: "string \<times> string \<Rightarrow> nat \<Rightarrow> nat" where
  "test_new k p = (if fst k = ''Bar'' then p + 10 else p)"

definition test_add :: "modrpc_context_tag \<Rightarrow> string \<times> string \<Rightarrow> nat \<Rightarrow> test_map \<Rightarrow> test_map" where
  "test_add tag k d cm = snd (with_inner (test_new k) tag k 10 (\<lambda>x. (x + d, ())) cm)"

definition test_read :: "modrpc_context_tag \<Rightarrow> string \<times> string \<Rightarrow> test_map \<Rightarrow> nat" where
  "test_read tag k cm = fst (with_inner (test_new k) tag k 10 (\<lambda>x. (x, x)) cm)"

definition test_cx :: test_map where
  "test_cx =
     (test_add (Role 1) (''Foo'', ''baz'') 6 \<circ> test_add (Role 1) (''Bar'', ''2'') 5 \<circ>
      test_add (Role 0) (''Foo'', ''foo'') 4 \<circ> test_add (Role 1) (''Foo'', ''baz'') 3 \<circ>
      test_add (Role 1) (''Bar'', ''2'') 2 \<circ> test_add (Role 0) (''Foo'', ''foo'') 1) new_inner"

definition after_shutdown :: "modrpc_context_tag \<Rightarrow> test_map \<Rightarrow> test_map" where
  "after_shutdown t cm = (case shutdown_tag t cm of Inl e \<Rightarrow> cm | Inr (cm', ds) \<Rightarrow> cm')"

text \<open>One key used under two tags: created under \<open>Role(0)\<close>, then updated under \<open>Role(1)\<close>.\<close>

definition shared_cx :: test_map where
  "shared_cx = (test_add (Role 1) (''Foo'', ''foo'') 4 \<circ> test_add (Role 0) (''Foo'', ''foo'') 1) new_inner"


section \<open>Chains\<close>

lemma chain_ptrs_cong:
  "chain_ptrs items n x = Some ps \<Longrightarrow> (\<forall>p \<in> set ps. next_of items' p = next_of items p) \<Longrightarrow>
   chain_ptrs items' n x = Some ps"
proof (induction items n x arbitrary: ps rule: chain_ptrs.induct)
  case (3 items n p)
  from "3.prems"(1) obtain it ps' where it: "map_of items p = Some it" and ps: "ps = p # ps'"
      and r: "chain_ptrs items n (it_tag_next it) = Some ps'"
    by (auto split: option.splits)
  from "3.prems"(2) it ps obtain it' where it': "map_of items' p = Some it'"
      and nx: "it_tag_next it' = it_tag_next it"
    by (cases "map_of items' p") (auto simp: next_of_def)
  have "chain_ptrs items' n (it_tag_next it) = Some ps'"
    using "3.IH" [OF it r] "3.prems"(2) ps by simp
  with it' nx ps show ?case by simp
qed auto

lemma chain_ptrs_fuel:
  "chain_ptrs items n x = Some ps \<Longrightarrow> length ps \<le> m \<Longrightarrow> chain_ptrs items m x = Some ps"
proof (induction items n x arbitrary: ps m rule: chain_ptrs.induct)
  case (1 items n)
  then show ?case by simp
next
  case (2 items p)
  then show ?case by simp
next
  case (3 items n p)
  from "3.prems"(1) obtain it ps' where it: "map_of items p = Some it" and ps: "ps = p # ps'"
      and r: "chain_ptrs items n (it_tag_next it) = Some ps'"
    by (auto split: option.splits)
  from "3.prems"(2) ps obtain m' where m: "m = Suc m'" and l: "length ps' \<le> m'"
    by (cases m) auto
  have "chain_ptrs items m' (it_tag_next it) = Some ps'"
    using "3.IH" [OF it r l] .
  then show ?case using it ps m by simp
qed

lemma chain_ptrs_in:
  "chain_ptrs items n x = Some ps \<Longrightarrow> set ps \<subseteq> set (map fst items)"
proof (induction items n x arbitrary: ps rule: chain_ptrs.induct)
  case (3 items n p)
  from "3.prems"(1) obtain it ps' where it: "map_of items p = Some it" and ps: "ps = p # ps'"
      and r: "chain_ptrs items n (it_tag_next it) = Some ps'"
    by (auto split: option.splits)
  have "p \<in> set (map fst items)"
    using map_of_SomeD [OF it] by force
  with "3.IH" [OF it r] ps show ?case by simp
qed auto

lemma shutdown_walk_chain:
  "chain_ptrs items n x = Some ps \<Longrightarrow> distinct ps \<Longrightarrow>
   shutdown_walk items x acc = Inr (filter (\<lambda>q. fst q \<notin> set ps) items, acc @ ps)"
proof (induction n arbitrary: items x ps acc)
  case 0
  then show ?case by (cases x) auto
next
  case (Suc n)
  show ?case
  proof (cases x)
    case None
    with Suc.prems show ?thesis by simp
  next
    case (Some p)
    from Suc.prems(1) Some obtain it ps' where it: "map_of items p = Some it" and ps: "ps = p # ps'"
        and r: "chain_ptrs items n (it_tag_next it) = Some ps'"
      by (auto split: option.splits)
    have p: "p \<notin> set ps'" and d: "distinct ps'"
      using Suc.prems(2) ps by auto
    have "\<forall>q \<in> set ps'. next_of (AList.delete p items) q = next_of items q"
    proof
      fix q
      assume "q \<in> set ps'"
      with p have "q \<noteq> p" by auto
      then show "next_of (AList.delete p items) q = next_of items q"
        by (simp add: next_of_def map_of_delete_other)
    qed
    then have r': "chain_ptrs (AList.delete p items) n (it_tag_next it) = Some ps'"
      using chain_ptrs_cong [OF r] by blast
    have "filter (\<lambda>q. fst q \<notin> set ps') (AList.delete p items) = filter (\<lambda>q. fst q \<notin> set ps) items"
      by (simp add: AList.delete_eq ps filter_filter) (rule filter_cong, auto)
    with Suc.IH [OF r' d, of "acc @ [p]"] Some it ps show ?thesis by simp
  qed
qed

lemma tag_chain_wf:
  assumes "cm_wf cm" and "t \<in> set (map fst (cm_tag_chains cm))"
  shows "tag_chain cm t = Some (chain_list cm t) \<and> distinct (chain_list cm t)"
proof -
  have "case tag_chain cm t of None \<Rightarrow> False | Some ps \<Rightarrow> distinct ps"
    using assms unfolding cm_wf_def by blast
  then show ?thesis by (simp add: chain_list_def split: option.splits)
qed

lemma tag_chain_absent:
  assumes "t \<notin> set (map fst (cm_tag_chains cm))"
  shows "chain_list cm t = []"
proof -
  have "map_of (cm_tag_chains cm) t = None"
    using assms by (simp add: map_of_eq_None_iff)
  then show ?thesis by (simp add: chain_list_def tag_chain_def)
qed

lemma shutdown_tag_eq:
  assumes wf: "cm_wf cm"
  shows "shutdown_tag t cm =
           Inr (cm\<lparr>cm_items := filter (\<lambda>q. fst q \<notin> set (chain_list cm t)) (cm_items cm),
                   cm_tag_chains := AList.delete t (cm_tag_chains cm)\<rparr>, chain_list cm t)"
proof (cases "map_of (cm_tag_chains cm) t")
  case None
  then have "t \<notin> set (map fst (cm_tag_chains cm))"
    by (simp add: map_of_eq_None_iff)
  moreover have "AList.delete t (cm_tag_chains cm) = cm_tag_chains cm"
    using calculation by (rule delete_absent)
  ultimately show ?thesis
    using None by (simp add: shutdown_tag_def tag_chain_absent)
next
  case (Some h)
  have t: "t \<in> set (map fst (cm_tag_chains cm))"
    using map_of_SomeD [OF Some] by force
  from tag_chain_wf [OF wf t] have c: "tag_chain cm t = Some (chain_list cm t)"
    and d: "distinct (chain_list cm t)" by simp_all
  have "chain_ptrs (cm_items cm) (length (cm_items cm)) (Some h) = Some (chain_list cm t)"
    using c Some by (simp add: tag_chain_def)
  from shutdown_walk_chain [OF this d, of "[]"] Some show ?thesis
    by (simp add: shutdown_tag_def)
qed

lemma chain_ptrs_enough:
  assumes "chain_ptrs items n x = Some ps" and "distinct ps"
  shows "chain_ptrs items (length items) x = Some ps"
proof -
  have "length ps = card (set ps)"
    using assms(2) by (simp add: distinct_card)
  also have "\<dots> \<le> card (set (map fst items))"
    using chain_ptrs_in [OF assms(1)] by (intro card_mono) simp_all
  also have "\<dots> \<le> length items"
    using card_length [of "map fst items"] by simp
  finally show ?thesis
    using chain_ptrs_fuel [OF assms(1)] by blast
qed

lemma chain_list_disjoint:
  assumes wf: "cm_wf cm" and t': "t' \<in> set (map fst (cm_tag_chains cm))" and ne: "t' \<noteq> t"
  shows "set (chain_list cm t') \<inter> set (chain_list cm t) = {}"
proof (cases "t \<in> set (map fst (cm_tag_chains cm))")
  case True
  with wf t' ne show ?thesis unfolding cm_wf_def by blast
qed (simp add: tag_chain_absent)

lemma shutdown_chain_other:
  assumes wf: "cm_wf cm" and t': "t' \<in> set (map fst (cm_tag_chains cm))" and ne: "t' \<noteq> t"
  shows "tag_chain (shutdown_state t cm) t' = Some (chain_list cm t')"
proof -
  obtain h where h: "map_of (cm_tag_chains cm) t' = Some h"
    using t' by (cases "map_of (cm_tag_chains cm) t'") (auto simp: map_of_eq_None_iff)
  from tag_chain_wf [OF wf t'] have c: "tag_chain cm t' = Some (chain_list cm t')"
    and d: "distinct (chain_list cm t')" by simp_all
  have r: "chain_ptrs (cm_items cm) (length (cm_items cm)) (Some h) = Some (chain_list cm t')"
    using c h by (simp add: tag_chain_def)
  have "\<forall>q \<in> set (chain_list cm t').
          next_of (cm_items (shutdown_state t cm)) q = next_of (cm_items cm) q"
    using chain_list_disjoint [OF wf t' ne]
    by (auto simp: next_of_def shutdown_state_def map_of_filter_fst)
  from chain_ptrs_enough [OF chain_ptrs_cong [OF r this] d] h ne show ?thesis
    by (simp add: tag_chain_def shutdown_state_def map_of_delete_other)
qed

lemma shutdown_state_tags:
  "set (map fst (cm_tag_chains (shutdown_state t cm))) = set (map fst (cm_tag_chains cm)) - {t}"
  by (simp add: shutdown_state_def delete_keys)

lemma shutdown_chain_list_other:
  "cm_wf cm \<Longrightarrow> t' \<in> set (map fst (cm_tag_chains cm)) \<Longrightarrow> t' \<noteq> t \<Longrightarrow>
   chain_list (shutdown_state t cm) t' = chain_list cm t'"
  using shutdown_chain_other [of cm t' t] by (simp add: chain_list_def)

lemma shutdown_state_wf:
  assumes wf: "cm_wf cm"
  shows "cm_wf (shutdown_state t cm)"
proof -
  let ?cm' = "shutdown_state t cm"
  let ?T = "set (map fst (cm_tag_chains cm))"
  have tags: "set (map fst (cm_tag_chains ?cm')) = ?T - {t}"
    by (rule shutdown_state_tags)
  have same: "chain_list ?cm' t' = chain_list cm t'" if "t' \<in> ?T - {t}" for t'
    using shutdown_chain_list_other [OF wf] that by blast
  have w: "distinct (map fst (cm_items cm))" "distinct (map (it_key \<circ> snd) (cm_items cm))"
      "\<forall>p \<in> set (map fst (cm_items cm)). p < cm_next_ptr cm" "distinct (map fst (cm_tag_chains cm))"
      "\<forall>t1 \<in> ?T. \<forall>t2 \<in> ?T. t1 \<noteq> t2 \<longrightarrow> set (chain_list cm t1) \<inter> set (chain_list cm t2) = {}"
      "\<forall>p \<in> set (map fst (cm_items cm)). \<exists>t \<in> ?T. p \<in> set (chain_list cm t)"
    using wf unfolding cm_wf_def by blast+
  have c1: "distinct (map fst (cm_items ?cm'))"
    using w(1) by (simp add: shutdown_state_def distinct_map_filter)
  have c2: "distinct (map (it_key \<circ> snd) (cm_items ?cm'))"
    using w(2) by (simp add: shutdown_state_def distinct_map_filter)
  have c3: "\<forall>p \<in> set (map fst (cm_items ?cm')). p < cm_next_ptr ?cm'"
    using w(3) by (auto simp: shutdown_state_def)
  have c4: "distinct (map fst (cm_tag_chains ?cm'))"
    using w(4) by (simp add: shutdown_state_def distinct_delete)
  have c5: "\<forall>t' \<in> set (map fst (cm_tag_chains ?cm')).
              case tag_chain ?cm' t' of None \<Rightarrow> False | Some ps \<Rightarrow> distinct ps"
  proof
    fix t'
    assume "t' \<in> set (map fst (cm_tag_chains ?cm'))"
    then have t': "t' \<in> ?T" "t' \<noteq> t" using tags by auto
    show "case tag_chain ?cm' t' of None \<Rightarrow> False | Some ps \<Rightarrow> distinct ps"
      using shutdown_chain_other [OF wf t'] tag_chain_wf [OF wf t'(1)] by simp
  qed
  have c6: "\<forall>t1 \<in> set (map fst (cm_tag_chains ?cm')). \<forall>t2 \<in> set (map fst (cm_tag_chains ?cm')).
              t1 \<noteq> t2 \<longrightarrow> set (chain_list ?cm' t1) \<inter> set (chain_list ?cm' t2) = {}"
  proof (intro ballI impI)
    fix t1 t2
    assume a: "t1 \<in> set (map fst (cm_tag_chains ?cm'))" "t2 \<in> set (map fst (cm_tag_chains ?cm'))" "t1 \<noteq> t2"
    then have t12: "t1 \<in> ?T - {t}" "t2 \<in> ?T - {t}"
      unfolding tags by simp_all
    have "set (chain_list cm t1) \<inter> set (chain_list cm t2) = {}"
      using w(5) t12 a(3) by blast
    then show "set (chain_list ?cm' t1) \<inter> set (chain_list ?cm' t2) = {}"
      using same [OF t12(1)] same [OF t12(2)] by simp
  qed
  have c7: "\<forall>p \<in> set (map fst (cm_items ?cm')). \<exists>t' \<in> set (map fst (cm_tag_chains ?cm')).
              p \<in> set (chain_list ?cm' t')"
  proof
    fix p
    assume "p \<in> set (map fst (cm_items ?cm'))"
    then have p: "p \<in> set (map fst (cm_items cm))" "p \<notin> set (chain_list cm t)"
      by (auto simp: shutdown_state_def)
    then obtain t' where "t' \<in> ?T" "p \<in> set (chain_list cm t')"
      using w(6) by blast
    moreover with p(2) have "t' \<noteq> t" by auto
    ultimately show "\<exists>t' \<in> set (map fst (cm_tag_chains ?cm')). p \<in> set (chain_list ?cm' t')"
      unfolding tags using same by auto
  qed
  show ?thesis
    unfolding cm_wf_def using c1 c2 c3 c4 c5 c6 c7 by blast
qed

lemma chain_ptrs_ext:
  "(\<forall>q. next_of items' q = next_of items q) \<Longrightarrow> chain_ptrs items' n x = chain_ptrs items n x"
proof (induction items n x rule: chain_ptrs.induct)
  case (3 items n p)
  have "next_of items' p = next_of items p" using "3.prems" by blast
  then show ?case
    using "3.IH" "3.prems" by (cases "map_of items p"; cases "map_of items' p") (auto simp: next_of_def)
qed auto

lemma find_key_Some:
  "find_key items k = Some p \<Longrightarrow> \<exists>it. (p, it) \<in> set items \<and> it_key it = k"
  by (induction items) (auto simp: find_key_def split: if_splits)

lemma find_key_None:
  "find_key items k = None \<longleftrightarrow> k \<notin> set (map (it_key \<circ> snd) items)"
  by (induction items) (auto simp: find_key_def)

lemma cm_abs_Some:
  assumes "distinct (map (it_key \<circ> snd) (cm_items cm))"
  shows "cm_abs cm k = Some v \<longleftrightarrow> (\<exists>p it. (p, it) \<in> set (cm_items cm) \<and> it_key it = k \<and> it_value it = v)"
proof -
  let ?xs = "map (\<lambda>(p, it). (it_key it, it_value it)) (cm_items cm)"
  have e: "map fst ?xs = map (it_key \<circ> snd) (cm_items cm)"
    by (auto simp: comp_def split: prod.splits)
  have d: "distinct (map fst ?xs)"
    by (subst e) (rule assms)
  have "cm_abs cm k = Some v \<longleftrightarrow> (k, v) \<in> set ?xs"
    unfolding cm_abs_def by (rule map_of_eq_Some_iff [OF d])
  also have "\<dots> \<longleftrightarrow> (\<exists>p it. (p, it) \<in> set (cm_items cm) \<and> it_key it = k \<and> it_value it = v)"
    by force
  finally show ?thesis .
qed

lemma tag_keys_iff:
  "k \<in> tag_keys cm t \<longleftrightarrow> (\<exists>p it. (p, it) \<in> set (cm_items cm) \<and> p \<in> set (chain_list cm t) \<and> it_key it = k)"
  by (force simp: tag_keys_def)

lemma shutdown_state_abs:
  assumes wf: "cm_wf cm"
  shows "cm_abs (shutdown_state t cm) = (\<lambda>k. if k \<in> tag_keys cm t then None else cm_abs cm k)"
proof
  fix k
  let ?C = "set (chain_list cm t)"
  have dk: "distinct (map (it_key \<circ> snd) (cm_items cm))"
    using wf by (simp add: cm_wf_def)
  have dk': "distinct (map (it_key \<circ> snd) (cm_items (shutdown_state t cm)))"
    using shutdown_state_wf [OF wf] by (simp add: cm_wf_def)
  show "cm_abs (shutdown_state t cm) k = (if k \<in> tag_keys cm t then None else cm_abs cm k)"
  proof (rule option_eqI)
    fix v
    have "cm_abs (shutdown_state t cm) k = Some v \<longleftrightarrow>
            (\<exists>p it. (p, it) \<in> set (cm_items cm) \<and> p \<notin> ?C \<and> it_key it = k \<and> it_value it = v)"
      using cm_abs_Some [OF dk'] by (auto simp: shutdown_state_def)
    also have "\<dots> \<longleftrightarrow> k \<notin> tag_keys cm t \<and> cm_abs cm k = Some v"
      unfolding cm_abs_Some [OF dk] tag_keys_iff
      using distinct_map_eq [OF dk] by (auto simp: comp_def) metis+
    finally show "cm_abs (shutdown_state t cm) k = Some v \<longleftrightarrow>
                    (if k \<in> tag_keys cm t then None else cm_abs cm k) = Some v"
      by simp
  qed
qed

lemma shutdown_state_tag_keys:
  assumes wf: "cm_wf cm"
  shows "tag_keys (shutdown_state t cm) t' = (if t' = t then {} else tag_keys cm t')"
proof (cases "t' \<in> set (map fst (cm_tag_chains cm)) \<and> t' \<noteq> t")
  case True
  then have same: "chain_list (shutdown_state t cm) t' = chain_list cm t'"
    using shutdown_chain_list_other [OF wf] by blast
  have "set (chain_list cm t') \<inter> set (chain_list cm t) = {}"
    using chain_list_disjoint [OF wf] True by blast
  moreover have "cm_items (shutdown_state t cm) = filter (\<lambda>q. fst q \<notin> set (chain_list cm t)) (cm_items cm)"
    by (simp add: shutdown_state_def)
  ultimately have "x \<in> tag_keys (shutdown_state t cm) t' \<longleftrightarrow> x \<in> tag_keys cm t'" for x
    unfolding tag_keys_iff same by auto
  then show ?thesis
    using True by auto
next
  case False
  then have "t' \<notin> set (map fst (cm_tag_chains (shutdown_state t cm)))"
    using shutdown_state_tags [of t cm] by blast
  then have "chain_list (shutdown_state t cm) t' = []"
    by (rule tag_chain_absent)
  moreover have "t' \<noteq> t \<Longrightarrow> chain_list cm t' = []"
    using False by (intro tag_chain_absent) blast
  ultimately show ?thesis
    by (auto simp: tag_keys_def)
qed

lemma tag_keys_alt:
  "tag_keys cm t = snd ` {x \<in> set (map (\<lambda>x. (fst x, it_key (snd x))) (cm_items cm)). fst x \<in> set (chain_list cm t)}"
  by (force simp: tag_keys_def)

lemma cm_wf_cong:
  fixes cm cm' :: "('k, 'v, 'tag) context_map"
  assumes "map fst (cm_items cm') = map fst (cm_items cm)"
    and "map (it_key \<circ> snd) (cm_items cm') = map (it_key \<circ> snd) (cm_items cm)"
    and "cm_next_ptr cm' = cm_next_ptr cm" and "cm_tag_chains cm' = cm_tag_chains cm"
    and "\<forall>q. next_of (cm_items cm') q = next_of (cm_items cm) q"
  shows "chain_list cm' = chain_list cm \<and> (cm_wf cm' \<longleftrightarrow> cm_wf cm) \<and> tag_keys cm' = tag_keys cm"
proof -
  have l: "length (cm_items cm') = length (cm_items cm)"
    using arg_cong [OF assms(1), of length] by simp
  have tc: "tag_chain cm' = tag_chain cm"
    using chain_ptrs_ext [OF assms(5)] assms(4) l by (auto simp: tag_chain_def fun_eq_iff split: option.splits)
  then have cl: "chain_list cm' = chain_list cm"
    by (simp add: chain_list_def fun_eq_iff)
  have "map (\<lambda>x. (fst x, it_key (snd x))) (cm_items cm') = map (\<lambda>x. (fst x, it_key (snd x))) (cm_items cm)"
    using map_pair_eq [OF assms(1,2)] by (simp add: comp_def)
  then have tk: "tag_keys cm' = tag_keys cm"
    by (simp add: tag_keys_alt cl fun_eq_iff)
  have "cm_wf cm' \<longleftrightarrow> cm_wf cm"
    unfolding cm_wf_def using assms(1-4) tc cl by simp
  with cl tk show ?thesis by simp
qed

lemma with_found:
  fixes cm :: "('k, 'v, 'tag) context_map"
  assumes wf: "cm_wf cm" and fk: "find_key (cm_items cm) k = Some p"
    and w: "with_inner_fn tag k v f cm = (u, cm')"
  shows "cm_wf cm' \<and> (u, cm_abs cm') = with_spec (cm_abs cm) k v f \<and> tag_keys cm' = tag_keys cm"
proof -
  let ?items = "cm_items cm"
  have dp: "distinct (map fst ?items)" and dk: "distinct (map (it_key \<circ> snd) ?items)"
    using wf by (simp_all add: cm_wf_def)
  obtain it where mem: "(p, it) \<in> set ?items" and key: "it_key it = k"
    using find_key_Some [OF fk] by blast
  have mo: "map_of ?items p = Some it"
    using map_of_distinct_mem [OF dp mem] .
  obtain v' u' where fv: "f (it_value it) = (v', u')"
    by (cases "f (it_value it)")
  let ?h = "\<lambda>(q, z). if q = p then (q, it\<lparr>it_value := v'\<rparr>) else (q, z)"
  have pin: "p \<in> set (map fst ?items)"
    using mem by force
  have upd: "AList.update p (it\<lparr>it_value := v'\<rparr>) ?items = map ?h ?items"
    using update_present [OF dp pin] .
  have items': "cm_items cm' = map ?h ?items" and u: "u = u'"
      and rest: "cm' = cm\<lparr>cm_items := map ?h ?items\<rparr>"
    using w fk mo fv by (auto simp: with_inner_fn_def get_ptr_fn_def upd)
  have uniq: "fst x = p \<longleftrightarrow> it_key (snd x) = k" if x: "x \<in> set ?items" for x
  proof
    assume "fst x = p"
    then have "x = (p, it)" using distinct_map_eq [OF dp x mem] by simp
    then show "it_key (snd x) = k" using key by simp
  next
    assume "it_key (snd x) = k"
    then have "x = (p, it)" using distinct_map_eq [OF dk x mem] key by simp
    then show "fst x = p" by simp
  qed
  have c1: "map fst (cm_items cm') = map fst ?items"
    unfolding items' by (auto split: prod.splits)
  have c2: "map (it_key \<circ> snd) (cm_items cm') = map (it_key \<circ> snd) ?items"
    unfolding items' map_map
  proof (rule map_cong [OF refl])
    fix x
    assume x: "x \<in> set ?items"
    obtain q z where xq: "x = (q, z)" by (cases x)
    show "(it_key \<circ> snd \<circ> ?h) x = (it_key \<circ> snd) x"
      using uniq [OF x] key unfolding xq by simp
  qed
  have mo': "map_of (map ?h ?items) = (map_of ?items)(p \<mapsto> it\<lparr>it_value := v'\<rparr>)"
    unfolding upd [symmetric] by (rule update_conv')
  have c5: "next_of (map ?h ?items) q = next_of ?items q" for q
    unfolding next_of_def mo' using mo by simp
  have cong: "chain_list cm' = chain_list cm \<and> (cm_wf cm' \<longleftrightarrow> cm_wf cm) \<and> tag_keys cm' = tag_keys cm"
    by (rule cm_wf_cong [OF c1 c2]) (simp_all add: rest c5)
  let ?g = "\<lambda>(p, it). (it_key it, it_value it)"
  have "map ?g (cm_items cm') = map (\<lambda>y. if fst y = k then (k, v') else y) (map ?g ?items)"
    unfolding items' map_map
  proof (rule map_cong [OF refl])
    fix x
    assume x: "x \<in> set ?items"
    obtain q z where xq: "x = (q, z)" by (cases x)
    show "(?g \<circ> ?h) x = ((\<lambda>y. if fst y = k then (k, v') else y) \<circ> ?g) x"
      using uniq [OF x] key unfolding xq by auto
  qed
  also have "\<dots> = AList.update k v' (map ?g ?items)"
  proof -
    have e: "map fst (map ?g ?items) = map (it_key \<circ> snd) ?items"
      by (auto split: prod.splits)
    have dg: "distinct (map fst (map ?g ?items))"
      by (subst e) (rule dk)
    have kin: "k \<in> set (map fst (map ?g ?items))"
      using mem key by force
    show ?thesis
      unfolding update_present [OF dg kin] by (rule map_cong) (auto split: prod.splits)
  qed
  finally have "cm_abs cm' = (cm_abs cm)(k \<mapsto> v')"
    by (simp add: cm_abs_def update_conv')
  moreover have "cm_abs cm k = Some (it_value it)"
    using cm_abs_Some [OF dk] mem key by blast
  ultimately have "(u, cm_abs cm') = with_spec (cm_abs cm) k v f"
    by (simp add: with_spec_def fv u)
  with cong wf show ?thesis by simp
qed

lemma fresh_ptr:
  "cm_wf cm \<Longrightarrow> cm_next_ptr cm \<notin> set (map fst (cm_items cm))"
  unfolding cm_wf_def by blast

lemma with_insert_state:
  assumes wf: "cm_wf cm" and fk: "find_key (cm_items cm) k = None"
  shows "with_inner_fn tag k v f cm = (snd (f v), insert_state tag k (fst (f v)) cm)"
proof -
  let ?p = "cm_next_ptr cm"
  let ?it = "\<lparr>it_key = k, it_value = v, it_tag_next = map_of (cm_tag_chains cm) tag\<rparr>"
  have fr: "?p \<notin> set (map fst (cm_items cm))"
    using fresh_ptr [OF wf] .
  have mo: "map_of (cm_items cm @ [(?p, ?it)]) ?p = Some ?it"
    using map_of_append_fresh [OF fr] .
  obtain v' u' where fv: "f v = (v', u')" by (cases "f v")
  show ?thesis
    using fk fr mo fv
    by (simp add: with_inner_fn_def get_ptr_fn_def insert_state_def update_absent update_last Let_def)
qed

lemma chain_list_in:
  "set (chain_list cm t) \<subseteq> set (map fst (cm_items cm))"
proof (cases "map_of (cm_tag_chains cm) t")
  case (Some h)
  show ?thesis
  proof (cases "chain_ptrs (cm_items cm) (length (cm_items cm)) (Some h)")
    case (Some ps)
    with \<open>map_of (cm_tag_chains cm) t = Some h\<close> show ?thesis
      using chain_ptrs_in [OF Some] by (simp add: chain_list_def tag_chain_def)
  qed (simp add: chain_list_def tag_chain_def Some)
qed (simp add: chain_list_def tag_chain_def)

lemma chain_ptrs_length:
  "chain_ptrs items n x = Some ps \<Longrightarrow> length ps \<le> n"
proof (induction items n x arbitrary: ps rule: chain_ptrs.induct)
  case (3 items n p)
  from "3.prems" obtain it ps' where it: "map_of items p = Some it" and ps: "ps = p # ps'"
      and r: "chain_ptrs items n (it_tag_next it) = Some ps'"
    by (auto split: option.splits)
  with "3.IH" [OF it r] show ?case by simp
qed auto

lemma insert_state_next:
  assumes "q \<in> set (map fst (cm_items cm))"
  shows "next_of (cm_items (insert_state tag k v cm)) q = next_of (cm_items cm) q"
proof -
  obtain y where "map_of (cm_items cm) q = Some y"
    using assms by (cases "map_of (cm_items cm) q") (auto simp: map_of_eq_None_iff)
  then show ?thesis
    by (simp add: insert_state_def next_of_def map_add_def)
qed

lemma insert_state_chain:
  assumes wf: "cm_wf cm"
  shows "tag_chain (insert_state tag k v cm) t =
           Some (if t = tag then cm_next_ptr cm # chain_list cm t else chain_list cm t)"
proof -
  let ?cm' = "insert_state tag k v cm"
  let ?p = "cm_next_ptr cm"
  let ?n = "length (cm_items cm)"
  have len: "length (cm_items ?cm') = Suc ?n"
    by (simp add: insert_state_def)
  have fr: "?p \<notin> set (map fst (cm_items cm))"
    using fresh_ptr [OF wf] .
  have mp: "map_of (cm_items ?cm') ?p = Some \<lparr>it_key = k, it_value = v, it_tag_next = map_of (cm_tag_chains cm) tag\<rparr>"
    using map_of_append_fresh [OF fr] by (simp add: insert_state_def)
  have old: "chain_ptrs (cm_items ?cm') ?n (map_of (cm_tag_chains cm) t) = Some (chain_list cm t)" for t
  proof (cases "map_of (cm_tag_chains cm) t")
    case None
    then show ?thesis
      by (simp add: chain_list_def tag_chain_def)
  next
    case (Some h)
    then have t: "t \<in> set (map fst (cm_tag_chains cm))"
      using map_of_SomeD [OF Some] by force
    from tag_chain_wf [OF wf t] Some
    have r: "chain_ptrs (cm_items cm) ?n (Some h) = Some (chain_list cm t)"
      by (simp add: tag_chain_def)
    have "\<forall>q \<in> set (chain_list cm t). next_of (cm_items ?cm') q = next_of (cm_items cm) q"
      using insert_state_next [of _ cm tag k v] chain_list_in [of cm t] by blast
    from chain_ptrs_cong [OF r this] Some show ?thesis by simp
  qed
  show ?thesis
  proof (cases "t = tag")
    case True
    then show ?thesis
      using old [of tag] mp len by (simp add: tag_chain_def insert_state_def update_conv')
  next
    case False
    have "chain_ptrs (cm_items ?cm') (Suc ?n) (map_of (cm_tag_chains cm) t) = Some (chain_list cm t)"
      using chain_ptrs_fuel [OF old [of t]] chain_ptrs_length [OF old [of t]] by simp
    with False len show ?thesis
      by (cases "map_of (cm_tag_chains cm) t")
         (simp_all add: tag_chain_def insert_state_def update_conv' chain_list_def)
  qed
qed

lemma insert_state_chain_list:
  "cm_wf cm \<Longrightarrow> chain_list (insert_state tag k v cm) t =
     (if t = tag then cm_next_ptr cm # chain_list cm t else chain_list cm t)"
  using insert_state_chain [of cm tag k v t] by (simp add: chain_list_def)

lemma insert_state_tags:
  "set (map fst (cm_tag_chains (insert_state tag k v cm))) = insert tag (set (map fst (cm_tag_chains cm)))"
  by (auto simp: insert_state_def update_keys)

lemma insert_state_wf:
  assumes wf: "cm_wf cm" and kn: "k \<notin> set (map (it_key \<circ> snd) (cm_items cm))"
  shows "cm_wf (insert_state tag k v cm)"
proof -
  let ?cm' = "insert_state tag k v cm"
  let ?p = "cm_next_ptr cm"
  let ?T = "set (map fst (cm_tag_chains cm))"
  have cl: "chain_list ?cm' t = (if t = tag then ?p # chain_list cm t else chain_list cm t)" for t
    using insert_state_chain_list [OF wf] .
  have tags: "set (map fst (cm_tag_chains ?cm')) = insert tag ?T"
    by (rule insert_state_tags)
  have fr: "?p \<notin> set (map fst (cm_items cm))"
    using fresh_ptr [OF wf] .
  have frc: "?p \<notin> set (chain_list cm t)" for t
    using fr chain_list_in [of cm t] by blast
  have w: "distinct (map fst (cm_items cm))" "distinct (map (it_key \<circ> snd) (cm_items cm))"
      "\<forall>p \<in> set (map fst (cm_items cm)). p < ?p" "distinct (map fst (cm_tag_chains cm))"
      "\<forall>t1 \<in> ?T. \<forall>t2 \<in> ?T. t1 \<noteq> t2 \<longrightarrow> set (chain_list cm t1) \<inter> set (chain_list cm t2) = {}"
      "\<forall>p \<in> set (map fst (cm_items cm)). \<exists>t \<in> ?T. p \<in> set (chain_list cm t)"
    using wf unfolding cm_wf_def by blast+
  have dist: "distinct (chain_list cm t)" for t
    using tag_chain_wf [OF wf] tag_chain_absent [of t cm] by (cases "t \<in> ?T") auto
  have disj: "t1 \<noteq> t2 \<Longrightarrow> set (chain_list cm t1) \<inter> set (chain_list cm t2) = {}" for t1 t2
    using w(5) tag_chain_absent [of t1 cm] tag_chain_absent [of t2 cm]
    by (cases "t1 \<in> ?T"; cases "t2 \<in> ?T") auto
  have c1: "distinct (map fst (cm_items ?cm'))"
    using w(1) fr by (simp add: insert_state_def)
  have c2: "distinct (map (it_key \<circ> snd) (cm_items ?cm'))"
    using w(2) kn by (simp add: insert_state_def)
  have c3: "\<forall>p \<in> set (map fst (cm_items ?cm')). p < cm_next_ptr ?cm'"
    using w(3) by (auto simp: insert_state_def)
  have c4: "distinct (map fst (cm_tag_chains ?cm'))"
    using w(4) by (simp add: insert_state_def distinct_update)
  have c5: "\<forall>t \<in> set (map fst (cm_tag_chains ?cm')).
              case tag_chain ?cm' t of None \<Rightarrow> False | Some ps \<Rightarrow> distinct ps"
    using insert_state_chain [OF wf] dist frc by simp
  have c6: "\<forall>t1 \<in> set (map fst (cm_tag_chains ?cm')). \<forall>t2 \<in> set (map fst (cm_tag_chains ?cm')).
              t1 \<noteq> t2 \<longrightarrow> set (chain_list ?cm' t1) \<inter> set (chain_list ?cm' t2) = {}"
    unfolding cl using disj frc by auto
  have c7: "\<forall>p \<in> set (map fst (cm_items ?cm')). \<exists>t \<in> set (map fst (cm_tag_chains ?cm')).
              p \<in> set (chain_list ?cm' t)"
  proof
    fix q
    assume "q \<in> set (map fst (cm_items ?cm'))"
    then have "q = ?p \<or> q \<in> set (map fst (cm_items cm))"
      by (auto simp: insert_state_def)
    then show "\<exists>t \<in> set (map fst (cm_tag_chains ?cm')). q \<in> set (chain_list ?cm' t)"
    proof
      assume "q = ?p"
      then show ?thesis unfolding tags cl by auto
    next
      assume "q \<in> set (map fst (cm_items cm))"
      then obtain t where "t \<in> ?T" "q \<in> set (chain_list cm t)"
        using w(6) by blast
      then show ?thesis unfolding tags cl by (cases "t = tag") auto
    qed
  qed
  show ?thesis
    unfolding cm_wf_def using c1 c2 c3 c4 c5 c6 c7 by blast
qed

lemma insert_state_abs:
  assumes "k \<notin> set (map (it_key \<circ> snd) (cm_items cm))"
  shows "cm_abs (insert_state tag k v cm) = (cm_abs cm)(k \<mapsto> v)"
proof -
  have "cm_abs cm k = None"
    using assms by (force simp: cm_abs_def map_of_eq_None_iff)
  then show ?thesis
    by (auto simp: cm_abs_def insert_state_def map_add_def fun_eq_iff split: option.splits)
qed

lemma insert_state_tag_keys:
  assumes wf: "cm_wf cm"
  shows "tag_keys (insert_state tag k v cm) t = (if t = tag then insert k (tag_keys cm t) else tag_keys cm t)"
proof -
  have fr: "cm_next_ptr cm \<notin> set (chain_list cm t)" for t
    using fresh_ptr [OF wf] chain_list_in [of cm t] by blast
  have items: "cm_items (insert_state tag k v cm) = cm_items cm @
      [(cm_next_ptr cm, \<lparr>it_key = k, it_value = v, it_tag_next = map_of (cm_tag_chains cm) tag\<rparr>)]"
    by (simp add: insert_state_def)
  show ?thesis
    unfolding tag_keys_def insert_state_chain_list [OF wf] items using fr fresh_ptr [OF wf] by force
qed

lemma find_key_abs:
  "cm_wf cm \<Longrightarrow> find_key (cm_items cm) k = None \<longleftrightarrow> cm_abs cm k = None"
  by (force simp: find_key_None cm_abs_def map_of_eq_None_iff)

lemma with_inner_fn_correct:
  assumes wf: "cm_wf cm" and w: "with_inner_fn tag k v f cm = (u, cm')"
  shows "cm_wf cm' \<and> (u, cm_abs cm') = with_spec (cm_abs cm) k v f \<and>
         tag_keys cm' = (if cm_abs cm k = None then (tag_keys cm)(tag := insert k (tag_keys cm tag)) else tag_keys cm)"
proof (cases "find_key (cm_items cm) k")
  case None
  have kn: "k \<notin> set (map (it_key \<circ> snd) (cm_items cm))"
    using None find_key_None [of "cm_items cm" k] by simp
  have ab: "cm_abs cm k = None"
    using None find_key_abs [OF wf] by simp
  from w have cm': "cm' = insert_state tag k (fst (f v)) cm" and u: "u = snd (f v)"
    unfolding with_insert_state [OF wf None] by simp_all
  have "cm_abs cm' = (cm_abs cm)(k \<mapsto> fst (f v))"
    unfolding cm' by (rule insert_state_abs [OF kn])
  moreover have "tag_keys cm' = (tag_keys cm)(tag := insert k (tag_keys cm tag))"
    unfolding cm' using insert_state_tag_keys [OF wf] by (simp add: fun_eq_iff)
  moreover have "cm_wf cm'"
    unfolding cm' by (rule insert_state_wf [OF wf kn])
  ultimately show ?thesis
    using ab u by (simp add: with_spec_def split_beta)
next
  case (Some p)
  then have "cm_abs cm k \<noteq> None"
    using find_key_abs [OF wf, of k] by simp
  with with_found [OF wf Some w] show ?thesis by auto
qed

lemma shutdown_tag_correct:
  assumes wf: "cm_wf cm"
  shows "shutdown_tag t cm = Inr (shutdown_state t cm, chain_list cm t) \<and> distinct (chain_list cm t) \<and>
         cm_wf (shutdown_state t cm) \<and>
         cm_abs (shutdown_state t cm) = (\<lambda>k. if k \<in> tag_keys cm t then None else cm_abs cm k) \<and>
         (\<forall>t'. tag_keys (shutdown_state t cm) t' = (if t' = t then {} else tag_keys cm t'))"
proof -
  have "distinct (chain_list cm t)"
    using tag_chain_wf [OF wf] tag_chain_absent [of t cm] by (cases "t \<in> set (map fst (cm_tag_chains cm))") auto
  then show ?thesis
    using shutdown_tag_eq [OF wf, of t] shutdown_state_wf [OF wf] shutdown_state_abs [OF wf]
          shutdown_state_tag_keys [OF wf]
    by (simp add: shutdown_state_def)
qed

lemma shutdown_dropped:
  assumes wf: "cm_wf cm"
  shows "set (chain_list cm t) = {p. \<exists>it. (p, it) \<in> set (cm_items cm) \<and> it_key it \<in> tag_keys cm t}"
proof -
  have dk: "distinct (map (it_key \<circ> snd) (cm_items cm))" and dp: "distinct (map fst (cm_items cm))"
    using wf by (simp_all add: cm_wf_def)
  show ?thesis
  proof (intro set_eqI iffI)
    fix p
    assume p: "p \<in> set (chain_list cm t)"
    then obtain it where "(p, it) \<in> set (cm_items cm)"
      using chain_list_in [of cm t] by force
    with p show "p \<in> {p. \<exists>it. (p, it) \<in> set (cm_items cm) \<and> it_key it \<in> tag_keys cm t}"
      by (auto simp: tag_keys_iff)
  next
    fix p
    assume "p \<in> {p. \<exists>it. (p, it) \<in> set (cm_items cm) \<and> it_key it \<in> tag_keys cm t}"
    then obtain it p' it' where m: "(p, it) \<in> set (cm_items cm)" and m': "(p', it') \<in> set (cm_items cm)"
        and p': "p' \<in> set (chain_list cm t)" and k: "it_key it' = it_key it"
      by (auto simp: tag_keys_iff)
    have "(p, it) = (p', it')"
      using distinct_map_eq [OF dk m m'] k by simp
    with p' show "p \<in> set (chain_list cm t)" by simp
  qed
qed

section \<open>Properties\<close>

lemma new_inner_wf: "cm_wf new_inner"
  by (simp add: cm_wf_def new_inner_def chain_list_def tag_chain_def)

text \<open>
  Claim C4. \<open>with\<close> refines a plain find-or-insert on a partial map: on a well-formed
  context map, it returns what the closure returns on the existing value, or on the freshly
  constructed one, stores the closure's new value under the key, and keeps the map well formed.
\<close>

theorem with_refines:
  "cm_wf cm \<Longrightarrow> with_inner_fn tag k v f cm = (u, cm') \<Longrightarrow>
     cm_wf cm' \<and> (u, cm_abs cm') = with_spec (cm_abs cm) k v f"
  by (metis with_inner_fn_correct)

text \<open>
  Claim C5. \<open>shutdown_tag\<close> on a well-formed context map never hits its
  \<open>missing item\<close> panic, drops every item created under the tag exactly once and nothing
  else, leaves the other entries as they were, and leaves a well-formed map in which the tag
  owns nothing.
\<close>

theorem shutdown_tag_refines:
  "cm_wf cm \<Longrightarrow>
     (case shutdown_tag t cm of
        Inl e \<Rightarrow> False
      | Inr (cm', ds) \<Rightarrow>
          cm_wf cm' \<and> cm_abs cm' = (\<lambda>k. if k \<in> tag_keys cm t then None else cm_abs cm k) \<and>
          tag_keys cm' t = {} \<and> distinct ds \<and>
          set ds = {p. \<exists>it. (p, it) \<in> set (cm_items cm) \<and> it_key it \<in> tag_keys cm t})"
  using shutdown_tag_correct [of cm t] shutdown_dropped [of cm t] by simp

text \<open>
  An entry belongs to the tag it was created under: \<open>with\<close> under a tag adds
  the key to that tag only when it creates the entry; using an existing key under another tag
  does not move it.
\<close>

theorem with_tag_of_creation:
  "cm_wf cm \<Longrightarrow> with_inner_fn tag k v f cm = (u, cm') \<Longrightarrow>
     tag_keys cm' t = (if t = tag \<and> cm_abs cm k = None then insert k (tag_keys cm t) else tag_keys cm t)"
  using with_inner_fn_correct [of cm tag k v f u cm'] by auto

text \<open>
  After \<open>shutdown_tag t\<close>, a \<open>with\<close> under \<open>t\<close> on a key that was created
  under \<open>t\<close> constructs the value afresh.
\<close>

theorem with_after_shutdown_fresh:
  "cm_wf cm \<Longrightarrow> shutdown_tag t cm = Inr (cm', ds) \<Longrightarrow> k \<in> tag_keys cm t \<Longrightarrow>
     with_inner_fn t k v f cm' = (u, cm'') \<Longrightarrow> u = snd (f v) \<and> cm_abs cm'' k = Some (fst (f v))"
proof -
  assume wf: "cm_wf cm" and s: "shutdown_tag t cm = Inr (cm', ds)" and k: "k \<in> tag_keys cm t"
    and w: "with_inner_fn t k v f cm' = (u, cm'')"
  from shutdown_tag_correct [OF wf, of t] s have wf': "cm_wf cm'" and none: "cm_abs cm' k = None"
    using k by auto
  from with_inner_fn_correct [OF wf' w] none show ?thesis
    by (simp add: with_spec_def split_beta)
qed

text \<open>
  The unit test \<open>test_context_map\<close> holds of the model: after the six calls the
  values are 15, 27 and 19, and after shutting down \<open>Role(0)\<close> and then \<open>Role(1)\<close>
  the entries read back as freshly constructed (10, 10 and 20).
\<close>

theorem context_map_unit_test:
  "test_read (Role 0) (''Foo'', ''foo'') test_cx = 15 \<and>
   test_read (Role 1) (''Bar'', ''2'') test_cx = 27 \<and>
   test_read (Role 1) (''Foo'', ''baz'') test_cx = 19 \<and>
   test_read (Role 0) (''Foo'', ''foo'') (after_shutdown (Role 0) test_cx) = 10 \<and>
   test_read (Role 1) (''Foo'', ''baz'') (after_shutdown (Role 1) (after_shutdown (Role 0) test_cx)) = 10 \<and>
   test_read (Role 1) (''Bar'', ''2'') (after_shutdown (Role 1) (after_shutdown (Role 0) test_cx)) = 20"
  by code_simp

text \<open>
  An entry created under \<open>Role(0)\<close> and updated under \<open>Role(1)\<close> survives
  \<open>shutdown_tag(Role(1))\<close>, which drops nothing: a later \<open>with\<close> under \<open>Role(1)\<close>
  sees the old value 15 instead of a fresh 10.
\<close>

theorem shared_key_survives_shutdown:
  "shutdown_tag (Role 1) shared_cx = Inr (shared_cx, []) \<and>
   test_read (Role 1) (''Foo'', ''foo'') (after_shutdown (Role 1) shared_cx) = 15"
  by code_simp

section \<open>Witnesses\<close>

theorem with_refines_witness:
  "cm_wf test_cx \<and> cm_wf (snd (with_inner_fn (Role 2) (''Foo'', ''qux'') 3 (\<lambda>x. (x + 1, x)) test_cx)) \<and>
   (fst (with_inner_fn (Role 2) (''Foo'', ''qux'') 3 (\<lambda>x. (x + 1, x)) test_cx),
    cm_abs (snd (with_inner_fn (Role 2) (''Foo'', ''qux'') 3 (\<lambda>x. (x + 1, x)) test_cx)))
   = with_spec (cm_abs test_cx) (''Foo'', ''qux'') 3 (\<lambda>x. (x + 1, x))"
proof -
  have wf: "cm_wf test_cx" by code_simp
  show ?thesis
    using with_refines [OF wf, of "Role 2" "(''Foo'', ''qux'')" 3 "\<lambda>x. (x + 1, x)"
        "fst (with_inner_fn (Role 2) (''Foo'', ''qux'') 3 (\<lambda>x. (x + 1, x)) test_cx)"
        "snd (with_inner_fn (Role 2) (''Foo'', ''qux'') 3 (\<lambda>x. (x + 1, x)) test_cx)"] wf
    by simp
qed

theorem shutdown_tag_refines_witness:
  "cm_wf test_cx \<and>
   (case shutdown_tag (Role 1) test_cx of
      Inl e \<Rightarrow> False
    | Inr (cm', ds) \<Rightarrow>
        cm_wf cm' \<and> cm_abs cm' = (\<lambda>k. if k \<in> tag_keys test_cx (Role 1) then None else cm_abs test_cx k) \<and>
        tag_keys cm' (Role 1) = {} \<and> distinct ds \<and>
        set ds = {p. \<exists>it. (p, it) \<in> set (cm_items test_cx) \<and> it_key it \<in> tag_keys test_cx (Role 1)})"
proof -
  have wf: "cm_wf test_cx" by code_simp
  with shutdown_tag_refines [OF wf, of "Role 1"] show ?thesis by simp
qed

theorem with_tag_of_creation_witness:
  "cm_wf test_cx \<and>
   tag_keys (snd (with_inner_fn (Role 0) (''Foo'', ''baz'') 10 (\<lambda>x. (x, ())) test_cx)) (Role 0) =
     tag_keys test_cx (Role 0)"
proof -
  have wf: "cm_wf test_cx" by code_simp
  have some: "cm_abs test_cx (''Foo'', ''baz'') \<noteq> None" by code_simp
  obtain u cm' where w: "with_inner_fn (Role 0) (''Foo'', ''baz'') 10 (\<lambda>x. (x, ())) test_cx = (u, cm')"
    by (cases "with_inner_fn (Role 0) (''Foo'', ''baz'') 10 (\<lambda>x. (x, ())) test_cx")
  show ?thesis
    using with_tag_of_creation [OF wf w, of "Role 0"] wf some w by simp
qed

theorem with_after_shutdown_fresh_witness:
  "cm_wf test_cx \<and> (''Foo'', ''foo'') \<in> tag_keys test_cx (Role 0) \<and>
   fst (with_inner_fn (Role 0) (''Foo'', ''foo'') 10 (\<lambda>x. (x + 1, x)) (after_shutdown (Role 0) test_cx)) = 10"
proof -
  have wf: "cm_wf test_cx" by code_simp
  have k: "(''Foo'', ''foo'') \<in> tag_keys test_cx (Role 0)" by code_simp
  obtain cm' ds where s: "shutdown_tag (Role 0) test_cx = Inr (cm', ds)"
    using shutdown_tag_refines [OF wf, of "Role 0"] by (auto split: sum.splits)
  have "fst (with_inner_fn (Role 0) (''Foo'', ''foo'') 10 (\<lambda>x. (x + 1, x)) cm') = snd ((\<lambda>x. (x + 1, x)) 10)"
    using with_after_shutdown_fresh [OF wf s k, of 10 "\<lambda>x. (x + 1, x)"
        "fst (with_inner_fn (Role 0) (''Foo'', ''foo'') 10 (\<lambda>x. (x + 1, x)) cm')"
        "snd (with_inner_fn (Role 0) (''Foo'', ''foo'') 10 (\<lambda>x. (x + 1, x)) cm')"] by simp
  with wf k s show ?thesis by (simp add: after_shutdown_def)
qed


end
