(* ===== verification/FlushBatcher.thy ===== *)
theory FlushBatcher
  imports Prelude
begin

text \<open>
  The flush batcher of \<open>crates/modrpc/src/flush_batcher.rs\<close>, the per-worker flush
  task that \<open>Runtime::add_transport\<close> spawns (\<open>rt.rs\<close>), and the flush decision that
  \<open>PacketSender::send_raw\<close> takes after each packet (\<open>packet_sender.rs\<close>). Times and
  durations are natural numbers of nanoseconds; \<open>Instant::checked_add\<close> fails past
  \<open>instant_max\<close>, the largest \<open>Instant\<close> of a Unix \<open>timespec\<close> (an \<open>i64\<close> of
  seconds). The \<open>Option<Waker>\<close> cell is a flag saying whether a waker is registered;
  \<open>schedule_flush\<close> reports whether it woke one. The native (not \<open>wasm32\<close>) branch is
  modelled.
\<close>

datatype next_flush_time = NFInstant nat | NFImmediate

record flush_batcher =
  max_flush_delay :: nat
  next_flush_time :: "next_flush_time option"
  waker :: bool

datatype flush_batcher_status = Snooze nat | FlushNow | DoNotFlush

definition instant_max :: nat where
  "instant_max = (2 ^ 63 - 1) * 1000000000 + 999999999"

definition checked_add :: "nat \<Rightarrow> nat \<Rightarrow> nat option" where
  "checked_add t d = (if t + d \<le> instant_max then Some (t + d) else None)"

definition new_flush_batcher :: "nat \<Rightarrow> flush_batcher" where
  "new_flush_batcher d = \<lparr>max_flush_delay = d, next_flush_time = None, waker = False\<rparr>"

text \<open>\<open>schedule_flush\<close>: keep a pending deadline; otherwise set one and wake the flush task.\<close>

definition schedule_flush :: "nat \<Rightarrow> flush_batcher \<Rightarrow> flush_batcher \<times> bool" where
  "schedule_flush now fb =
     (if next_flush_time fb \<noteq> None then (fb, False)
      else
        (let nft = (if max_flush_delay fb = 0 then Some NFImmediate
                    else map_option NFInstant (checked_add now (max_flush_delay fb)))
         in (fb\<lparr>next_flush_time := nft, waker := False\<rparr>, waker fb)))"

definition cancel_flush :: "flush_batcher \<Rightarrow> flush_batcher" where
  "cancel_flush fb = fb\<lparr>next_flush_time := None\<rparr>"

definition handle_flush :: "nat \<Rightarrow> flush_batcher \<Rightarrow> flush_batcher_status \<times> flush_batcher" where
  "handle_flush now fb =
     (case next_flush_time fb of
        None \<Rightarrow> (DoNotFlush, fb)
      | Some NFImmediate \<Rightarrow> (FlushNow, fb\<lparr>next_flush_time := None\<rparr>)
      | Some (NFInstant t) \<Rightarrow>
          if t \<le> now then (FlushNow, fb\<lparr>next_flush_time := None\<rparr>)
          else (Snooze (t - now), fb))"

text \<open>\<open>FlushBatcherWait::poll\<close>: ready when a deadline is set, else register the waker.\<close>

definition wait_poll :: "flush_batcher \<Rightarrow> bool \<times> flush_batcher" where
  "wait_poll fb =
     (if next_flush_time fb \<noteq> None then (True, fb) else (False, fb\<lparr>waker := True\<rparr>))"

text \<open>
  The inner loop of the flush task in \<open>Runtime::add_transport\<close>: ask the batcher, sleep for
  the snooze (waking \<open>late\<close> nanoseconds after the requested time), flush on
  \<open>FlushNow\<close>, give up on \<open>DoNotFlush\<close>. The result says whether it flushed, at
  what time it stopped, and the batcher it left.
\<close>

fun snooze_left :: "nat \<Rightarrow> flush_batcher \<Rightarrow> nat" where
  "snooze_left now fb = (case next_flush_time fb of Some (NFInstant t) \<Rightarrow> t - now | _ \<Rightarrow> 0)"

function flush_loop :: "nat \<Rightarrow> nat \<Rightarrow> flush_batcher \<Rightarrow> bool \<times> nat \<times> flush_batcher" where
  "flush_loop late now fb =
     (case handle_flush now fb of
        (Snooze d, fb') \<Rightarrow> flush_loop late (now + d + late) fb'
      | (FlushNow, fb') \<Rightarrow> (True, now, fb')
      | (DoNotFlush, fb') \<Rightarrow> (False, now, fb'))"
  by pat_completeness auto
termination
  by (relation "measure (\<lambda>(late, now, fb). snooze_left now fb)")
     (auto simp: handle_flush_def split: option.splits next_flush_time.splits if_splits)

declare flush_loop.simps [simp del]

text \<open>
  \<open>send_raw\<close> after dispatching a packet: past the high-water mark of 32000 unflushed
  bytes the channel is flushed at once and the pending deadline cancelled; otherwise a flush
  is scheduled. The boolean says whether the channel was flushed.
\<close>

text \<open>\<open>Duration::MAX\<close> in nanoseconds.\<close>

definition duration_max :: nat where
  "duration_max = (2 ^ 64 - 1) * 1000000000 + 999999999"

definition flush_high_water :: nat where
  "flush_high_water = 32000"

definition send_flush_decision :: "nat \<Rightarrow> nat \<Rightarrow> flush_batcher \<Rightarrow> bool \<times> flush_batcher" where
  "send_flush_decision unflushed now fb =
     (if flush_high_water \<le> unflushed then (True, cancel_flush fb)
      else (False, fst (schedule_flush now fb)))"

section \<open>Properties\<close>

lemma flush_loop_instant:
  assumes "next_flush_time fb = Some (NFInstant t)"
  shows "flush_loop late now fb =
           (True, if t \<le> now then now else t + late, fb\<lparr>next_flush_time := None\<rparr>)"
proof (cases "t \<le> now")
  case True
  with assms show ?thesis
    by (subst flush_loop.simps) (simp add: handle_flush_def)
next
  case False
  with assms have "flush_loop late now fb = flush_loop late (t + late) fb"
    by (subst flush_loop.simps) (simp add: handle_flush_def)
  also have "\<dots> = (True, t + late, fb\<lparr>next_flush_time := None\<rparr>)"
    using assms by (subst flush_loop.simps) (simp add: handle_flush_def)
  finally show ?thesis using False by simp
qed

text \<open>
  Claim C11. Once a packet schedules a flush on an idle batcher whose delay does not overflow, the
  flush task flushes: at the deadline \<open>now + max_flush_delay\<close> (plus the sleeper's lateness)
  or at once if it runs after the deadline, and it leaves the batcher idle.
\<close>

theorem flush_after_schedule:
  assumes "next_flush_time fb = None" and "0 < max_flush_delay fb"
    and "now + max_flush_delay fb \<le> instant_max"
  shows "flush_loop late now' (fst (schedule_flush now fb)) =
           (True, if now + max_flush_delay fb \<le> now' then now' else now + max_flush_delay fb + late,
            fb\<lparr>waker := False\<rparr>)"
  using assms flush_loop_instant [of "fst (schedule_flush now fb)" "now + max_flush_delay fb" late now']
  by (simp add: schedule_flush_def checked_add_def)

text \<open>
  Claim C35. No lost wake-up: if the flush task found nothing to do and parked its waker, the next
  \<open>schedule_flush\<close> wakes it, and the task then finds a deadline unless the delay
  overflows \<open>Instant\<close>.
\<close>

theorem no_lost_wakeup:
  assumes "wait_poll fb = (False, fb1)" and "schedule_flush now fb1 = (fb2, woke)"
  shows "woke \<and> (fst (wait_poll fb2) \<longleftrightarrow> max_flush_delay fb = 0 \<or> now + max_flush_delay fb \<le> instant_max)"
  using assms
  by (auto simp: wait_poll_def schedule_flush_def checked_add_def split: if_splits)

text \<open>
  With \<open>max_flush_delay = Duration::MAX\<close>, \<open>Instant::checked_add\<close> fails, so
  \<open>schedule_flush\<close> sets no deadline: the flush task is woken but sees
  \<open>DoNotFlush\<close> and parks again, and buffered packets are never flushed by the timer.
\<close>

theorem overflow_never_flushes:
  "next_flush_time (fst (schedule_flush now (new_flush_batcher duration_max))) = None \<and>
   fst (handle_flush t (fst (schedule_flush now (new_flush_batcher duration_max)))) = DoNotFlush \<and>
   \<not> fst (wait_poll (fst (schedule_flush now (new_flush_batcher duration_max))))"
proof -
  have "instant_max < now + duration_max"
    by (simp add: instant_max_def duration_max_def)
  then show ?thesis
    by (simp add: schedule_flush_def new_flush_batcher_def checked_add_def handle_flush_def
                  wait_poll_def duration_max_def)
qed

text \<open>
  After every packet \<open>send_raw\<close> either flushes the channel (exactly when 32000 or more
  bytes are unflushed, cancelling the deadline) or leaves a flush pending, unless the delay
  overflows \<open>Instant\<close>.
\<close>

theorem send_flush_decision_pending:
  assumes "send_flush_decision unflushed now fb = (flushed, fb')"
  shows "(flushed \<longleftrightarrow> flush_high_water \<le> unflushed) \<and>
         (flushed \<longrightarrow> next_flush_time fb' = None) \<and>
         (\<not> flushed \<longrightarrow> next_flush_time fb' \<noteq> None \<or> instant_max < now + max_flush_delay fb)"
  using assms
  by (auto simp: send_flush_decision_def cancel_flush_def schedule_flush_def checked_add_def Let_def
           split: if_splits)

text \<open>
  \<open>handle_flush\<close> asks to snooze only for a positive duration that ends exactly at the
  pending deadline, and does not change the batcher.
\<close>

theorem snooze_bounds:
  assumes "handle_flush now fb = (Snooze d, fb')"
  shows "0 < d \<and> fb' = fb \<and> next_flush_time fb = Some (NFInstant (now + d))"
  using assms
  by (auto simp: handle_flush_def split: option.splits next_flush_time.splits if_splits)

section \<open>Witnesses\<close>

theorem flush_after_schedule_witness:
  "next_flush_time (new_flush_batcher 1000000) = None \<and> 0 < max_flush_delay (new_flush_batcher 1000000) \<and>
   5 + max_flush_delay (new_flush_batcher 1000000) \<le> instant_max \<and>
   flush_loop 7 9 (fst (schedule_flush 5 (new_flush_batcher 1000000))) =
     (True, 1000012, \<lparr>max_flush_delay = 1000000, next_flush_time = None, waker = False\<rparr>)"
proof -
  have h: "next_flush_time (new_flush_batcher 1000000) = None" "0 < max_flush_delay (new_flush_batcher 1000000)"
    "5 + max_flush_delay (new_flush_batcher 1000000) \<le> instant_max"
    by (simp_all add: new_flush_batcher_def instant_max_def)
  show ?thesis
    using flush_after_schedule [OF h, of 7 9] h by (simp add: new_flush_batcher_def)
qed

theorem no_lost_wakeup_witness:
  "wait_poll (new_flush_batcher 1000000) = (False, (new_flush_batcher 1000000)\<lparr>waker := True\<rparr>) \<and>
   schedule_flush 5 ((new_flush_batcher 1000000)\<lparr>waker := True\<rparr>) =
     (\<lparr>max_flush_delay = 1000000, next_flush_time = Some (NFInstant 1000005), waker = False\<rparr>, True) \<and>
   fst (wait_poll \<lparr>max_flush_delay = 1000000, next_flush_time = Some (NFInstant 1000005), waker = False\<rparr>)"
proof -
  have a: "wait_poll (new_flush_batcher 1000000) = (False, (new_flush_batcher 1000000)\<lparr>waker := True\<rparr>)"
    by (simp add: wait_poll_def new_flush_batcher_def)
  have b: "schedule_flush 5 ((new_flush_batcher 1000000)\<lparr>waker := True\<rparr>) =
     (\<lparr>max_flush_delay = 1000000, next_flush_time = Some (NFInstant 1000005), waker = False\<rparr>, True)"
    by (simp add: schedule_flush_def new_flush_batcher_def checked_add_def instant_max_def)
  show ?thesis
    using no_lost_wakeup [OF a b] a b by (simp add: new_flush_batcher_def instant_max_def)
qed

theorem send_flush_decision_pending_witness:
  "send_flush_decision 100 5 (new_flush_batcher 1000000) =
     (False, \<lparr>max_flush_delay = 1000000, next_flush_time = Some (NFInstant 1000005), waker = False\<rparr>) \<and>
   next_flush_time \<lparr>max_flush_delay = 1000000, next_flush_time = Some (NFInstant 1000005), waker = False\<rparr> \<noteq> None"
proof -
  have a: "send_flush_decision 100 5 (new_flush_batcher 1000000) =
     (False, \<lparr>max_flush_delay = 1000000, next_flush_time = Some (NFInstant 1000005), waker = False\<rparr>)"
    by (simp add: send_flush_decision_def flush_high_water_def schedule_flush_def new_flush_batcher_def
                  checked_add_def instant_max_def)
  show ?thesis
    using send_flush_decision_pending [OF a] a by (simp add: new_flush_batcher_def instant_max_def)
qed

theorem snooze_bounds_witness:
  "handle_flush 5 \<lparr>max_flush_delay = 100, next_flush_time = Some (NFInstant 100), waker = False\<rparr> =
     (Snooze 95, \<lparr>max_flush_delay = 100, next_flush_time = Some (NFInstant 100), waker = False\<rparr>) \<and> (0::nat) < 95"
proof -
  have a: "handle_flush 5 \<lparr>max_flush_delay = 100, next_flush_time = Some (NFInstant 100), waker = False\<rparr> =
     (Snooze 95, \<lparr>max_flush_delay = 100, next_flush_time = Some (NFInstant 100), waker = False\<rparr>)"
    by (simp add: handle_flush_def)
  show ?thesis
    using snooze_bounds [OF a] a by simp
qed

end
