(* ===== verification/Proto.thy ===== *)
theory Proto
  imports Prelude
begin

text \<open>
  The generated message types of \<open>std-modrpc/rust/src/proto.rs\<close>: the wrappers that the
  standard roles put in a packet's payload (\<open>Request\<close>, \<open>Response\<close>,
  \<open>StreamItem\<close>, \<open>MultiStreamItem\<close>, property updates) and the empty configuration
  and state structs. Each struct \<open>S\<close> has, as in the generated code, an owned record with
  its \<open>Encode\<close> and \<open>Decode\<close>, a \<open>SGen\<close> record for encoding from borrowed parts,
  and a lazy view \<open>SLazy\<close>. A lazy view is the buffer from its offset on (the
  \<open>(buffer, offset)\<close> pair read at \<open>offset\<close>); its accessors decode one field at the
  field's fixed offset, its \<open>Decode\<close> only advances the cursor by \<open>BASE_LEN\<close> without
  checking, its \<open>Encode\<close> and \<open>PartialEq\<close> \<open>unwrap\<close> every field (a panic is the
  \<open>Inl\<close> branch) and \<open>TryFrom\<close> decodes eagerly.

  A generic payload \<open>T\<close> is passed as its codec: \<open>encT\<close>/\<open>decT\<close> for \<open>T\<close>, and
  \<open>decLT\<close>/\<open>encLT\<close> for \<open>T::Lazy\<close>. Fields are laid out one after the other in
  declaration order, with the payload last; this is the base layout of \<open>mproto\<close>, and it is
  the whole encoding for payloads without variable-length parts (their scratch area is not
  modelled).
\<close>

datatype proto_error = UnwrapPanic

text \<open>Writing the fields of a lazy view in order: the first failed \<open>unwrap\<close> panics.\<close>

fun concat_results :: "(proto_error + bytes) list \<Rightarrow> proto_error + bytes" where
  "concat_results [] = Inr []"
| "concat_results (Inl e # rs) = Inl e"
| "concat_results (Inr b # rs) = (case concat_results rs of Inl e \<Rightarrow> Inl e | Inr bs \<Rightarrow> Inr (b @ bs))"

subsection \<open>\<open>PropertyUpdate\<close>\<close>

record 't property_update =
  pu_new_value :: "'t"

record 'p property_update_gen =
  pug_new_value :: "'p"

definition property_update_base_len :: "nat \<Rightarrow> nat" where
  "property_update_base_len tb = tb"

definition encode_property_update_gen :: "('p \<Rightarrow> bytes) \<Rightarrow> 'p property_update_gen \<Rightarrow> bytes" where
  "encode_property_update_gen encP g = encP (pug_new_value g)"

definition encode_property_update :: "('t \<Rightarrow> bytes) \<Rightarrow> 't property_update \<Rightarrow> bytes" where
  "encode_property_update encT x = encT (pu_new_value x)"

definition decode_property_update :: "(bytes \<Rightarrow> ('t \<times> bytes) option) \<Rightarrow> bytes \<Rightarrow> ('t property_update \<times> bytes) option" where
  "decode_property_update decT bs = do {
     (new_value_v, r) \<leftarrow> decT bs;
     Some (\<lparr>pu_new_value = new_value_v\<rparr>, r)
   }"

definition property_update_lazy_new_value :: "(bytes \<Rightarrow> ('l \<times> bytes) option) \<Rightarrow> bytes \<Rightarrow> 'l option" where
  "property_update_lazy_new_value decLT v = map_option fst (decLT (drop 0 v))"

definition decode_property_update_lazy :: "nat \<Rightarrow> bytes \<Rightarrow> (bytes \<times> bytes) option" where
  "decode_property_update_lazy tb bs = Some (bs, drop (property_update_base_len tb) bs)"

definition encode_property_update_lazy :: "(bytes \<Rightarrow> ('l \<times> bytes) option) \<Rightarrow> ('l \<Rightarrow> bytes) \<Rightarrow> bytes \<Rightarrow> proto_error + bytes" where
  "encode_property_update_lazy decLT encLT v =
     (case property_update_lazy_new_value decLT v of
        Some new_value_v \<Rightarrow> concat_results [Inr (encLT new_value_v)]
      | None \<Rightarrow> Inl UnwrapPanic)"

definition property_update_try_from :: "(bytes \<Rightarrow> ('t \<times> bytes) option) \<Rightarrow> bytes \<Rightarrow> 't property_update option" where
  "property_update_try_from decT v = map_option fst (decode_property_update decT v)"

definition property_update_lazy_eq :: "(bytes \<Rightarrow> ('l \<times> bytes) option) \<Rightarrow> bytes \<Rightarrow> bytes \<Rightarrow> proto_error + bool" where
  "property_update_lazy_eq decLT v1 v2 =
     (case (property_update_lazy_new_value decLT v1, property_update_lazy_new_value decLT v2) of (Some x, Some y) \<Rightarrow> if x = y then Inr True else Inr False | _ \<Rightarrow> Inl UnwrapPanic)"

subsection \<open>\<open>Request\<close>\<close>

record 't request =
  rq_request_id :: "u32"
  rq_worker :: "u16"
  rq_payload :: "'t"

record 'p request_gen =
  rqg_request_id :: "u32"
  rqg_worker :: "u16"
  rqg_payload :: "'p"

definition request_base_len :: "nat \<Rightarrow> nat" where
  "request_base_len tb = 6 + tb"

definition encode_request_gen :: "('p \<Rightarrow> bytes) \<Rightarrow> 'p request_gen \<Rightarrow> bytes" where
  "encode_request_gen encP g = encode_u32 (rqg_request_id g) @ encode_u16 (rqg_worker g) @ encP (rqg_payload g)"

definition encode_request :: "('t \<Rightarrow> bytes) \<Rightarrow> 't request \<Rightarrow> bytes" where
  "encode_request encT x = encode_u32 (rq_request_id x) @ encode_u16 (rq_worker x) @ encT (rq_payload x)"

definition decode_request :: "(bytes \<Rightarrow> ('t \<times> bytes) option) \<Rightarrow> bytes \<Rightarrow> ('t request \<times> bytes) option" where
  "decode_request decT bs = do {
     (request_id_v, r) \<leftarrow> decode_u32 bs;
     (worker_v, r) \<leftarrow> decode_u16 r;
     (payload_v, r) \<leftarrow> decT r;
     Some (\<lparr>rq_request_id = request_id_v, rq_worker = worker_v, rq_payload = payload_v\<rparr>, r)
   }"

definition request_lazy_request_id :: "bytes \<Rightarrow> u32 option" where
  "request_lazy_request_id v = map_option fst (decode_u32 (drop 0 v))"

definition request_lazy_worker :: "bytes \<Rightarrow> u16 option" where
  "request_lazy_worker v = map_option fst (decode_u16 (drop 4 v))"

definition request_lazy_payload :: "(bytes \<Rightarrow> ('l \<times> bytes) option) \<Rightarrow> bytes \<Rightarrow> 'l option" where
  "request_lazy_payload decLT v = map_option fst (decLT (drop 6 v))"

definition decode_request_lazy :: "nat \<Rightarrow> bytes \<Rightarrow> (bytes \<times> bytes) option" where
  "decode_request_lazy tb bs = Some (bs, drop (request_base_len tb) bs)"

definition encode_request_lazy :: "(bytes \<Rightarrow> ('l \<times> bytes) option) \<Rightarrow> ('l \<Rightarrow> bytes) \<Rightarrow> bytes \<Rightarrow> proto_error + bytes" where
  "encode_request_lazy decLT encLT v =
     (case (request_lazy_request_id v, request_lazy_worker v, request_lazy_payload decLT v) of
        (Some request_id_v, Some worker_v, Some payload_v) \<Rightarrow> concat_results [Inr (encode_u32 request_id_v), Inr (encode_u16 worker_v), Inr (encLT payload_v)]
      | _ \<Rightarrow> Inl UnwrapPanic)"

definition request_try_from :: "(bytes \<Rightarrow> ('t \<times> bytes) option) \<Rightarrow> bytes \<Rightarrow> 't request option" where
  "request_try_from decT v = map_option fst (decode_request decT v)"

definition request_lazy_eq :: "(bytes \<Rightarrow> ('l \<times> bytes) option) \<Rightarrow> bytes \<Rightarrow> bytes \<Rightarrow> proto_error + bool" where
  "request_lazy_eq decLT v1 v2 =
     (case (request_lazy_request_id v1, request_lazy_request_id v2) of (Some x, Some y) \<Rightarrow> if x = y then (case (request_lazy_worker v1, request_lazy_worker v2) of (Some x, Some y) \<Rightarrow> if x = y then (case (request_lazy_payload decLT v1, request_lazy_payload decLT v2) of (Some x, Some y) \<Rightarrow> if x = y then Inr True else Inr False | _ \<Rightarrow> Inl UnwrapPanic) else Inr False | _ \<Rightarrow> Inl UnwrapPanic) else Inr False | _ \<Rightarrow> Inl UnwrapPanic)"

subsection \<open>\<open>Response\<close>\<close>

record 't response =
  rs_request_id :: "u32"
  rs_requester :: "u64"
  rs_requester_worker :: "u16"
  rs_payload :: "'t"

record 'p response_gen =
  rsg_request_id :: "u32"
  rsg_requester :: "u64"
  rsg_requester_worker :: "u16"
  rsg_payload :: "'p"

definition response_base_len :: "nat \<Rightarrow> nat" where
  "response_base_len tb = 14 + tb"

definition encode_response_gen :: "('p \<Rightarrow> bytes) \<Rightarrow> 'p response_gen \<Rightarrow> bytes" where
  "encode_response_gen encP g = encode_u32 (rsg_request_id g) @ encode_u64 (rsg_requester g) @ encode_u16 (rsg_requester_worker g) @ encP (rsg_payload g)"

definition encode_response :: "('t \<Rightarrow> bytes) \<Rightarrow> 't response \<Rightarrow> bytes" where
  "encode_response encT x = encode_u32 (rs_request_id x) @ encode_u64 (rs_requester x) @ encode_u16 (rs_requester_worker x) @ encT (rs_payload x)"

definition decode_response :: "(bytes \<Rightarrow> ('t \<times> bytes) option) \<Rightarrow> bytes \<Rightarrow> ('t response \<times> bytes) option" where
  "decode_response decT bs = do {
     (request_id_v, r) \<leftarrow> decode_u32 bs;
     (requester_v, r) \<leftarrow> decode_u64 r;
     (requester_worker_v, r) \<leftarrow> decode_u16 r;
     (payload_v, r) \<leftarrow> decT r;
     Some (\<lparr>rs_request_id = request_id_v, rs_requester = requester_v, rs_requester_worker = requester_worker_v, rs_payload = payload_v\<rparr>, r)
   }"

definition response_lazy_request_id :: "bytes \<Rightarrow> u32 option" where
  "response_lazy_request_id v = map_option fst (decode_u32 (drop 0 v))"

definition response_lazy_requester :: "bytes \<Rightarrow> u64 option" where
  "response_lazy_requester v = map_option fst (decode_u64 (drop 4 v))"

definition response_lazy_requester_worker :: "bytes \<Rightarrow> u16 option" where
  "response_lazy_requester_worker v = map_option fst (decode_u16 (drop 12 v))"

definition response_lazy_payload :: "(bytes \<Rightarrow> ('l \<times> bytes) option) \<Rightarrow> bytes \<Rightarrow> 'l option" where
  "response_lazy_payload decLT v = map_option fst (decLT (drop 14 v))"

definition decode_response_lazy :: "nat \<Rightarrow> bytes \<Rightarrow> (bytes \<times> bytes) option" where
  "decode_response_lazy tb bs = Some (bs, drop (response_base_len tb) bs)"

definition encode_response_lazy :: "(bytes \<Rightarrow> ('l \<times> bytes) option) \<Rightarrow> ('l \<Rightarrow> bytes) \<Rightarrow> bytes \<Rightarrow> proto_error + bytes" where
  "encode_response_lazy decLT encLT v =
     (case (response_lazy_request_id v, response_lazy_requester v, response_lazy_requester_worker v, response_lazy_payload decLT v) of
        (Some request_id_v, Some requester_v, Some requester_worker_v, Some payload_v) \<Rightarrow> concat_results [Inr (encode_u32 request_id_v), Inr (encode_u64 requester_v), Inr (encode_u16 requester_worker_v), Inr (encLT payload_v)]
      | _ \<Rightarrow> Inl UnwrapPanic)"

definition response_try_from :: "(bytes \<Rightarrow> ('t \<times> bytes) option) \<Rightarrow> bytes \<Rightarrow> 't response option" where
  "response_try_from decT v = map_option fst (decode_response decT v)"

definition response_lazy_eq :: "(bytes \<Rightarrow> ('l \<times> bytes) option) \<Rightarrow> bytes \<Rightarrow> bytes \<Rightarrow> proto_error + bool" where
  "response_lazy_eq decLT v1 v2 =
     (case (response_lazy_request_id v1, response_lazy_request_id v2) of (Some x, Some y) \<Rightarrow> if x = y then (case (response_lazy_requester v1, response_lazy_requester v2) of (Some x, Some y) \<Rightarrow> if x = y then (case (response_lazy_requester_worker v1, response_lazy_requester_worker v2) of (Some x, Some y) \<Rightarrow> if x = y then (case (response_lazy_payload decLT v1, response_lazy_payload decLT v2) of (Some x, Some y) \<Rightarrow> if x = y then Inr True else Inr False | _ \<Rightarrow> Inl UnwrapPanic) else Inr False | _ \<Rightarrow> Inl UnwrapPanic) else Inr False | _ \<Rightarrow> Inl UnwrapPanic) else Inr False | _ \<Rightarrow> Inl UnwrapPanic)"

subsection \<open>\<open>StreamItem\<close>\<close>

record 't stream_item =
  si_seq :: "u64"
  si_payload :: "'t"

record 'p stream_item_gen =
  sig_seq :: "u64"
  sig_payload :: "'p"

definition stream_item_base_len :: "nat \<Rightarrow> nat" where
  "stream_item_base_len tb = 8 + tb"

definition encode_stream_item_gen :: "('p \<Rightarrow> bytes) \<Rightarrow> 'p stream_item_gen \<Rightarrow> bytes" where
  "encode_stream_item_gen encP g = encode_u64 (sig_seq g) @ encP (sig_payload g)"

definition encode_stream_item :: "('t \<Rightarrow> bytes) \<Rightarrow> 't stream_item \<Rightarrow> bytes" where
  "encode_stream_item encT x = encode_u64 (si_seq x) @ encT (si_payload x)"

definition decode_stream_item :: "(bytes \<Rightarrow> ('t \<times> bytes) option) \<Rightarrow> bytes \<Rightarrow> ('t stream_item \<times> bytes) option" where
  "decode_stream_item decT bs = do {
     (seq_v, r) \<leftarrow> decode_u64 bs;
     (payload_v, r) \<leftarrow> decT r;
     Some (\<lparr>si_seq = seq_v, si_payload = payload_v\<rparr>, r)
   }"

definition stream_item_lazy_seq :: "bytes \<Rightarrow> u64 option" where
  "stream_item_lazy_seq v = map_option fst (decode_u64 (drop 0 v))"

definition stream_item_lazy_payload :: "(bytes \<Rightarrow> ('l \<times> bytes) option) \<Rightarrow> bytes \<Rightarrow> 'l option" where
  "stream_item_lazy_payload decLT v = map_option fst (decLT (drop 8 v))"

definition decode_stream_item_lazy :: "nat \<Rightarrow> bytes \<Rightarrow> (bytes \<times> bytes) option" where
  "decode_stream_item_lazy tb bs = Some (bs, drop (stream_item_base_len tb) bs)"

definition encode_stream_item_lazy :: "(bytes \<Rightarrow> ('l \<times> bytes) option) \<Rightarrow> ('l \<Rightarrow> bytes) \<Rightarrow> bytes \<Rightarrow> proto_error + bytes" where
  "encode_stream_item_lazy decLT encLT v =
     (case (stream_item_lazy_seq v, stream_item_lazy_payload decLT v) of
        (Some seq_v, Some payload_v) \<Rightarrow> concat_results [Inr (encode_u64 seq_v), Inr (encLT payload_v)]
      | _ \<Rightarrow> Inl UnwrapPanic)"

definition stream_item_try_from :: "(bytes \<Rightarrow> ('t \<times> bytes) option) \<Rightarrow> bytes \<Rightarrow> 't stream_item option" where
  "stream_item_try_from decT v = map_option fst (decode_stream_item decT v)"

definition stream_item_lazy_eq :: "(bytes \<Rightarrow> ('l \<times> bytes) option) \<Rightarrow> bytes \<Rightarrow> bytes \<Rightarrow> proto_error + bool" where
  "stream_item_lazy_eq decLT v1 v2 =
     (case (stream_item_lazy_seq v1, stream_item_lazy_seq v2) of (Some x, Some y) \<Rightarrow> if x = y then (case (stream_item_lazy_payload decLT v1, stream_item_lazy_payload decLT v2) of (Some x, Some y) \<Rightarrow> if x = y then Inr True else Inr False | _ \<Rightarrow> Inl UnwrapPanic) else Inr False | _ \<Rightarrow> Inl UnwrapPanic)"

subsection \<open>\<open>MultiStreamId\<close>\<close>

record multi_stream_id =
  msid_owner :: "u64"
  msid_id :: "u32"

record multi_stream_id_gen =
  msidg_owner :: "u64"
  msidg_id :: "u32"

definition multi_stream_id_base_len :: nat where
  "multi_stream_id_base_len = 12"

definition encode_multi_stream_id_gen :: "multi_stream_id_gen \<Rightarrow> bytes" where
  "encode_multi_stream_id_gen g = encode_u64 (msidg_owner g) @ encode_u32 (msidg_id g)"

definition encode_multi_stream_id :: "multi_stream_id \<Rightarrow> bytes" where
  "encode_multi_stream_id x = encode_u64 (msid_owner x) @ encode_u32 (msid_id x)"

definition decode_multi_stream_id :: "bytes \<Rightarrow> (multi_stream_id \<times> bytes) option" where
  "decode_multi_stream_id bs = do {
     (owner_v, r) \<leftarrow> decode_u64 bs;
     (id_v, r) \<leftarrow> decode_u32 r;
     Some (\<lparr>msid_owner = owner_v, msid_id = id_v\<rparr>, r)
   }"

definition multi_stream_id_lazy_owner :: "bytes \<Rightarrow> u64 option" where
  "multi_stream_id_lazy_owner v = map_option fst (decode_u64 (drop 0 v))"

definition multi_stream_id_lazy_id :: "bytes \<Rightarrow> u32 option" where
  "multi_stream_id_lazy_id v = map_option fst (decode_u32 (drop 8 v))"

definition decode_multi_stream_id_lazy :: "bytes \<Rightarrow> (bytes \<times> bytes) option" where
  "decode_multi_stream_id_lazy bs = Some (bs, drop (multi_stream_id_base_len) bs)"

definition encode_multi_stream_id_lazy :: "bytes \<Rightarrow> proto_error + bytes" where
  "encode_multi_stream_id_lazy v =
     (case (multi_stream_id_lazy_owner v, multi_stream_id_lazy_id v) of
        (Some owner_v, Some id_v) \<Rightarrow> concat_results [Inr (encode_u64 owner_v), Inr (encode_u32 id_v)]
      | _ \<Rightarrow> Inl UnwrapPanic)"

definition multi_stream_id_try_from :: "bytes \<Rightarrow> multi_stream_id option" where
  "multi_stream_id_try_from v = map_option fst (decode_multi_stream_id v)"

definition multi_stream_id_lazy_eq :: "bytes \<Rightarrow> bytes \<Rightarrow> proto_error + bool" where
  "multi_stream_id_lazy_eq v1 v2 =
     (case (multi_stream_id_lazy_owner v1, multi_stream_id_lazy_owner v2) of (Some x, Some y) \<Rightarrow> if x = y then (case (multi_stream_id_lazy_id v1, multi_stream_id_lazy_id v2) of (Some x, Some y) \<Rightarrow> if x = y then Inr True else Inr False | _ \<Rightarrow> Inl UnwrapPanic) else Inr False | _ \<Rightarrow> Inl UnwrapPanic)"

subsection \<open>\<open>MultiStreamItem\<close>\<close>

record 't multi_stream_item =
  msi_stream_id :: "multi_stream_id"
  msi_seq :: "u64"
  msi_payload :: "'t"

record 'p multi_stream_item_gen =
  msig_stream_id :: "multi_stream_id"
  msig_seq :: "u64"
  msig_payload :: "'p"

definition multi_stream_item_base_len :: "nat \<Rightarrow> nat" where
  "multi_stream_item_base_len tb = 21 + tb"

definition encode_multi_stream_item_gen :: "('p \<Rightarrow> bytes) \<Rightarrow> 'p multi_stream_item_gen \<Rightarrow> bytes" where
  "encode_multi_stream_item_gen encP g = encode_multi_stream_id (msig_stream_id g) @ encode_u64 (msig_seq g) @ encP (msig_payload g)"

definition encode_multi_stream_item :: "('t \<Rightarrow> bytes) \<Rightarrow> 't multi_stream_item \<Rightarrow> bytes" where
  "encode_multi_stream_item encT x = encode_multi_stream_id (msi_stream_id x) @ encode_u64 (msi_seq x) @ encT (msi_payload x)"

definition decode_multi_stream_item :: "(bytes \<Rightarrow> ('t \<times> bytes) option) \<Rightarrow> bytes \<Rightarrow> ('t multi_stream_item \<times> bytes) option" where
  "decode_multi_stream_item decT bs = do {
     (stream_id_v, r) \<leftarrow> decode_multi_stream_id bs;
     (seq_v, r) \<leftarrow> decode_u64 r;
     (payload_v, r) \<leftarrow> decT r;
     Some (\<lparr>msi_stream_id = stream_id_v, msi_seq = seq_v, msi_payload = payload_v\<rparr>, r)
   }"

definition multi_stream_item_lazy_stream_id :: "bytes \<Rightarrow> bytes option" where
  "multi_stream_item_lazy_stream_id v = map_option fst (decode_multi_stream_id_lazy (drop 0 v))"

definition multi_stream_item_lazy_seq :: "bytes \<Rightarrow> u64 option" where
  "multi_stream_item_lazy_seq v = map_option fst (decode_u64 (drop 12 v))"

definition multi_stream_item_lazy_payload :: "(bytes \<Rightarrow> ('l \<times> bytes) option) \<Rightarrow> bytes \<Rightarrow> 'l option" where
  "multi_stream_item_lazy_payload decLT v = map_option fst (decLT (drop 20 v))"

definition decode_multi_stream_item_lazy :: "nat \<Rightarrow> bytes \<Rightarrow> (bytes \<times> bytes) option" where
  "decode_multi_stream_item_lazy tb bs = Some (bs, drop (multi_stream_item_base_len tb) bs)"

definition encode_multi_stream_item_lazy :: "(bytes \<Rightarrow> ('l \<times> bytes) option) \<Rightarrow> ('l \<Rightarrow> bytes) \<Rightarrow> bytes \<Rightarrow> proto_error + bytes" where
  "encode_multi_stream_item_lazy decLT encLT v =
     (case (multi_stream_item_lazy_stream_id v, multi_stream_item_lazy_seq v, multi_stream_item_lazy_payload decLT v) of
        (Some stream_id_v, Some seq_v, Some payload_v) \<Rightarrow> concat_results [encode_multi_stream_id_lazy stream_id_v, Inr (encode_u64 seq_v), Inr (encLT payload_v)]
      | _ \<Rightarrow> Inl UnwrapPanic)"

definition multi_stream_item_try_from :: "(bytes \<Rightarrow> ('t \<times> bytes) option) \<Rightarrow> bytes \<Rightarrow> 't multi_stream_item option" where
  "multi_stream_item_try_from decT v = map_option fst (decode_multi_stream_item decT v)"

definition multi_stream_item_lazy_eq :: "(bytes \<Rightarrow> ('l \<times> bytes) option) \<Rightarrow> bytes \<Rightarrow> bytes \<Rightarrow> proto_error + bool" where
  "multi_stream_item_lazy_eq decLT v1 v2 =
     (case (multi_stream_item_lazy_stream_id v1, multi_stream_item_lazy_stream_id v2) of (Some x, Some y) \<Rightarrow> (case multi_stream_id_lazy_eq x y of Inl e \<Rightarrow> Inl e | Inr True \<Rightarrow> (case (multi_stream_item_lazy_seq v1, multi_stream_item_lazy_seq v2) of (Some x, Some y) \<Rightarrow> if x = y then (case (multi_stream_item_lazy_payload decLT v1, multi_stream_item_lazy_payload decLT v2) of (Some x, Some y) \<Rightarrow> if x = y then Inr True else Inr False | _ \<Rightarrow> Inl UnwrapPanic) else Inr False | _ \<Rightarrow> Inl UnwrapPanic) | Inr False \<Rightarrow> Inr False) | _ \<Rightarrow> Inl UnwrapPanic)"

subsection \<open>\<open>PropertyInitState\<close>\<close>

record 't property_init_state =
  pis_value :: "'t"

record 'p property_init_state_gen =
  pisg_value :: "'p"

definition property_init_state_base_len :: "nat \<Rightarrow> nat" where
  "property_init_state_base_len tb = tb"

definition encode_property_init_state_gen :: "('p \<Rightarrow> bytes) \<Rightarrow> 'p property_init_state_gen \<Rightarrow> bytes" where
  "encode_property_init_state_gen encP g = encP (pisg_value g)"

definition encode_property_init_state :: "('t \<Rightarrow> bytes) \<Rightarrow> 't property_init_state \<Rightarrow> bytes" where
  "encode_property_init_state encT x = encT (pis_value x)"

definition decode_property_init_state :: "(bytes \<Rightarrow> ('t \<times> bytes) option) \<Rightarrow> bytes \<Rightarrow> ('t property_init_state \<times> bytes) option" where
  "decode_property_init_state decT bs = do {
     (value_v, r) \<leftarrow> decT bs;
     Some (\<lparr>pis_value = value_v\<rparr>, r)
   }"

definition property_init_state_lazy_value :: "(bytes \<Rightarrow> ('l \<times> bytes) option) \<Rightarrow> bytes \<Rightarrow> 'l option" where
  "property_init_state_lazy_value decLT v = map_option fst (decLT (drop 0 v))"

definition decode_property_init_state_lazy :: "nat \<Rightarrow> bytes \<Rightarrow> (bytes \<times> bytes) option" where
  "decode_property_init_state_lazy tb bs = Some (bs, drop (property_init_state_base_len tb) bs)"

definition encode_property_init_state_lazy :: "(bytes \<Rightarrow> ('l \<times> bytes) option) \<Rightarrow> ('l \<Rightarrow> bytes) \<Rightarrow> bytes \<Rightarrow> proto_error + bytes" where
  "encode_property_init_state_lazy decLT encLT v =
     (case property_init_state_lazy_value decLT v of
        Some value_v \<Rightarrow> concat_results [Inr (encLT value_v)]
      | None \<Rightarrow> Inl UnwrapPanic)"

definition property_init_state_try_from :: "(bytes \<Rightarrow> ('t \<times> bytes) option) \<Rightarrow> bytes \<Rightarrow> 't property_init_state option" where
  "property_init_state_try_from decT v = map_option fst (decode_property_init_state decT v)"

definition property_init_state_lazy_eq :: "(bytes \<Rightarrow> ('l \<times> bytes) option) \<Rightarrow> bytes \<Rightarrow> bytes \<Rightarrow> proto_error + bool" where
  "property_init_state_lazy_eq decLT v1 v2 =
     (case (property_init_state_lazy_value decLT v1, property_init_state_lazy_value decLT v2) of (Some x, Some y) \<Rightarrow> if x = y then Inr True else Inr False | _ \<Rightarrow> Inl UnwrapPanic)"

subsection \<open>Empty configuration and state structs\<close>

datatype property_observer_config = PropertyObserverConfig

definition encode_property_observer_config :: "property_observer_config \<Rightarrow> bytes" where
  "encode_property_observer_config x = []"

definition decode_property_observer_config :: "bytes \<Rightarrow> (property_observer_config \<times> bytes) option" where
  "decode_property_observer_config bs = Some (PropertyObserverConfig, bs)"

definition decode_property_observer_config_lazy :: "bytes \<Rightarrow> (bytes \<times> bytes) option" where
  "decode_property_observer_config_lazy bs = Some (bs, bs)"

definition property_observer_config_try_from :: "bytes \<Rightarrow> property_observer_config option" where
  "property_observer_config_try_from v = map_option fst (decode_property_observer_config v)"

definition property_observer_config_lazy_eq :: "bytes \<Rightarrow> bytes \<Rightarrow> bool" where
  "property_observer_config_lazy_eq v1 v2 = True"

datatype property_owner_config = PropertyOwnerConfig

definition encode_property_owner_config :: "property_owner_config \<Rightarrow> bytes" where
  "encode_property_owner_config x = []"

definition decode_property_owner_config :: "bytes \<Rightarrow> (property_owner_config \<times> bytes) option" where
  "decode_property_owner_config bs = Some (PropertyOwnerConfig, bs)"

definition decode_property_owner_config_lazy :: "bytes \<Rightarrow> (bytes \<times> bytes) option" where
  "decode_property_owner_config_lazy bs = Some (bs, bs)"

definition property_owner_config_try_from :: "bytes \<Rightarrow> property_owner_config option" where
  "property_owner_config_try_from v = map_option fst (decode_property_owner_config v)"

definition property_owner_config_lazy_eq :: "bytes \<Rightarrow> bytes \<Rightarrow> bool" where
  "property_owner_config_lazy_eq v1 v2 = True"

datatype request_init_state = RequestInitState

definition encode_request_init_state :: "request_init_state \<Rightarrow> bytes" where
  "encode_request_init_state x = []"

definition decode_request_init_state :: "bytes \<Rightarrow> (request_init_state \<times> bytes) option" where
  "decode_request_init_state bs = Some (RequestInitState, bs)"

definition decode_request_init_state_lazy :: "bytes \<Rightarrow> (bytes \<times> bytes) option" where
  "decode_request_init_state_lazy bs = Some (bs, bs)"

definition request_init_state_try_from :: "bytes \<Rightarrow> request_init_state option" where
  "request_init_state_try_from v = map_option fst (decode_request_init_state v)"

definition request_init_state_lazy_eq :: "bytes \<Rightarrow> bytes \<Rightarrow> bool" where
  "request_init_state_lazy_eq v1 v2 = True"

datatype request_client_config = RequestClientConfig

definition encode_request_client_config :: "request_client_config \<Rightarrow> bytes" where
  "encode_request_client_config x = []"

definition decode_request_client_config :: "bytes \<Rightarrow> (request_client_config \<times> bytes) option" where
  "decode_request_client_config bs = Some (RequestClientConfig, bs)"

definition decode_request_client_config_lazy :: "bytes \<Rightarrow> (bytes \<times> bytes) option" where
  "decode_request_client_config_lazy bs = Some (bs, bs)"

definition request_client_config_try_from :: "bytes \<Rightarrow> request_client_config option" where
  "request_client_config_try_from v = map_option fst (decode_request_client_config v)"

definition request_client_config_lazy_eq :: "bytes \<Rightarrow> bytes \<Rightarrow> bool" where
  "request_client_config_lazy_eq v1 v2 = True"

datatype request_server_config = RequestServerConfig

definition encode_request_server_config :: "request_server_config \<Rightarrow> bytes" where
  "encode_request_server_config x = []"

definition decode_request_server_config :: "bytes \<Rightarrow> (request_server_config \<times> bytes) option" where
  "decode_request_server_config bs = Some (RequestServerConfig, bs)"

definition decode_request_server_config_lazy :: "bytes \<Rightarrow> (bytes \<times> bytes) option" where
  "decode_request_server_config_lazy bs = Some (bs, bs)"

definition request_server_config_try_from :: "bytes \<Rightarrow> request_server_config option" where
  "request_server_config_try_from v = map_option fst (decode_request_server_config v)"

definition request_server_config_lazy_eq :: "bytes \<Rightarrow> bytes \<Rightarrow> bool" where
  "request_server_config_lazy_eq v1 v2 = True"

datatype stream_init_state = StreamInitState

definition encode_stream_init_state :: "stream_init_state \<Rightarrow> bytes" where
  "encode_stream_init_state x = []"

definition decode_stream_init_state :: "bytes \<Rightarrow> (stream_init_state \<times> bytes) option" where
  "decode_stream_init_state bs = Some (StreamInitState, bs)"

definition decode_stream_init_state_lazy :: "bytes \<Rightarrow> (bytes \<times> bytes) option" where
  "decode_stream_init_state_lazy bs = Some (bs, bs)"

definition stream_init_state_try_from :: "bytes \<Rightarrow> stream_init_state option" where
  "stream_init_state_try_from v = map_option fst (decode_stream_init_state v)"

definition stream_init_state_lazy_eq :: "bytes \<Rightarrow> bytes \<Rightarrow> bool" where
  "stream_init_state_lazy_eq v1 v2 = True"

datatype stream_receiver_config = StreamReceiverConfig

definition encode_stream_receiver_config :: "stream_receiver_config \<Rightarrow> bytes" where
  "encode_stream_receiver_config x = []"

definition decode_stream_receiver_config :: "bytes \<Rightarrow> (stream_receiver_config \<times> bytes) option" where
  "decode_stream_receiver_config bs = Some (StreamReceiverConfig, bs)"

definition decode_stream_receiver_config_lazy :: "bytes \<Rightarrow> (bytes \<times> bytes) option" where
  "decode_stream_receiver_config_lazy bs = Some (bs, bs)"

definition stream_receiver_config_try_from :: "bytes \<Rightarrow> stream_receiver_config option" where
  "stream_receiver_config_try_from v = map_option fst (decode_stream_receiver_config v)"

definition stream_receiver_config_lazy_eq :: "bytes \<Rightarrow> bytes \<Rightarrow> bool" where
  "stream_receiver_config_lazy_eq v1 v2 = True"

datatype stream_sender_config = StreamSenderConfig

definition encode_stream_sender_config :: "stream_sender_config \<Rightarrow> bytes" where
  "encode_stream_sender_config x = []"

definition decode_stream_sender_config :: "bytes \<Rightarrow> (stream_sender_config \<times> bytes) option" where
  "decode_stream_sender_config bs = Some (StreamSenderConfig, bs)"

definition decode_stream_sender_config_lazy :: "bytes \<Rightarrow> (bytes \<times> bytes) option" where
  "decode_stream_sender_config_lazy bs = Some (bs, bs)"

definition stream_sender_config_try_from :: "bytes \<Rightarrow> stream_sender_config option" where
  "stream_sender_config_try_from v = map_option fst (decode_stream_sender_config v)"

definition stream_sender_config_lazy_eq :: "bytes \<Rightarrow> bytes \<Rightarrow> bool" where
  "stream_sender_config_lazy_eq v1 v2 = True"

datatype multi_stream_init_state = MultiStreamInitState

definition encode_multi_stream_init_state :: "multi_stream_init_state \<Rightarrow> bytes" where
  "encode_multi_stream_init_state x = []"

definition decode_multi_stream_init_state :: "bytes \<Rightarrow> (multi_stream_init_state \<times> bytes) option" where
  "decode_multi_stream_init_state bs = Some (MultiStreamInitState, bs)"

definition decode_multi_stream_init_state_lazy :: "bytes \<Rightarrow> (bytes \<times> bytes) option" where
  "decode_multi_stream_init_state_lazy bs = Some (bs, bs)"

definition multi_stream_init_state_try_from :: "bytes \<Rightarrow> multi_stream_init_state option" where
  "multi_stream_init_state_try_from v = map_option fst (decode_multi_stream_init_state v)"

definition multi_stream_init_state_lazy_eq :: "bytes \<Rightarrow> bytes \<Rightarrow> bool" where
  "multi_stream_init_state_lazy_eq v1 v2 = True"

datatype multi_stream_receiver_config = MultiStreamReceiverConfig

definition encode_multi_stream_receiver_config :: "multi_stream_receiver_config \<Rightarrow> bytes" where
  "encode_multi_stream_receiver_config x = []"

definition decode_multi_stream_receiver_config :: "bytes \<Rightarrow> (multi_stream_receiver_config \<times> bytes) option" where
  "decode_multi_stream_receiver_config bs = Some (MultiStreamReceiverConfig, bs)"

definition decode_multi_stream_receiver_config_lazy :: "bytes \<Rightarrow> (bytes \<times> bytes) option" where
  "decode_multi_stream_receiver_config_lazy bs = Some (bs, bs)"

definition multi_stream_receiver_config_try_from :: "bytes \<Rightarrow> multi_stream_receiver_config option" where
  "multi_stream_receiver_config_try_from v = map_option fst (decode_multi_stream_receiver_config v)"

definition multi_stream_receiver_config_lazy_eq :: "bytes \<Rightarrow> bytes \<Rightarrow> bool" where
  "multi_stream_receiver_config_lazy_eq v1 v2 = True"

datatype multi_stream_sender_config = MultiStreamSenderConfig

definition encode_multi_stream_sender_config :: "multi_stream_sender_config \<Rightarrow> bytes" where
  "encode_multi_stream_sender_config x = []"

definition decode_multi_stream_sender_config :: "bytes \<Rightarrow> (multi_stream_sender_config \<times> bytes) option" where
  "decode_multi_stream_sender_config bs = Some (MultiStreamSenderConfig, bs)"

definition decode_multi_stream_sender_config_lazy :: "bytes \<Rightarrow> (bytes \<times> bytes) option" where
  "decode_multi_stream_sender_config_lazy bs = Some (bs, bs)"

definition multi_stream_sender_config_try_from :: "bytes \<Rightarrow> multi_stream_sender_config option" where
  "multi_stream_sender_config_try_from v = map_option fst (decode_multi_stream_sender_config v)"

definition multi_stream_sender_config_lazy_eq :: "bytes \<Rightarrow> bytes \<Rightarrow> bool" where
  "multi_stream_sender_config_lazy_eq v1 v2 = True"

datatype byte_stream_init_state = ByteStreamInitState

definition encode_byte_stream_init_state :: "byte_stream_init_state \<Rightarrow> bytes" where
  "encode_byte_stream_init_state x = []"

definition decode_byte_stream_init_state :: "bytes \<Rightarrow> (byte_stream_init_state \<times> bytes) option" where
  "decode_byte_stream_init_state bs = Some (ByteStreamInitState, bs)"

definition decode_byte_stream_init_state_lazy :: "bytes \<Rightarrow> (bytes \<times> bytes) option" where
  "decode_byte_stream_init_state_lazy bs = Some (bs, bs)"

definition byte_stream_init_state_try_from :: "bytes \<Rightarrow> byte_stream_init_state option" where
  "byte_stream_init_state_try_from v = map_option fst (decode_byte_stream_init_state v)"

definition byte_stream_init_state_lazy_eq :: "bytes \<Rightarrow> bytes \<Rightarrow> bool" where
  "byte_stream_init_state_lazy_eq v1 v2 = True"

datatype byte_stream_receiver_config = ByteStreamReceiverConfig

definition encode_byte_stream_receiver_config :: "byte_stream_receiver_config \<Rightarrow> bytes" where
  "encode_byte_stream_receiver_config x = []"

definition decode_byte_stream_receiver_config :: "bytes \<Rightarrow> (byte_stream_receiver_config \<times> bytes) option" where
  "decode_byte_stream_receiver_config bs = Some (ByteStreamReceiverConfig, bs)"

definition decode_byte_stream_receiver_config_lazy :: "bytes \<Rightarrow> (bytes \<times> bytes) option" where
  "decode_byte_stream_receiver_config_lazy bs = Some (bs, bs)"

definition byte_stream_receiver_config_try_from :: "bytes \<Rightarrow> byte_stream_receiver_config option" where
  "byte_stream_receiver_config_try_from v = map_option fst (decode_byte_stream_receiver_config v)"

definition byte_stream_receiver_config_lazy_eq :: "bytes \<Rightarrow> bytes \<Rightarrow> bool" where
  "byte_stream_receiver_config_lazy_eq v1 v2 = True"

datatype byte_stream_sender_config = ByteStreamSenderConfig

definition encode_byte_stream_sender_config :: "byte_stream_sender_config \<Rightarrow> bytes" where
  "encode_byte_stream_sender_config x = []"

definition decode_byte_stream_sender_config :: "bytes \<Rightarrow> (byte_stream_sender_config \<times> bytes) option" where
  "decode_byte_stream_sender_config bs = Some (ByteStreamSenderConfig, bs)"

definition decode_byte_stream_sender_config_lazy :: "bytes \<Rightarrow> (bytes \<times> bytes) option" where
  "decode_byte_stream_sender_config_lazy bs = Some (bs, bs)"

definition byte_stream_sender_config_try_from :: "bytes \<Rightarrow> byte_stream_sender_config option" where
  "byte_stream_sender_config_try_from v = map_option fst (decode_byte_stream_sender_config v)"

definition byte_stream_sender_config_lazy_eq :: "bytes \<Rightarrow> bytes \<Rightarrow> bool" where
  "byte_stream_sender_config_lazy_eq v1 v2 = True"

section \<open>Scenario values\<close>

definition rs0 :: "u32 response" where
  "rs0 = \<lparr>rs_request_id = 7, rs_requester = 3, rs_requester_worker = 1, rs_payload = 42\<rparr>"

definition msi0 :: "u32 multi_stream_item" where
  "msi0 = \<lparr>msi_stream_id = \<lparr>msid_owner = 3, msid_id = 9\<rparr>, msi_seq = 5, msi_payload = 42\<rparr>"

section \<open>Codec lemmas\<close>

lemma multi_stream_id_codec: "codec_exact encode_multi_stream_id decode_multi_stream_id"
  unfolding codec_exact_def
proof (intro allI)
  fix bs x r
  show "decode_multi_stream_id bs = Some (x, r) \<longleftrightarrow> bs = encode_multi_stream_id x @ r"
    by (cases x) (auto simp: encode_multi_stream_id_def decode_multi_stream_id_def bind_eq_Some_conv decode_u32_iff decode_u64_iff)
qed

lemma multi_stream_id_iff: "decode_multi_stream_id bs = Some (x, r) \<longleftrightarrow> bs = encode_multi_stream_id x @ r"
  using multi_stream_id_codec by (simp add: codec_exact_def)

lemma multi_stream_id_lazy_agree:
  "decode_multi_stream_id bs = Some (x, r) \<Longrightarrow>
     multi_stream_id_lazy_owner bs = Some (msid_owner x) \<and>
     multi_stream_id_lazy_id bs = Some (msid_id x)"
  by (auto simp: decode_multi_stream_id_def multi_stream_id_lazy_owner_def multi_stream_id_lazy_id_def bind_eq_Some_conv decode_u32_iff decode_u64_iff)

lemma multi_stream_id_lazy_reencode:
  "encode_multi_stream_id_lazy (encode_multi_stream_id x @ r) = Inr (encode_multi_stream_id x)"
  by (simp add: encode_multi_stream_id_lazy_def encode_multi_stream_id_def multi_stream_id_lazy_owner_def multi_stream_id_lazy_id_def)

lemma multi_stream_id_lazy_eq_enc:
  "multi_stream_id_lazy_eq (encode_multi_stream_id x @ r1) (encode_multi_stream_id y @ r2) = Inr (x = y)"
  by (cases x; cases y) (auto simp: multi_stream_id_lazy_eq_def encode_multi_stream_id_def multi_stream_id_lazy_owner_def multi_stream_id_lazy_id_def split: bool.split)

lemma length_encode_multi_stream_id [simp]: "length (encode_multi_stream_id x) = 12"
  by (simp add: encode_multi_stream_id_def)

lemma property_update_codec:
  "codec_exact encT decT \<Longrightarrow> codec_exact (encode_property_update encT) (decode_property_update decT)"
  unfolding codec_exact_def
proof (intro allI)
  fix bs x r
  assume h: "\<forall>bs x r. decT bs = Some (x, r) \<longleftrightarrow> bs = encT x @ r"
  show "decode_property_update decT bs = Some (x, r) \<longleftrightarrow> bs = encode_property_update encT x @ r"
    using h by (cases x) (auto simp: encode_property_update_def decode_property_update_def bind_eq_Some_conv )
qed

lemma property_update_lazy_agree:
  "decode_property_update decT bs = Some (x, r) \<Longrightarrow>
     property_update_lazy_new_value decT bs = Some (pu_new_value x)"
  by (auto simp: decode_property_update_def property_update_lazy_new_value_def bind_eq_Some_conv )

lemma property_update_lazy_reencode:
  "codec_exact encT decT \<Longrightarrow> encode_property_update_lazy decT encT (encode_property_update encT x @ r) = Inr (encode_property_update encT x)"
  by (simp add: encode_property_update_lazy_def encode_property_update_def property_update_lazy_new_value_def codec_exact_enc)

lemma property_update_lazy_eq_enc:
  "codec_exact encT decT \<Longrightarrow> property_update_lazy_eq decT (encode_property_update encT x @ r1) (encode_property_update encT y @ r2) = Inr (x = y)"
  by (cases x; cases y) (auto simp: property_update_lazy_eq_def encode_property_update_def property_update_lazy_new_value_def codec_exact_enc split: bool.split)

lemma request_codec:
  "codec_exact encT decT \<Longrightarrow> codec_exact (encode_request encT) (decode_request decT)"
  unfolding codec_exact_def
proof (intro allI)
  fix bs x r
  assume h: "\<forall>bs x r. decT bs = Some (x, r) \<longleftrightarrow> bs = encT x @ r"
  show "decode_request decT bs = Some (x, r) \<longleftrightarrow> bs = encode_request encT x @ r"
    using h by (cases x) (auto simp: encode_request_def decode_request_def bind_eq_Some_conv decode_u16_iff decode_u32_iff)
qed

lemma request_lazy_agree:
  "decode_request decT bs = Some (x, r) \<Longrightarrow>
     request_lazy_request_id bs = Some (rq_request_id x) \<and>
     request_lazy_worker bs = Some (rq_worker x) \<and>
     request_lazy_payload decT bs = Some (rq_payload x)"
  by (auto simp: decode_request_def request_lazy_request_id_def request_lazy_worker_def request_lazy_payload_def bind_eq_Some_conv decode_u16_iff decode_u32_iff)

text \<open>Re-encoding a lazy Request view over an encoded Request reproduces exactly the bytes of that Request, whatever follows it in the buffer.\<close>
lemma request_lazy_reencode:
  "codec_exact encT decT \<Longrightarrow> encode_request_lazy decT encT (encode_request encT x @ r) = Inr (encode_request encT x)"
  by (simp add: encode_request_lazy_def encode_request_def request_lazy_request_id_def request_lazy_worker_def request_lazy_payload_def codec_exact_enc)

lemma request_lazy_eq_enc:
  "codec_exact encT decT \<Longrightarrow> request_lazy_eq decT (encode_request encT x @ r1) (encode_request encT y @ r2) = Inr (x = y)"
  by (cases x; cases y) (auto simp: request_lazy_eq_def encode_request_def request_lazy_request_id_def request_lazy_worker_def request_lazy_payload_def codec_exact_enc split: bool.split)

text \<open>
  Response encoding and decoding are exact inverses: for any payload codec that is exact, decoding a byte string yields a Response and a rest exactly when the string is that Response's encoding followed by the rest.
\<close>
lemma response_codec:
  "codec_exact encT decT \<Longrightarrow> codec_exact (encode_response encT) (decode_response decT)"
  unfolding codec_exact_def
proof (intro allI)
  fix bs x r
  assume h: "\<forall>bs x r. decT bs = Some (x, r) \<longleftrightarrow> bs = encT x @ r"
  show "decode_response decT bs = Some (x, r) \<longleftrightarrow> bs = encode_response encT x @ r"
    using h by (cases x) (auto simp: encode_response_def decode_response_def bind_eq_Some_conv decode_u16_iff decode_u32_iff decode_u64_iff)
qed

text \<open>
  The lazy Response view agrees with the owned decoder: when a buffer decodes to a Response, the lazy accessors request_id, requester, requester_worker and payload read back exactly the fields of that Response.
\<close>
lemma response_lazy_agree:
  "decode_response decT bs = Some (x, r) \<Longrightarrow>
     response_lazy_request_id bs = Some (rs_request_id x) \<and>
     response_lazy_requester bs = Some (rs_requester x) \<and>
     response_lazy_requester_worker bs = Some (rs_requester_worker x) \<and>
     response_lazy_payload decT bs = Some (rs_payload x)"
  by (auto simp: decode_response_def response_lazy_request_id_def response_lazy_requester_def response_lazy_requester_worker_def response_lazy_payload_def bind_eq_Some_conv decode_u16_iff decode_u32_iff decode_u64_iff)

lemma response_lazy_reencode:
  "codec_exact encT decT \<Longrightarrow> encode_response_lazy decT encT (encode_response encT x @ r) = Inr (encode_response encT x)"
  by (simp add: encode_response_lazy_def encode_response_def response_lazy_request_id_def response_lazy_requester_def response_lazy_requester_worker_def response_lazy_payload_def codec_exact_enc)

lemma response_lazy_eq_enc:
  "codec_exact encT decT \<Longrightarrow> response_lazy_eq decT (encode_response encT x @ r1) (encode_response encT y @ r2) = Inr (x = y)"
  by (cases x; cases y) (auto simp: response_lazy_eq_def encode_response_def response_lazy_request_id_def response_lazy_requester_def response_lazy_requester_worker_def response_lazy_payload_def codec_exact_enc split: bool.split)

lemma stream_item_codec:
  "codec_exact encT decT \<Longrightarrow> codec_exact (encode_stream_item encT) (decode_stream_item decT)"
  unfolding codec_exact_def
proof (intro allI)
  fix bs x r
  assume h: "\<forall>bs x r. decT bs = Some (x, r) \<longleftrightarrow> bs = encT x @ r"
  show "decode_stream_item decT bs = Some (x, r) \<longleftrightarrow> bs = encode_stream_item encT x @ r"
    using h by (cases x) (auto simp: encode_stream_item_def decode_stream_item_def bind_eq_Some_conv decode_u64_iff)
qed

lemma stream_item_lazy_agree:
  "decode_stream_item decT bs = Some (x, r) \<Longrightarrow>
     stream_item_lazy_seq bs = Some (si_seq x) \<and>
     stream_item_lazy_payload decT bs = Some (si_payload x)"
  by (auto simp: decode_stream_item_def stream_item_lazy_seq_def stream_item_lazy_payload_def bind_eq_Some_conv decode_u64_iff)

lemma stream_item_lazy_reencode:
  "codec_exact encT decT \<Longrightarrow> encode_stream_item_lazy decT encT (encode_stream_item encT x @ r) = Inr (encode_stream_item encT x)"
  by (simp add: encode_stream_item_lazy_def encode_stream_item_def stream_item_lazy_seq_def stream_item_lazy_payload_def codec_exact_enc)

lemma stream_item_lazy_eq_enc:
  "codec_exact encT decT \<Longrightarrow> stream_item_lazy_eq decT (encode_stream_item encT x @ r1) (encode_stream_item encT y @ r2) = Inr (x = y)"
  by (cases x; cases y) (auto simp: stream_item_lazy_eq_def encode_stream_item_def stream_item_lazy_seq_def stream_item_lazy_payload_def codec_exact_enc split: bool.split)

lemma multi_stream_item_codec:
  "codec_exact encT decT \<Longrightarrow> codec_exact (encode_multi_stream_item encT) (decode_multi_stream_item decT)"
  unfolding codec_exact_def
proof (intro allI)
  fix bs x r
  assume h: "\<forall>bs x r. decT bs = Some (x, r) \<longleftrightarrow> bs = encT x @ r"
  show "decode_multi_stream_item decT bs = Some (x, r) \<longleftrightarrow> bs = encode_multi_stream_item encT x @ r"
    using h by (cases x) (auto simp: encode_multi_stream_item_def decode_multi_stream_item_def bind_eq_Some_conv decode_u64_iff multi_stream_id_iff)
qed

lemma multi_stream_item_lazy_agree:
  "decode_multi_stream_item decT bs = Some (x, r) \<Longrightarrow>
     multi_stream_item_lazy_seq bs = Some (msi_seq x) \<and>
     multi_stream_item_lazy_payload decT bs = Some (msi_payload x)"
  by (auto simp: decode_multi_stream_item_def multi_stream_item_lazy_stream_id_def multi_stream_item_lazy_seq_def multi_stream_item_lazy_payload_def bind_eq_Some_conv decode_u64_iff multi_stream_id_iff)

lemma multi_stream_item_lazy_reencode:
  "codec_exact encT decT \<Longrightarrow> encode_multi_stream_item_lazy decT encT (encode_multi_stream_item encT x @ r) = Inr (encode_multi_stream_item encT x)"
  by (simp add: encode_multi_stream_item_lazy_def encode_multi_stream_item_def multi_stream_item_lazy_stream_id_def multi_stream_item_lazy_seq_def multi_stream_item_lazy_payload_def codec_exact_enc multi_stream_id_lazy_reencode decode_multi_stream_id_lazy_def multi_stream_id_lazy_eq_enc)

text \<open>The generated PartialEq between two lazy MultiStreamItem views (which compares the nested MultiStreamId lazily, then seq, then payload) returns true exactly when the two encoded items are equal, and never panics on encoded items.\<close>
lemma multi_stream_item_lazy_eq_enc:
  "codec_exact encT decT \<Longrightarrow> multi_stream_item_lazy_eq decT (encode_multi_stream_item encT x @ r1) (encode_multi_stream_item encT y @ r2) = Inr (x = y)"
  by (cases x; cases y) (auto simp: multi_stream_item_lazy_eq_def encode_multi_stream_item_def multi_stream_item_lazy_stream_id_def multi_stream_item_lazy_seq_def multi_stream_item_lazy_payload_def codec_exact_enc multi_stream_id_lazy_reencode decode_multi_stream_id_lazy_def multi_stream_id_lazy_eq_enc split: bool.split)

lemma property_init_state_codec:
  "codec_exact encT decT \<Longrightarrow> codec_exact (encode_property_init_state encT) (decode_property_init_state decT)"
  unfolding codec_exact_def
proof (intro allI)
  fix bs x r
  assume h: "\<forall>bs x r. decT bs = Some (x, r) \<longleftrightarrow> bs = encT x @ r"
  show "decode_property_init_state decT bs = Some (x, r) \<longleftrightarrow> bs = encode_property_init_state encT x @ r"
    using h by (cases x) (auto simp: encode_property_init_state_def decode_property_init_state_def bind_eq_Some_conv )
qed

lemma property_init_state_lazy_agree:
  "decode_property_init_state decT bs = Some (x, r) \<Longrightarrow>
     property_init_state_lazy_value decT bs = Some (pis_value x)"
  by (auto simp: decode_property_init_state_def property_init_state_lazy_value_def bind_eq_Some_conv )

lemma property_init_state_lazy_reencode:
  "codec_exact encT decT \<Longrightarrow> encode_property_init_state_lazy decT encT (encode_property_init_state encT x @ r) = Inr (encode_property_init_state encT x)"
  by (simp add: encode_property_init_state_lazy_def encode_property_init_state_def property_init_state_lazy_value_def codec_exact_enc)

lemma property_init_state_lazy_eq_enc:
  "codec_exact encT decT \<Longrightarrow> property_init_state_lazy_eq decT (encode_property_init_state encT x @ r1) (encode_property_init_state encT y @ r2) = Inr (x = y)"
  by (cases x; cases y) (auto simp: property_init_state_lazy_eq_def encode_property_init_state_def property_init_state_lazy_value_def codec_exact_enc split: bool.split)

section \<open>Witnesses\<close>

theorem response_codec_witness:
  "decode_response decode_u32 (encode_response encode_u32 rs0 @ [1, 2]) = Some (rs0, [1, 2])"
  using codec_exactD [OF response_codec [OF codec_exact_u32]] by simp

theorem response_lazy_agree_witness:
  "response_lazy_request_id (encode_response encode_u32 rs0) = Some 7 \<and>
   response_lazy_payload decode_u32 (encode_response encode_u32 rs0) = Some 42"
proof -
  have "decode_response decode_u32 (encode_response encode_u32 rs0) = Some (rs0, [])"
    by code_simp
  from response_lazy_agree [OF this] show ?thesis by (simp add: rs0_def)
qed

theorem multi_stream_item_lazy_eq_enc_witness:
  "multi_stream_item_lazy_eq decode_u32 (encode_multi_stream_item encode_u32 msi0)
      (encode_multi_stream_item encode_u32 (msi0\<lparr>msi_seq := 6\<rparr>) @ [0]) = Inr False"
  using multi_stream_item_lazy_eq_enc [OF codec_exact_u32, of msi0 "[]" "msi0\<lparr>msi_seq := 6\<rparr>" "[0]"]
  by (simp add: msi0_def)

theorem request_lazy_reencode_witness:
  "encode_request_lazy decode_u32 encode_u32
     (encode_request encode_u32 \<lparr>rq_request_id = 1, rq_worker = 2, rq_payload = 3\<rparr> @ [9])
   = Inr (encode_request encode_u32 \<lparr>rq_request_id = 1, rq_worker = 2, rq_payload = 3\<rparr>)"
  using request_lazy_reencode [OF codec_exact_u32] by simp

end
