(* ===== verification/Slab.thy ===== *)
theory Slab
  imports Prelude
begin

text \<open>
  The \<open>slab\<close> crate's \<open>Slab<T>\<close>, which the request tracker of std-modrpc uses to
  allocate caller-local request ids.  The crate is a dependency and not part of the
  repository, so its operations are modelled from its documented behaviour (a vector of
  entries, each occupied or vacant, the vacant ones threaded into a LIFO free list
  starting at \<open>next\<close>): \<open>insert\<close> reuses the most recently freed key, \<open>remove\<close>
  panics with "invalid key" on a vacant or out-of-range key, \<open>get\<close> returns
  \<open>None\<close> there and indexing panics.

  The well-formedness invariant \<open>slab_wf\<close> says that the free list from \<open>next\<close>
  is a chain of distinct vacant positions ending at the end of the vector and covering
  every vacant position, and that \<open>len\<close> counts the occupied ones.  \<open>slab_abs\<close>
  reads a slab as the finite map from keys to values; the lemmas of this theory show that
  every operation preserves the invariant and implements the corresponding map operation,
  with \<open>insert\<close> always returning a key that is not in use.
\<close>

datatype 'a slab_entry = Vacant nat | Occupied 'a

record 'a slab =
  sl_entries :: "'a slab_entry list"
  sl_len :: nat
  sl_next :: nat

datatype slab_error = InvalidKeyPanic

definition slab_new :: "'a slab" where
  "slab_new = \<lparr>sl_entries = [], sl_len = 0, sl_next = 0\<rparr>"

fun is_occupied :: "'a slab_entry \<Rightarrow> bool" where
  "is_occupied (Occupied _) = True"
| "is_occupied (Vacant _) = False"

definition slab_get :: "nat \<Rightarrow> 'a slab \<Rightarrow> 'a option" where
  "slab_get k s = (if k < length (sl_entries s)
      then (case sl_entries s ! k of Occupied v \<Rightarrow> Some v | Vacant _ \<Rightarrow> None) else None)"

definition slab_index :: "nat \<Rightarrow> 'a slab \<Rightarrow> slab_error + 'a" where
  "slab_index k s = (case slab_get k s of Some v \<Rightarrow> Inr v | None \<Rightarrow> Inl InvalidKeyPanic)"

text \<open>\<open>insert_at\<close>: a key equal to the vector length pushes; otherwise the entry there must
  be vacant (the crate's \<open>unreachable!()\<close> otherwise) and its link becomes \<open>next\<close>.\<close>

definition slab_insert :: "'a \<Rightarrow> 'a slab \<Rightarrow> slab_error + (nat \<times> 'a slab)" where
  "slab_insert v s = (let key = sl_next s; es = sl_entries s in
     if key = length es
     then Inr (key, s\<lparr>sl_entries := es @ [Occupied v], sl_len := Suc (sl_len s), sl_next := Suc key\<rparr>)
     else if key < length es then
       (case es ! key of
          Vacant n \<Rightarrow> Inr (key, s\<lparr>sl_entries := es[key := Occupied v], sl_len := Suc (sl_len s), sl_next := n\<rparr>)
        | Occupied _ \<Rightarrow> Inl InvalidKeyPanic)
     else Inl InvalidKeyPanic)"

definition slab_try_remove :: "nat \<Rightarrow> 'a slab \<Rightarrow> 'a option \<times> 'a slab" where
  "slab_try_remove k s = (if k < length (sl_entries s) then
      (case sl_entries s ! k of
         Occupied v \<Rightarrow> (Some v, s\<lparr>sl_entries := (sl_entries s)[k := Vacant (sl_next s)],
                                   sl_len := sl_len s - 1, sl_next := k\<rparr>)
       | Vacant _ \<Rightarrow> (None, s))
    else (None, s))"

definition slab_remove :: "nat \<Rightarrow> 'a slab \<Rightarrow> slab_error + ('a \<times> 'a slab)" where
  "slab_remove k s = (case slab_try_remove k s of
      (Some v, s') \<Rightarrow> Inr (v, s') | (None, _) \<Rightarrow> Inl InvalidKeyPanic)"

text \<open>Interior mutation of an occupied entry (the \<open>Cell\<close>s of an entry reached through
  \<open>get\<close>); a vacant key is left alone.\<close>

definition slab_modify :: "nat \<Rightarrow> ('a \<Rightarrow> 'a) \<Rightarrow> 'a slab \<Rightarrow> 'a slab" where
  "slab_modify k f s = (if k < length (sl_entries s) then
      (case sl_entries s ! k of
         Occupied v \<Rightarrow> s\<lparr>sl_entries := (sl_entries s)[k := Occupied (f v)]\<rparr>
       | Vacant _ \<Rightarrow> s)
    else s)"

section \<open>Invariant and abstraction\<close>

fun free_chain :: "'a slab_entry list \<Rightarrow> nat \<Rightarrow> nat \<Rightarrow> nat list option" where
  "free_chain es k 0 = None"
| "free_chain es k (Suc f) =
     (if k = length es then Some []
      else if k < length es then
        (case es ! k of Vacant n \<Rightarrow> map_option (Cons k) (free_chain es n f) | Occupied _ \<Rightarrow> None)
      else None)"

definition vacant_keys :: "'a slab_entry list \<Rightarrow> nat set" where
  "vacant_keys es = {i. i < length es \<and> \<not> is_occupied (es ! i)}"

definition slab_wf :: "'a slab \<Rightarrow> bool" where
  "slab_wf s \<longleftrightarrow> sl_len s = length (filter is_occupied (sl_entries s)) \<and>
     (case free_chain (sl_entries s) (sl_next s) (Suc (length (sl_entries s))) of
        Some fl \<Rightarrow> distinct fl \<and> set fl = vacant_keys (sl_entries s)
      | None \<Rightarrow> False)"

definition slab_abs :: "'a slab \<Rightarrow> nat \<Rightarrow> 'a option" where
  "slab_abs s = (\<lambda>k. slab_get k s)"

section \<open>Free-list lemmas\<close>

lemma free_chain_first:
  "free_chain es k (Suc f) = Some fl \<Longrightarrow> k \<noteq> length es \<Longrightarrow>
     \<exists>n fl'. k < length es \<and> es ! k = Vacant n \<and> fl = k # fl' \<and> free_chain es n f = Some fl'"
  by (auto split: if_splits slab_entry.splits)

lemma free_chain_Suc:
  "free_chain es k f = Some fl \<Longrightarrow> free_chain es k (Suc f) = Some fl"
proof (induction f arbitrary: k fl)
  case 0
  then show ?case by simp
next
  case (Suc f)
  show ?case
  proof (cases "k = length es")
    case True
    with Suc.prems show ?thesis by simp
  next
    case False
    from free_chain_first [OF Suc.prems False] obtain n fl' where
      "k < length es" "es ! k = Vacant n" "fl = k # fl'" "free_chain es n f = Some fl'"
      by blast
    moreover from Suc.IH [OF this(4)] have "free_chain es n (Suc f) = Some fl'" .
    ultimately show ?thesis by simp
  qed
qed

lemma free_chain_mono:
  "free_chain es k f = Some fl \<Longrightarrow> f \<le> f' \<Longrightarrow> free_chain es k f' = Some fl"
proof -
  assume h: "free_chain es k f = Some fl" and le: "f \<le> f'"
  have "free_chain es k (f + d) = Some fl" for d
    by (induction d) (simp_all only: add_0_right add_Suc_right h free_chain_Suc)
  from this [of "f' - f"] le show ?thesis by simp
qed

lemma free_chain_vacant:
  "free_chain es k f = Some fl \<Longrightarrow> set fl \<subseteq> vacant_keys es"
proof (induction f arbitrary: k fl)
  case 0
  then show ?case by simp
next
  case (Suc f)
  show ?case
  proof (cases "k = length es")
    case True
    with Suc.prems show ?thesis by simp
  next
    case False
    from free_chain_first [OF Suc.prems False] obtain n fl' where
      "k < length es" "es ! k = Vacant n" "fl = k # fl'" "free_chain es n f = Some fl'"
      by blast
    moreover from Suc.IH [OF this(4)] have "set fl' \<subseteq> vacant_keys es" .
    ultimately show ?thesis by (simp add: vacant_keys_def)
  qed
qed

lemma free_chain_update:
  "free_chain es k f = Some fl \<Longrightarrow> p \<notin> set fl \<Longrightarrow> p < length es \<Longrightarrow>
     free_chain (es[p := e]) k f = Some fl"
proof (induction f arbitrary: k fl)
  case 0
  then show ?case by simp
next
  case (Suc f)
  show ?case
  proof (cases "k = length es")
    case True
    with Suc.prems show ?thesis by simp
  next
    case False
    from free_chain_first [OF Suc.prems(1) False] obtain n fl' where
      "k < length es" "es ! k = Vacant n" "fl = k # fl'" "free_chain es n f = Some fl'"
      by blast
    moreover from Suc.IH [OF this(4)] Suc.prems(2,3) this(3)
    have "free_chain (es[p := e]) n f = Some fl'" by simp
    ultimately show ?thesis using Suc.prems(2) by simp
  qed
qed

lemma free_chain_length:
  "free_chain es k f = Some fl \<Longrightarrow> free_chain es k (Suc (length fl)) = Some fl"
proof (induction f arbitrary: k fl)
  case 0
  then show ?case by simp
next
  case (Suc f)
  show ?case
  proof (cases "k = length es")
    case True
    with Suc.prems show ?thesis by simp
  next
    case False
    from free_chain_first [OF Suc.prems False] obtain n fl' where
      "k < length es" "es ! k = Vacant n" "fl = k # fl'" "free_chain es n f = Some fl'"
      by blast
    moreover from Suc.IH [OF this(4)] have "free_chain es n (Suc (length fl')) = Some fl'" .
    ultimately show ?thesis by simp
  qed
qed

lemma distinct_length_bound:
  "distinct xs \<Longrightarrow> set xs \<subseteq> A \<Longrightarrow> finite A \<Longrightarrow> length xs \<le> card A"
  by (metis card_mono distinct_card)

lemma vacant_keys_update_occ:
  "p < length es \<Longrightarrow> vacant_keys (es[p := Occupied v]) = vacant_keys es - {p}"
  by (auto simp: vacant_keys_def nth_list_update)

lemma vacant_keys_update_vac:
  "p < length es \<Longrightarrow> vacant_keys (es[p := Vacant n]) = insert p (vacant_keys es)"
  by (auto simp: vacant_keys_def nth_list_update)

lemma vacant_keys_push:
  "vacant_keys (es @ [Occupied v]) = vacant_keys es"
  by (auto simp: vacant_keys_def nth_append)

lemma vacant_keys_bound: "vacant_keys es \<subseteq> {..<length es}"
  by (auto simp: vacant_keys_def)

lemma length_filter_list_update:
  "p < length xs \<Longrightarrow> length (filter P (xs[p := x])) + (if P (xs ! p) then 1 else 0) =
     length (filter P xs) + (if P x then 1 else 0)"
proof (induction xs arbitrary: p)
  case Nil
  then show ?case by simp
next
  case (Cons y ys)
  show ?case
  proof (cases p)
    case 0
    then show ?thesis by simp
  next
    case (Suc q)
    with Cons.prems have "q < length ys" by simp
    from Cons.IH [OF this] Suc show ?thesis by simp
  qed
qed

section \<open>The slab implements a map\<close>

lemma slab_wfD:
  assumes "slab_wf s"
  obtains fl where "free_chain (sl_entries s) (sl_next s) (Suc (length (sl_entries s))) = Some fl"
    "distinct fl" "set fl = vacant_keys (sl_entries s)"
    "sl_len s = length (filter is_occupied (sl_entries s))"
  using assms by (auto simp: slab_wf_def split: option.splits)

lemma slab_wfI:
  "free_chain (sl_entries s) (sl_next s) (Suc (length (sl_entries s))) = Some fl \<Longrightarrow>
   distinct fl \<Longrightarrow> set fl = vacant_keys (sl_entries s) \<Longrightarrow>
   sl_len s = length (filter is_occupied (sl_entries s)) \<Longrightarrow> slab_wf s"
  by (simp add: slab_wf_def)

lemma slab_get_Some:
  "slab_get k s = Some v \<longleftrightarrow> k < length (sl_entries s) \<and> sl_entries s ! k = Occupied v"
  by (auto simp: slab_get_def split: slab_entry.splits)

lemma slab_new_wf: "slab_wf slab_new" "slab_abs slab_new = Map.empty"
  by (simp_all add: slab_wf_def slab_new_def vacant_keys_def slab_abs_def slab_get_def fun_eq_iff)

lemma slab_insert_correct:
  assumes wf: "slab_wf s"
  shows "\<exists>k s'. slab_insert v s = Inr (k, s') \<and> slab_abs s k = None \<and> slab_wf s' \<and>
           slab_abs s' = (slab_abs s)(k \<mapsto> v) \<and> k \<le> length (sl_entries s)"
proof -
  let ?es = "sl_entries s" and ?L = "length (sl_entries s)"
  from wf obtain fl where c: "free_chain ?es (sl_next s) (Suc ?L) = Some fl"
      and d: "distinct fl" and vk: "set fl = vacant_keys ?es"
      and len: "sl_len s = length (filter is_occupied ?es)"
    by (rule slab_wfD)
  show ?thesis
  proof (cases "sl_next s = ?L")
    case True
    with c have "fl = []" by simp
    with vk have "vacant_keys (?es @ [Occupied v]) = {}" by (simp add: vacant_keys_push)
    let ?s' = "s\<lparr>sl_entries := ?es @ [Occupied v], sl_len := Suc (sl_len s), sl_next := Suc ?L\<rparr>"
    have ins: "slab_insert v s = Inr (?L, ?s')"
      using True by (simp add: slab_insert_def Let_def)
    have "slab_wf ?s'"
      by (rule slab_wfI [of _ "[]"]) (use \<open>vacant_keys (?es @ [Occupied v]) = {}\<close> len in simp_all)
    moreover have "slab_abs ?s' = (slab_abs s)(?L \<mapsto> v)"
      by (auto simp: slab_abs_def slab_get_def nth_append fun_eq_iff)
    moreover have "slab_abs s ?L = None"
      by (simp add: slab_abs_def slab_get_def)
    ultimately show ?thesis using ins by auto
  next
    case False
    from free_chain_first [OF c False] obtain n fl' where
      lt: "sl_next s < ?L" and e: "?es ! sl_next s = Vacant n" and fl: "fl = sl_next s # fl'"
      and c': "free_chain ?es n ?L = Some fl'"
      by blast
    from d fl have nin: "sl_next s \<notin> set fl'" and d': "distinct fl'" by simp_all
    have "free_chain (?es[sl_next s := Occupied v]) n ?L = Some fl'"
      using free_chain_update [OF c' nin lt] .
    then have c'': "free_chain (?es[sl_next s := Occupied v]) n (Suc ?L) = Some fl'"
      by (rule free_chain_mono) simp
    have vk': "set fl' = vacant_keys (?es[sl_next s := Occupied v])"
      using vk fl nin lt by (auto simp: vacant_keys_update_occ)
    have cnt: "length (filter is_occupied (?es[sl_next s := Occupied v])) = Suc (sl_len s)"
      using length_filter_list_update [OF lt, of is_occupied "Occupied v"] e len by simp
    have abs: "slab_abs s (sl_next s) = None"
      using e by (simp add: slab_abs_def slab_get_def)
    let ?s' = "s\<lparr>sl_entries := ?es[sl_next s := Occupied v], sl_len := Suc (sl_len s), sl_next := n\<rparr>"
    have ins: "slab_insert v s = Inr (sl_next s, ?s')"
      using lt e False by (simp add: slab_insert_def Let_def)
    have "slab_wf ?s'"
      by (rule slab_wfI [of _ fl']) (use c'' d' vk' cnt in simp_all)
    moreover have "slab_abs ?s' = (slab_abs s)(sl_next s \<mapsto> v)"
      using lt by (auto simp: slab_abs_def slab_get_def nth_list_update fun_eq_iff)
    ultimately show ?thesis using ins abs lt by auto
  qed
qed

lemma slab_remove_correct:
  assumes wf: "slab_wf s" and get: "slab_abs s k = Some v"
  shows "\<exists>s'. slab_remove k s = Inr (v, s') \<and> slab_wf s' \<and>
           slab_abs s' = (slab_abs s)(k := None) \<and> sl_next s' = k"
proof -
  let ?es = "sl_entries s" and ?L = "length (sl_entries s)"
  from wf obtain fl where c: "free_chain ?es (sl_next s) (Suc ?L) = Some fl"
      and d: "distinct fl" and vk: "set fl = vacant_keys ?es"
      and len: "sl_len s = length (filter is_occupied ?es)"
    by (rule slab_wfD)
  from get have lt: "k < ?L" and e: "?es ! k = Occupied v"
    by (simp_all add: slab_abs_def slab_get_Some)
  let ?es' = "?es[k := Vacant (sl_next s)]"
  have nin: "k \<notin> set fl" using vk e by (simp add: vacant_keys_def)
  have sub: "set fl \<subseteq> {..<?L} - {k}" using vk nin vacant_keys_bound by blast
  have "length fl \<le> card ({..<?L} - {k})"
    using distinct_length_bound [OF d sub] by simp
  with lt have short: "Suc (length fl) \<le> ?L" by simp
  have "free_chain ?es' (sl_next s) (Suc (length fl)) = Some fl"
    using free_chain_update [OF free_chain_length [OF c] nin lt] .
  then have "free_chain ?es' (sl_next s) ?L = Some fl"
    using short by (rule free_chain_mono)
  then have c': "free_chain ?es' k (Suc ?L) = Some (k # fl)"
    using lt by simp
  have vk': "set (k # fl) = vacant_keys ?es'"
    using vk lt by (simp add: vacant_keys_update_vac)
  have cnt: "length (filter is_occupied ?es') = sl_len s - 1"
    using length_filter_list_update [OF lt, of is_occupied "Vacant (sl_next s)"] e len by simp
  let ?s' = "s\<lparr>sl_entries := ?es', sl_len := sl_len s - 1, sl_next := k\<rparr>"
  have rem: "slab_remove k s = Inr (v, ?s')"
    using lt e by (simp add: slab_remove_def slab_try_remove_def)
  have "slab_wf ?s'"
    by (rule slab_wfI [of _ "k # fl"]) (use c' d nin vk' cnt in simp_all)
  moreover have "slab_abs ?s' = (slab_abs s)(k := None)"
    using lt by (auto simp: slab_abs_def slab_get_def nth_list_update fun_eq_iff)
  ultimately show ?thesis using rem by simp
qed

lemma slab_remove_vacant:
  "slab_abs s k = None \<Longrightarrow> slab_remove k s = Inl InvalidKeyPanic"
  by (auto simp: slab_abs_def slab_get_def slab_remove_def slab_try_remove_def split: slab_entry.splits if_splits)

lemma slab_modify_correct:
  assumes wf: "slab_wf s"
  shows "slab_wf (slab_modify k f s) \<and>
         slab_abs (slab_modify k f s) = (slab_abs s)(k := map_option f (slab_abs s k))"
proof (cases "slab_abs s k")
  case None
  then have "slab_modify k f s = s"
    by (auto simp: slab_modify_def slab_abs_def slab_get_def split: slab_entry.splits)
  with wf None show ?thesis by (simp add: fun_eq_iff)
next
  case (Some v)
  let ?es = "sl_entries s"
  from Some have lt: "k < length ?es" and e: "?es ! k = Occupied v"
    by (simp_all add: slab_abs_def slab_get_Some)
  from wf obtain fl where c: "free_chain ?es (sl_next s) (Suc (length ?es)) = Some fl"
      and d: "distinct fl" and vk: "set fl = vacant_keys ?es"
      and len: "sl_len s = length (filter is_occupied ?es)"
    by (rule slab_wfD)
  have nin: "k \<notin> set fl" using vk e by (simp add: vacant_keys_def)
  have m: "slab_modify k f s = s\<lparr>sl_entries := ?es[k := Occupied (f v)]\<rparr>"
    using lt e by (simp add: slab_modify_def)
  have vk': "vacant_keys (?es[k := Occupied (f v)]) = vacant_keys ?es"
    using lt nin vk by (simp add: vacant_keys_update_occ)
  have cnt: "length (filter is_occupied (?es[k := Occupied (f v)])) = sl_len s"
    using length_filter_list_update [OF lt, of is_occupied "Occupied (f v)"] e len by simp
  have "slab_wf (s\<lparr>sl_entries := ?es[k := Occupied (f v)]\<rparr>)"
    by (rule slab_wfI [of _ fl]) (use free_chain_update [OF c nin lt] d vk vk' cnt in simp_all)
  moreover have "slab_abs (s\<lparr>sl_entries := ?es[k := Occupied (f v)]\<rparr>) = (slab_abs s)(k \<mapsto> f v)"
    using lt by (auto simp: slab_abs_def slab_get_def nth_list_update fun_eq_iff)
  ultimately show ?thesis using m Some by simp
qed

lemma slab_insert_after_remove:
  "slab_remove k s = Inr (v, s') \<Longrightarrow> \<exists>s''. slab_insert w s' = Inr (k, s'')"
  by (auto simp: slab_remove_def slab_try_remove_def slab_insert_def Let_def
           split: if_splits slab_entry.splits option.splits prod.splits)

end
