(* ===== verification/RequestTracker.thy ===== *)
theory RequestTracker
  imports Slab Proto Wire "HOL-Library.Multiset"
begin

text \<open>
  The request/response layer of std-modrpc: \<open>request_tracker.rs\<close> (the per-worker
  caller-await table in a slab and the refcounted subscription table), the client side of
  \<open>role_impls/request_client.rs\<close> (\<open>call\<close>, \<open>ResponseWaiter::wait\<close> and the
  response routing closure of \<open>build\<close>) and the reply path of
  \<open>role_impls/request_server.rs\<close>.

  The tracker is one record threaded through every operation.  Packets are byte strings
  (20-byte \<open>TransmitPacket\<close> header, then the body); a waker is an opaque number and
  waking it, invoking a subscription callback and notifying the waiters of a subscription
  are effects returned in a list.  The callbacks the code calls synchronously are user
  closures; in the crate the only one (from \<open>RequestClient::subscribe\<close>) spawns a task,
  so it is an effect too.  Panics (slab "invalid key", a slice below the header length,
  a missing subscription entry, an \<open>unwrap\<close> of a failed decode) are \<open>Inl\<close> values.
\<close>

type_synonym packet = bytes

record pending_request_state =
  prs_response :: "packet option"
  prs_waker :: "nat option"

type_synonym sub_key = "u32 \<times> u64 \<times> u16 \<times> u32"

record sub_state =
  ss_response :: "packet option"
  ss_pending_count :: u32

record request_tracker =
  rt_pending_requests :: "pending_request_state slab"
  rt_request_subscriptions :: "((u32 \<times> u32) \<times> nat list) list"
  rt_subscription_pending_requests :: "(sub_key \<times> sub_state) list"

datatype rt_effect =
    Wake nat
  | InvokeCallback nat packet sub_key
  | NotifyAll sub_key

datatype rt_error =
    SlabKeyPanic
  | SliceIndexPanic
  | MissingSubscriptionStatePanic
  | SubscriptionIndexPanic
  | ResponseUnwrapPanic

section \<open>RequestTracker\<close>

definition rt_new :: request_tracker where
  "rt_new = \<lparr>rt_pending_requests = slab_new, rt_request_subscriptions = [],
             rt_subscription_pending_requests = []\<rparr>"

definition rt_subscribe :: "u32 \<Rightarrow> u32 \<Rightarrow> nat \<Rightarrow> request_tracker \<Rightarrow> request_tracker" where
  "rt_subscribe plane_id request_topic callback st =
     (let subs = rt_request_subscriptions st;
          cbs = (case map_of subs (plane_id, request_topic) of None \<Rightarrow> [] | Some cbs \<Rightarrow> cbs)
      in st\<lparr>rt_request_subscriptions := AList.update (plane_id, request_topic) (cbs @ [callback]) subs\<rparr>)"

definition subscription_start_request ::
    "u32 \<Rightarrow> u64 \<Rightarrow> u16 \<Rightarrow> u32 \<Rightarrow> request_tracker \<Rightarrow> request_tracker \<times> sub_key" where
  "subscription_start_request plane_id requester requester_worker request_id st =
     (let key = (plane_id, requester, requester_worker, request_id);
          tbl = rt_subscription_pending_requests st;
          s = (case map_of tbl key of
                 None \<Rightarrow> \<lparr>ss_response = None, ss_pending_count = 0\<rparr>
               | Some s \<Rightarrow> s)
      in (st\<lparr>rt_subscription_pending_requests :=
             AList.update key (s\<lparr>ss_pending_count := ss_pending_count s + 1\<rparr>) tbl\<rparr>, key))"

text \<open>The loop of \<open>handle_request\<close> over the callbacks of the topic: each gets the
  packet and a fresh \<open>PendingRequestSubscription\<close> handle.\<close>

fun start_callbacks ::
    "u32 \<Rightarrow> u64 \<Rightarrow> u16 \<Rightarrow> u32 \<Rightarrow> packet \<Rightarrow> nat list \<Rightarrow> request_tracker \<Rightarrow> request_tracker \<times> rt_effect list" where
  "start_callbacks plane_id source worker request_id pkt [] st = (st, [])"
| "start_callbacks plane_id source worker request_id pkt (cb # cbs) st =
     (let (st1, key) = subscription_start_request plane_id source worker request_id st;
          (st2, effs) = start_callbacks plane_id source worker request_id pkt cbs st1
      in (st2, InvokeCallback cb pkt key # effs))"

definition handle_request ::
    "nat \<Rightarrow> u32 \<Rightarrow> u32 \<Rightarrow> u64 \<Rightarrow> packet \<Rightarrow> request_tracker \<Rightarrow> rt_error + request_tracker \<times> rt_effect list" where
  "handle_request tb plane_id topic source pkt st =
     (if length pkt < transmit_packet_base_len then Inl SliceIndexPanic else
      case decode_request_lazy tb (drop transmit_packet_base_len pkt) of
        None \<Rightarrow> Inr (st, [])
      | Some (request, _) \<Rightarrow>
          (case request_lazy_request_id request of
             None \<Rightarrow> Inr (st, [])
           | Some request_id \<Rightarrow>
              (case request_lazy_worker request of
                 None \<Rightarrow> Inr (st, [])
               | Some source_worker \<Rightarrow>
                  (case map_of (rt_request_subscriptions st) (plane_id, topic) of
                     None \<Rightarrow> Inr (st, [])
                   | Some callbacks \<Rightarrow>
                       Inr (start_callbacks plane_id source source_worker request_id pkt callbacks st)))))"

definition client_start_request :: "request_tracker \<Rightarrow> rt_error + u32 \<times> request_tracker" where
  "client_start_request st =
     (case slab_insert \<lparr>prs_response = None, prs_waker = None\<rparr> (rt_pending_requests st) of
        Inl _ \<Rightarrow> Inl SlabKeyPanic
      | Inr (key, sl) \<Rightarrow> Inr (of_nat key, st\<lparr>rt_pending_requests := sl\<rparr>))"

definition client_finish_request :: "u32 \<Rightarrow> packet \<Rightarrow> request_tracker \<Rightarrow> request_tracker \<times> rt_effect list" where
  "client_finish_request request_id response_packet st =
     (case slab_get (unat request_id) (rt_pending_requests st) of
        None \<Rightarrow> (st, [])
      | Some pr \<Rightarrow>
          (st\<lparr>rt_pending_requests := slab_modify (unat request_id)
                (\<lambda>pr. pr\<lparr>prs_response := Some response_packet, prs_waker := None\<rparr>) (rt_pending_requests st)\<rparr>,
           (case prs_waker pr of None \<Rightarrow> [] | Some w \<Rightarrow> [Wake w])))"

definition subscription_finish_request ::
    "u32 \<Rightarrow> u64 \<Rightarrow> u16 \<Rightarrow> u32 \<Rightarrow> packet \<Rightarrow> request_tracker \<Rightarrow> request_tracker \<times> rt_effect list" where
  "subscription_finish_request plane_id requester requester_worker request_id response_packet st =
     (let key = (plane_id, requester, requester_worker, request_id);
          tbl = rt_subscription_pending_requests st
      in case map_of tbl key of
           None \<Rightarrow> (st, [])
         | Some s \<Rightarrow> (st\<lparr>rt_subscription_pending_requests :=
                          AList.update key (s\<lparr>ss_response := Some response_packet\<rparr>) tbl\<rparr>,
                        [NotifyAll key]))"

definition handle_response ::
    "nat \<Rightarrow> u32 \<Rightarrow> u64 \<Rightarrow> u16 \<Rightarrow> packet \<Rightarrow> request_tracker \<Rightarrow> rt_error + request_tracker \<times> rt_effect list" where
  "handle_response tb plane_id local_addr local_worker pkt st =
     (if length pkt < transmit_packet_base_len then Inl SliceIndexPanic else
      case decode_response_lazy tb (drop transmit_packet_base_len pkt) of
        None \<Rightarrow> Inr (st, [])
      | Some (response, _) \<Rightarrow>
          (case response_lazy_requester response of
             None \<Rightarrow> Inr (st, [])
           | Some requester \<Rightarrow>
              (case response_lazy_requester_worker response of
                 None \<Rightarrow> Inr (st, [])
               | Some requester_worker \<Rightarrow>
                  (case response_lazy_request_id response of
                     None \<Rightarrow> Inr (st, [])
                   | Some request_id \<Rightarrow>
                      (let (st1, e1) = (if requester = local_addr \<and> requester_worker = local_worker
                                         then client_finish_request request_id pkt st else (st, []));
                           (st2, e2) = subscription_finish_request plane_id requester requester_worker
                                         request_id pkt st1
                       in Inr (st2, e1 @ e2))))))"

text \<open>\<open>PendingRequest\<close>: its \<open>poll\<close> indexes the slab (a panic on a vacant key) and
  either takes the response or stores the waker; its \<open>Drop\<close> frees the slot.\<close>

definition pending_request_poll ::
    "u32 \<Rightarrow> nat \<Rightarrow> request_tracker \<Rightarrow> rt_error + packet option \<times> request_tracker" where
  "pending_request_poll request_id waker st =
     (case slab_index (unat request_id) (rt_pending_requests st) of
        Inl _ \<Rightarrow> Inl SlabKeyPanic
      | Inr pr \<Rightarrow>
          (case prs_response pr of
             Some p \<Rightarrow> Inr (Some p, st\<lparr>rt_pending_requests := slab_modify (unat request_id)
                                          (\<lambda>pr. pr\<lparr>prs_response := None\<rparr>) (rt_pending_requests st)\<rparr>)
           | None \<Rightarrow> Inr (None, st\<lparr>rt_pending_requests := slab_modify (unat request_id)
                                          (\<lambda>pr. pr\<lparr>prs_waker := Some waker\<rparr>) (rt_pending_requests st)\<rparr>)))"

definition pending_request_drop :: "u32 \<Rightarrow> request_tracker \<Rightarrow> rt_error + request_tracker" where
  "pending_request_drop request_id st =
     (case slab_remove (unat request_id) (rt_pending_requests st) of
        Inl _ \<Rightarrow> Inl SlabKeyPanic
      | Inr (_, sl) \<Rightarrow> Inr (st\<lparr>rt_pending_requests := sl\<rparr>))"

text \<open>\<open>PendingRequestSubscription\<close>: \<open>wait\<close> indexes the table (a panic on a
  missing key) and is ready once the response is set; \<open>Drop\<close> decrements the count
  (\<open>u32\<close>, wrapping as in a release build) and removes the entry when it was 1.\<close>

definition subscription_wait_poll :: "sub_key \<Rightarrow> request_tracker \<Rightarrow> rt_error + packet option" where
  "subscription_wait_poll key st =
     (case map_of (rt_subscription_pending_requests st) key of
        None \<Rightarrow> Inl SubscriptionIndexPanic
      | Some s \<Rightarrow> Inr (ss_response s))"

definition subscription_drop :: "sub_key \<Rightarrow> request_tracker \<Rightarrow> rt_error + request_tracker" where
  "subscription_drop key st =
     (let tbl = rt_subscription_pending_requests st in
      case map_of tbl key of
        None \<Rightarrow> Inl MissingSubscriptionStatePanic
      | Some s \<Rightarrow>
          (let c = ss_pending_count s in
           if c = 1 then Inr (st\<lparr>rt_subscription_pending_requests := AList.delete key tbl\<rparr>)
           else Inr (st\<lparr>rt_subscription_pending_requests :=
                        AList.update key (s\<lparr>ss_pending_count := c - 1\<rparr>) tbl\<rparr>)))"

section \<open>RequestClient and RequestServer\<close>

text \<open>\<open>RequestClient::call\<close> up to the send: allocate an id and encode the request
  (its packet body; the header is written by the event sender).\<close>

definition call_send ::
    "('t \<Rightarrow> bytes) \<Rightarrow> u16 \<Rightarrow> 't \<Rightarrow> request_tracker \<Rightarrow> rt_error + u32 \<times> bytes \<times> request_tracker" where
  "call_send encT worker_id payload st =
     (case client_start_request st of
        Inl e \<Rightarrow> Inl e
      | Inr (request_id, st1) \<Rightarrow>
          Inr (request_id, encode_request encT
                 \<lparr>rq_request_id = request_id, rq_worker = worker_id, rq_payload = payload\<rparr>, st1))"

text \<open>The rest of \<open>call\<close>: one poll of the pending request; when it is ready the
  future is consumed (its slot freed) and the response body is decoded with
  \<open>unwrap\<close>.\<close>

definition call_complete ::
    "(bytes \<Rightarrow> ('t \<times> bytes) option) \<Rightarrow> u32 \<Rightarrow> nat \<Rightarrow> request_tracker \<Rightarrow> rt_error + 't option \<times> request_tracker" where
  "call_complete decT request_id waker st =
     (case pending_request_poll request_id waker st of
        Inl e \<Rightarrow> Inl e
      | Inr (None, st1) \<Rightarrow> Inr (None, st1)
      | Inr (Some response_buf, st1) \<Rightarrow>
          (case pending_request_drop request_id st1 of
             Inl e \<Rightarrow> Inl e
           | Inr st2 \<Rightarrow>
               (case decode_response decT (drop transmit_packet_base_len response_buf) of
                  None \<Rightarrow> Inl ResponseUnwrapPanic
                | Some (response, _) \<Rightarrow> Inr (Some (rs_payload response), st2))))"

text \<open>\<open>ResponseWaiter::wait\<close>: wait for the subscription's response, drop the
  subscription and decode, a decode failure being an \<open>Err\<close> value.\<close>

definition response_waiter_wait ::
    "(bytes \<Rightarrow> ('t \<times> bytes) option) \<Rightarrow> sub_key \<Rightarrow> request_tracker \<Rightarrow> rt_error + (unit + 't) option \<times> request_tracker" where
  "response_waiter_wait decT key st =
     (case subscription_wait_poll key st of
        Inl e \<Rightarrow> Inl e
      | Inr None \<Rightarrow> Inr (None, st)
      | Inr (Some response_packet) \<Rightarrow>
          (case subscription_drop key st of
             Inl e \<Rightarrow> Inl e
           | Inr st1 \<Rightarrow>
               (case decode_response decT (drop transmit_packet_base_len response_packet) of
                  None \<Rightarrow> Inr (Some (Inl ()), st1)
                | Some (response, _) \<Rightarrow> Inr (Some (Inr (rs_payload response)), st1))))"

text \<open>The \<open>route_to_worker\<close> closure installed on the response topic by
  \<open>RequestClientBuilder::build\<close>.\<close>

definition response_route :: "nat \<Rightarrow> u64 \<Rightarrow> u16 \<Rightarrow> packet \<Rightarrow> rt_error + u16 option" where
  "response_route tb local_addr local_worker_id pkt =
     (if length pkt < transmit_packet_base_len then Inl SliceIndexPanic else
      case decode_response_lazy tb (drop transmit_packet_base_len pkt) of
        None \<Rightarrow> Inr None
      | Some (response, _) \<Rightarrow>
          (case response_lazy_requester response of
             None \<Rightarrow> Inr None
           | Some requester \<Rightarrow>
              (case response_lazy_requester_worker response of
                 None \<Rightarrow> Inr None
               | Some requester_worker \<Rightarrow>
                   if requester = local_addr \<and> requester_worker \<noteq> local_worker_id
                   then Inr (Some requester_worker) else Inr None)))"

text \<open>\<open>RequestServerBuilder::build\<close>: the queued handler of a request body from
  \<open>source\<close>; the response it sends (or nothing when a field does not decode).\<close>

definition server_reply ::
    "(bytes \<Rightarrow> ('q \<times> bytes) option) \<Rightarrow> (endpoint_addr \<Rightarrow> 'q \<Rightarrow> 'r) \<Rightarrow> endpoint_addr \<Rightarrow> bytes \<Rightarrow> 'r response option" where
  "server_reply decQ handler source request =
     (case request_lazy_request_id request of
        None \<Rightarrow> None
      | Some request_id \<Rightarrow>
          (case request_lazy_worker request of
             None \<Rightarrow> None
           | Some requester_worker \<Rightarrow>
               (case request_lazy_payload decQ request of
                  None \<Rightarrow> None
                | Some payload \<Rightarrow>
                    Some \<lparr>rs_request_id = request_id, rs_requester = endpoint source,
                          rs_requester_worker = requester_worker, rs_payload = handler source payload\<rparr>)))"

section \<open>Invariant of the two tables\<close>

text \<open>The subscription handles an effect list hands out (one per invoked callback).\<close>

fun handles_of :: "rt_effect list \<Rightarrow> sub_key multiset" where
  "handles_of [] = {#}"
| "handles_of (InvokeCallback cb p k # es) = add_mset k (handles_of es)"
| "handles_of (Wake w # es) = handles_of es"
| "handles_of (NotifyAll k # es) = handles_of es"

text \<open>\<open>sub_inv st hs\<close>: the subscription table has one entry per key, and each entry's
  \<open>pending_count\<close> is the number of live \<open>PendingRequestSubscription\<close> handles
  \<open>hs\<close> for its key, which is positive; every live handle has its entry.\<close>

definition sub_inv :: "request_tracker \<Rightarrow> sub_key multiset \<Rightarrow> bool" where
  "sub_inv st hs \<longleftrightarrow>
     distinct (map fst (rt_subscription_pending_requests st)) \<and>
     (\<forall>(k, s) \<in> set (rt_subscription_pending_requests st).
        0 < count hs k \<and> unat (ss_pending_count s) = count hs k) \<and>
     set_mset hs \<subseteq> fst ` set (rt_subscription_pending_requests st)"

text \<open>The same condition pointwise, on what the table maps a key to.\<close>

definition sub_entry_ok :: "sub_key multiset \<Rightarrow> sub_key \<Rightarrow> sub_state option \<Rightarrow> bool" where
  "sub_entry_ok hs k e \<longleftrightarrow> (case e of
      None \<Rightarrow> count hs k = 0
    | Some s \<Rightarrow> 0 < count hs k \<and> unat (ss_pending_count s) = count hs k)"

text \<open>The states a worker's tracker reaches from \<open>RequestTracker::new\<close> together with
  the live subscription handles, under every operation of the tracker and its users.
  Callbacks receive new handles; a handle is dropped at most once.  The one environment
  assumption is that fewer than \<open>2^32\<close> handles are live at once.\<close>

inductive tracker_reach :: "request_tracker \<Rightarrow> sub_key multiset \<Rightarrow> bool" where
  reach_new: "tracker_reach rt_new {#}"
| reach_subscribe: "tracker_reach st hs \<Longrightarrow> tracker_reach (rt_subscribe p t cb st) hs"
| reach_request: "tracker_reach st hs \<Longrightarrow> handle_request tb p t src pkt st = Inr (st', effs) \<Longrightarrow>
     size hs + length effs < 2 ^ 32 \<Longrightarrow> tracker_reach st' (hs + handles_of effs)"
| reach_response: "tracker_reach st hs \<Longrightarrow> handle_response tb p la lw pkt st = Inr (st', effs) \<Longrightarrow>
     tracker_reach st' hs"
| reach_start: "tracker_reach st hs \<Longrightarrow> client_start_request st = Inr (rid, st') \<Longrightarrow>
     tracker_reach st' hs"
| reach_poll: "tracker_reach st hs \<Longrightarrow> pending_request_poll rid w st = Inr (r, st') \<Longrightarrow>
     tracker_reach st' hs"
| reach_cancel: "tracker_reach st hs \<Longrightarrow> pending_request_drop rid st = Inr st' \<Longrightarrow>
     tracker_reach st' hs"
| reach_sub_drop: "tracker_reach st hs \<Longrightarrow> k \<in># hs \<Longrightarrow> subscription_drop k st = Inr st' \<Longrightarrow>
     tracker_reach st' (hs - {#k#})"

section \<open>Scenarios\<close>

text \<open>A tracker with one pending call (id 0), and the 20-byte header of a response
  packet from endpoint 9 on plane 3, topic 11.\<close>

definition rt_one :: request_tracker where
  "rt_one = rt_new\<lparr>rt_pending_requests :=
     \<lparr>sl_entries = [Occupied \<lparr>prs_response = None, prs_waker = None\<rparr>], sl_len = 1, sl_next = 1\<rparr>\<rparr>"

definition resp_hdr :: bytes where
  "resp_hdr = encode_transmit_packet \<lparr>tp_payload_length = 18, tp_infra_id = 0, tp_plane_id = 3,
     tp_topic = 11, tp_source = \<lparr>endpoint = 9\<rparr>\<rparr>"

definition resp0 :: "u32 response" where
  "resp0 = \<lparr>rs_request_id = 0, rs_requester = 5, rs_requester_worker = 1, rs_payload = 52\<rparr>"

definition req_pkt0 :: packet where
  "req_pkt0 = send_raw_bytes \<lparr>endpoint = 5\<rparr> 3 10
     (encode_request encode_u32 \<lparr>rq_request_id = 0, rq_worker = 1, rq_payload = 5\<rparr>)"

section \<open>Lemmas\<close>

lemma response_lazy_enc:
  "response_lazy_requester (encode_response encT r @ rest) = Some (rs_requester r) \<and>
   response_lazy_requester_worker (encode_response encT r @ rest) = Some (rs_requester_worker r) \<and>
   response_lazy_request_id (encode_response encT r @ rest) = Some (rs_request_id r)"
  by (simp add: response_lazy_requester_def response_lazy_requester_worker_def
      response_lazy_request_id_def encode_response_def)

lemma request_lazy_enc:
  "request_lazy_request_id (encode_request encT q @ rest) = Some (rq_request_id q) \<and>
   request_lazy_worker (encode_request encT q @ rest) = Some (rq_worker q)"
  by (simp add: request_lazy_request_id_def request_lazy_worker_def encode_request_def)

lemma request_lazy_payload_enc:
  "codec_exact encT decT \<Longrightarrow>
   request_lazy_payload decT (encode_request encT q @ rest) = Some (rq_payload q)"
  by (simp add: request_lazy_payload_def encode_request_def codec_exact_enc)

lemma handle_response_enc:
  assumes "length h = transmit_packet_base_len"
  shows "handle_response tb plane_id la lw (h @ encode_response encT r @ rest) st =
    (let pkt = h @ encode_response encT r @ rest;
         (st1, e1) = (if rs_requester r = la \<and> rs_requester_worker r = lw
                      then client_finish_request (rs_request_id r) pkt st else (st, []));
         (st2, e2) = subscription_finish_request plane_id (rs_requester r) (rs_requester_worker r)
                       (rs_request_id r) pkt st1
     in Inr (st2, e1 @ e2))"
  using assms by (simp add: handle_response_def decode_response_lazy_def response_lazy_enc
      transmit_packet_base_len_def Let_def)

lemma handle_response_shape:
  assumes r: "handle_response tb p la lw pkt st = Inr (st', effs)"
  shows "st' = st \<or> (\<exists>rq rw rid. st' = fst (subscription_finish_request p rq rw rid pkt
           (fst (if rq = la \<and> rw = lw then client_finish_request rid pkt st else (st, [])))))"
proof -
  let ?b = "drop transmit_packet_base_len pkt"
  from r have ok: "\<not> length pkt < transmit_packet_base_len"
    by (auto simp: handle_response_def)
  show ?thesis
  proof (cases "\<exists>rq rw rid. response_lazy_requester ?b = Some rq \<and>
      response_lazy_requester_worker ?b = Some rw \<and> response_lazy_request_id ?b = Some rid")
    case True
    then obtain rq rw rid where f: "response_lazy_requester ?b = Some rq"
      "response_lazy_requester_worker ?b = Some rw" "response_lazy_request_id ?b = Some rid"
      by blast
    from r ok f have "st' = fst (subscription_finish_request p rq rw rid pkt
        (fst (if rq = la \<and> rw = lw then client_finish_request rid pkt st else (st, []))))"
      by (simp add: handle_response_def decode_response_lazy_def Let_def split_beta)
    then show ?thesis by blast
  next
    case False
    with r ok show ?thesis
      by (auto simp: handle_response_def decode_response_lazy_def split: option.splits)
  qed
qed

lemma client_finish_pending:
  assumes wf: "slab_wf (rt_pending_requests st)"
    and fin: "client_finish_request rid pkt st = (st', e)"
  shows "slab_wf (rt_pending_requests st') \<and>
         slab_abs (rt_pending_requests st') = (slab_abs (rt_pending_requests st))(unat rid :=
           map_option (\<lambda>pr. pr\<lparr>prs_response := Some pkt, prs_waker := None\<rparr>)
             (slab_abs (rt_pending_requests st) (unat rid)))"
proof (cases "slab_get (unat rid) (rt_pending_requests st)")
  case None
  with fin wf show ?thesis
    by (auto simp: client_finish_request_def slab_abs_def fun_eq_iff)
next
  case (Some pr)
  with fin slab_modify_correct [OF wf] show ?thesis
    by (auto simp: client_finish_request_def slab_abs_def)
qed

lemma subscription_finish_pending:
  "subscription_finish_request p r w i pkt st = (st', e) \<Longrightarrow> rt_pending_requests st' = rt_pending_requests st"
  by (auto simp: subscription_finish_request_def Let_def split: option.splits)


text \<open>
  A response packet on a worker whose endpoint address and worker id are the response's requester and requester_worker fills the caller-await entry of its request id (and clears its waker), if that id is pending; on any other worker, and for every other id, the caller-await table is unchanged. The slab stays well-formed.
\<close>
theorem response_delivery:
  assumes h: "length h = transmit_packet_base_len"
    and wf: "slab_wf (rt_pending_requests st)"
    and r: "handle_response tb plane_id la lw (h @ encode_response encT r @ rest) st = Inr (st', effs)"
  shows "slab_wf (rt_pending_requests st') \<and>
         slab_abs (rt_pending_requests st') =
           (if rs_requester r = la \<and> rs_requester_worker r = lw
            then (slab_abs (rt_pending_requests st))(unat (rs_request_id r) :=
                   map_option (\<lambda>pr. pr\<lparr>prs_response := Some (h @ encode_response encT r @ rest),
                                        prs_waker := None\<rparr>)
                     (slab_abs (rt_pending_requests st) (unat (rs_request_id r))))
            else slab_abs (rt_pending_requests st))"
proof (cases "rs_requester r = la \<and> rs_requester_worker r = lw")
  case True
  obtain st1 e1 where f: "client_finish_request (rs_request_id r) (h @ encode_response encT r @ rest) st = (st1, e1)"
    by (cases "client_finish_request (rs_request_id r) (h @ encode_response encT r @ rest) st")
  from r True f have "rt_pending_requests st' = rt_pending_requests st1"
    by (auto simp: handle_response_enc [OF h] Let_def split: prod.splits dest: subscription_finish_pending)
  with client_finish_pending [OF wf f] True show ?thesis by simp
next
  case False
  from r False have "rt_pending_requests st' = rt_pending_requests st"
    by (auto simp: handle_response_enc [OF h] Let_def split: prod.splits dest: subscription_finish_pending)
  with wf False show ?thesis by (simp only: if_False simp_thms)
qed

lemma sub_inv_alt:
  "sub_inv st hs \<longleftrightarrow>
     distinct (map fst (rt_subscription_pending_requests st)) \<and>
     (\<forall>k s. map_of (rt_subscription_pending_requests st) k = Some s \<longrightarrow>
        0 < count hs k \<and> unat (ss_pending_count s) = count hs k) \<and>
     (\<forall>k. k \<in># hs \<longrightarrow> map_of (rt_subscription_pending_requests st) k \<noteq> None)"
  unfolding sub_inv_def
  by (auto simp: map_of_eq_None_iff dest: map_of_SomeD map_of_is_SomeI)

lemma sub_inv_same_table:
  "rt_subscription_pending_requests st' = rt_subscription_pending_requests st \<Longrightarrow>
     sub_inv st' hs = sub_inv st hs"
  by (simp add: sub_inv_def)

lemma sub_inv_start:
  assumes inv: "sub_inv st hs" and bound: "count hs (p, r, w, i) + 1 < 2 ^ 32"
    and st: "subscription_start_request p r w i st = (st', key)"
  shows "key = (p, r, w, i) \<and> sub_inv st' (add_mset key hs)"
proof -
  let ?k = "(p, r, w, i)" and ?tbl = "rt_subscription_pending_requests st"
  have key: "key = ?k" using st by (simp add: subscription_start_request_def Let_def)
  obtain s0 where s0: "s0 = (case map_of ?tbl ?k of
        None \<Rightarrow> \<lparr>ss_response = None, ss_pending_count = 0\<rparr> | Some s \<Rightarrow> s)" by simp
  have tbl': "rt_subscription_pending_requests st' =
      AList.update ?k (s0\<lparr>ss_pending_count := ss_pending_count s0 + 1\<rparr>) ?tbl"
    using st key s0 by (auto simp: subscription_start_request_def Let_def)
  from inv have A: "\<And>k s. map_of ?tbl k = Some s \<Longrightarrow> unat (ss_pending_count s) = count hs k"
      and B: "\<And>k. map_of ?tbl k = None \<Longrightarrow> count hs k = 0"
    unfolding sub_inv_alt by (blast, meson count_eq_zero_iff)
  have c0: "unat (ss_pending_count s0) = count hs ?k"
    using A B s0 by (cases "map_of ?tbl ?k") simp_all
  with bound have c1: "unat (ss_pending_count s0 + 1) = count hs ?k + 1"
    using unat_add_lem [of "ss_pending_count s0" 1] by simp
  show ?thesis
    using inv c1 unfolding key sub_inv_alt tbl'
    by (auto simp: update_conv' distinct_update)
qed

lemma length_start_callbacks:
  "start_callbacks p r w i pkt cbs st = (st', effs) \<Longrightarrow> length effs = length cbs"
  by (induction cbs arbitrary: st st' effs) (auto split: prod.splits)

lemma sub_inv_callbacks:
  "sub_inv st hs \<Longrightarrow> count hs (p, r, w, i) + length cbs < 2 ^ 32 \<Longrightarrow>
   start_callbacks p r w i pkt cbs st = (st', effs) \<Longrightarrow>
   sub_inv st' (hs + handles_of effs) \<and> length effs = length cbs"
proof (induction cbs arbitrary: st hs st' effs)
  case Nil
  then show ?case by simp
next
  case (Cons cb cbs)
  obtain st1 key where s1: "subscription_start_request p r w i st = (st1, key)"
    by (cases "subscription_start_request p r w i st")
  obtain st2 effs2 where s2: "start_callbacks p r w i pkt cbs st1 = (st2, effs2)"
    by (cases "start_callbacks p r w i pkt cbs st1")
  from Cons.prems(3) s1 s2 have st': "st' = st2" and effs: "effs = InvokeCallback cb pkt key # effs2"
    by simp_all
  have kk: "key = (p, r, w, i) \<and> sub_inv st1 (add_mset key hs)"
    using sub_inv_start [OF Cons.prems(1) _ s1] Cons.prems(2) by force
  from kk have key: "key = (p, r, w, i)" ..
  from kk have inv1: "sub_inv st1 (add_mset key hs)" ..
  have "count (add_mset key hs) (p, r, w, i) + length cbs < 2 ^ 32"
    using Cons.prems(2) key by simp
  from Cons.IH [OF inv1 this s2] st' effs show ?case by simp
qed

lemma sub_inv_handle_request:
  assumes inv: "sub_inv st hs" and r: "handle_request tb p t src pkt st = Inr (st', effs)"
    and bound: "size hs + length effs < 2 ^ 32"
  shows "sub_inv st' (hs + handles_of effs)"
proof -
  have le: "count hs k \<le> size hs" for k
    by (simp add: count_le_size)
  show ?thesis
  proof (cases "\<exists>rid w cbs. request_lazy_request_id (drop transmit_packet_base_len pkt) = Some rid \<and>
      request_lazy_worker (drop transmit_packet_base_len pkt) = Some w \<and>
      map_of (rt_request_subscriptions st) (p, t) = Some cbs \<and> transmit_packet_base_len \<le> length pkt")
    case True
    then obtain rid w cbs where f: "request_lazy_request_id (drop transmit_packet_base_len pkt) = Some rid"
      "request_lazy_worker (drop transmit_packet_base_len pkt) = Some w"
      "map_of (rt_request_subscriptions st) (p, t) = Some cbs" "transmit_packet_base_len \<le> length pkt"
      by blast
    then have sc: "start_callbacks p src w rid pkt cbs st = (st', effs)"
      using r by (simp add: handle_request_def decode_request_lazy_def)
    have "count hs (p, src, w, rid) + length cbs < 2 ^ 32"
      using bound le [of "(p, src, w, rid)"] length_start_callbacks [OF sc] by simp
    from sub_inv_callbacks [OF inv this sc] show ?thesis by simp
  next
    case False
    with r have "st' = st \<and> effs = []"
      by (auto simp: handle_request_def decode_request_lazy_def split: option.splits if_splits)
    with inv show ?thesis by simp
  qed
qed

lemma alist_count_inv:
  fixes al :: "('k \<times> 'v) list"
  assumes d: "distinct (map fst al)"
  shows "((\<forall>(k, s) \<in> set al. 0 < count hs k \<and> f s = count hs k) \<and> set_mset hs \<subseteq> fst ` set al) \<longleftrightarrow>
         (\<forall>k. case map_of al k of None \<Rightarrow> count hs k = 0 | Some s \<Rightarrow> 0 < count hs k \<and> f s = count hs k)"
  using d by (fastforce simp: count_eq_zero_iff map_of_eq_None_iff split: option.splits
      dest: map_of_is_SomeI map_of_SomeD)

lemma sub_inv_entries:
  "sub_inv st hs \<longleftrightarrow> distinct (map fst (rt_subscription_pending_requests st)) \<and>
     (\<forall>k. sub_entry_ok hs k (map_of (rt_subscription_pending_requests st) k))"
proof (cases "distinct (map fst (rt_subscription_pending_requests st))")
  case True
  show ?thesis
    unfolding sub_inv_def sub_entry_ok_def alist_count_inv [OF True] ..
next
  case False
  then show ?thesis by (simp add: sub_inv_def)
qed

lemma sub_inv_point:
  assumes inv: "sub_inv st hs"
    and d: "distinct (map fst (rt_subscription_pending_requests st'))"
    and m: "map_of (rt_subscription_pending_requests st') = (map_of (rt_subscription_pending_requests st))(k := e)"
    and other: "\<And>j. j \<noteq> k \<Longrightarrow> count hs' j = count hs j"
    and ok: "sub_entry_ok hs' k e"
  shows "sub_inv st' hs'"
  unfolding sub_inv_entries
proof (intro conjI allI)
  fix j
  show "sub_entry_ok hs' j (map_of (rt_subscription_pending_requests st') j)"
  proof (cases "j = k")
    case True
    with m ok show ?thesis by simp
  next
    case False
    from inv have "sub_entry_ok hs j (map_of (rt_subscription_pending_requests st) j)"
      unfolding sub_inv_entries by blast
    with m other [OF False] False show ?thesis by (simp add: sub_entry_ok_def split: option.splits)
  qed
qed (rule d)

lemma sub_inv_finish:
  assumes inv: "sub_inv st hs" and f: "subscription_finish_request p r w i pkt st = (st', e)"
  shows "sub_inv st' hs"
proof (cases "map_of (rt_subscription_pending_requests st) (p, r, w, i)")
  case None
  with f inv show ?thesis by (simp add: subscription_finish_request_def)
next
  case (Some s)
  let ?tbl' = "AList.update (p, r, w, i) (s\<lparr>ss_response := Some pkt\<rparr>) (rt_subscription_pending_requests st)"
  from f Some have tbl': "rt_subscription_pending_requests st' = ?tbl'"
    by (auto simp: subscription_finish_request_def Let_def)
  from inv have d: "distinct (map fst (rt_subscription_pending_requests st))"
    and ok: "sub_entry_ok hs (p, r, w, i) (Some s)"
    using Some unfolding sub_inv_entries by (blast, metis)
  show ?thesis
    by (rule sub_inv_point [OF inv, of _ "(p, r, w, i)" "Some (s\<lparr>ss_response := Some pkt\<rparr>)"])
       (use d ok in \<open>simp_all add: tbl' update_conv' distinct_update sub_entry_ok_def\<close>)
qed

lemma client_finish_subs:
  "client_finish_request rid pkt st = (st', e) \<Longrightarrow>
     rt_subscription_pending_requests st' = rt_subscription_pending_requests st"
  by (auto simp: client_finish_request_def split: option.splits)

lemma sub_inv_finish_fst:
  "sub_inv st hs \<Longrightarrow> sub_inv (fst (subscription_finish_request p r w i pkt st)) hs"
  using sub_inv_finish [of st hs p r w i pkt] by (metis prod.collapse)

lemma client_finish_subs_fst [simp]:
  "rt_subscription_pending_requests (fst (client_finish_request rid pkt st)) = rt_subscription_pending_requests st"
  using client_finish_subs [of rid pkt st] by (metis prod.collapse)

lemma sub_inv_handle_response:
  assumes inv: "sub_inv st hs" and r: "handle_response tb p la lw pkt st = Inr (st', effs)"
  shows "sub_inv st' hs"
  using handle_response_shape [OF r]
proof (elim disjE exE)
  assume "st' = st"
  with inv show ?thesis by simp
next
  fix rq rw rid
  assume st': "st' = fst (subscription_finish_request p rq rw rid pkt
      (fst (if rq = la \<and> rw = lw then client_finish_request rid pkt st else (st, []))))"
  have "sub_inv (fst (if rq = la \<and> rw = lw then client_finish_request rid pkt st else (st, []))) hs"
    using sub_inv_same_table [of "fst (if rq = la \<and> rw = lw then client_finish_request rid pkt st else (st, []))" st hs] inv
    by simp
  from sub_inv_finish_fst [OF this] st' show ?thesis by simp
qed

lemma subscription_drop_correct:
  assumes inv: "sub_inv st hs" and k: "k \<in># hs"
  shows "\<exists>st'. subscription_drop k st = Inr st' \<and> sub_inv st' (hs - {#k#}) \<and>
           (map_of (rt_subscription_pending_requests st') k = None \<longleftrightarrow> k \<notin># hs - {#k#})"
proof -
  let ?tbl = "rt_subscription_pending_requests st"
  from inv have d: "distinct (map fst ?tbl)" and all: "\<And>j. sub_entry_ok hs j (map_of ?tbl j)"
    unfolding sub_inv_entries by blast+
  from all [of k] k obtain s where s: "map_of ?tbl k = Some s"
    and c: "unat (ss_pending_count s) = count hs k"
    by (cases "map_of ?tbl k") (auto simp: sub_entry_ok_def count_eq_zero_iff)
  have other: "count (hs - {#k#}) j = count hs j" if "j \<noteq> k" for j
    using that by simp
  show ?thesis
  proof (cases "ss_pending_count s = 1")
    case True
    with c have one: "count hs k = 1" by simp
    let ?st' = "st\<lparr>rt_subscription_pending_requests := AList.delete k ?tbl\<rparr>"
    have drop: "subscription_drop k st = Inr ?st'"
      using s True by (simp add: subscription_drop_def)
    have "sub_inv ?st' (hs - {#k#})"
      by (rule sub_inv_point [OF inv, of _ k None])
         (use d one other in \<open>simp_all add: delete_conv' distinct_delete sub_entry_ok_def\<close>)
    with drop one show ?thesis by (simp add: delete_conv' count_eq_zero_iff [symmetric])
  next
    case False
    have pos: "0 < count hs k" using k by simp
    with c False have gt: "1 < count hs k"
      by (metis less_one nat_neq_iff unat_1 word_unat_eq_iff)
    have c': "unat (ss_pending_count s - 1) = count hs k - 1"
      using c pos by (metis unat_minus_one unat_0 less_irrefl)
    let ?s' = "s\<lparr>ss_pending_count := ss_pending_count s - 1\<rparr>"
    let ?st' = "st\<lparr>rt_subscription_pending_requests := AList.update k ?s' ?tbl\<rparr>"
    have drop: "subscription_drop k st = Inr ?st'"
      using s False by (simp add: subscription_drop_def)
    have "sub_inv ?st' (hs - {#k#})"
      by (rule sub_inv_point [OF inv, of _ k "Some ?s'"])
         (use d c' gt other in \<open>simp_all add: update_conv' distinct_update sub_entry_ok_def\<close>)
    with drop gt show ?thesis by (simp add: update_conv' in_diff_count)
  qed
qed



lemma subscription_finish_pending_fst [simp]:
  "rt_pending_requests (fst (subscription_finish_request p r w i pkt st)) = rt_pending_requests st"
  using subscription_finish_pending [of p r w i pkt st] by (metis prod.collapse)

lemma client_finish_wf:
  "slab_wf (rt_pending_requests st) \<Longrightarrow> slab_wf (rt_pending_requests (fst (client_finish_request rid pkt st)))"
  using client_finish_pending [of st rid pkt] by (metis prod.collapse)

lemma wf_handle_response:
  "slab_wf (rt_pending_requests st) \<Longrightarrow> handle_response tb p la lw pkt st = Inr (st', effs) \<Longrightarrow>
     slab_wf (rt_pending_requests st')"
  by (drule handle_response_shape) (auto simp: client_finish_wf)

lemma start_callbacks_pending:
  "start_callbacks p r w i pkt cbs st = (st', effs) \<Longrightarrow> rt_pending_requests st' = rt_pending_requests st"
  by (induction cbs arbitrary: st st' effs)
     (auto simp: subscription_start_request_def Let_def split: prod.splits)

lemma handle_request_pending:
  "handle_request tb p t src pkt st = Inr (st', effs) \<Longrightarrow> rt_pending_requests st' = rt_pending_requests st"
  by (auto simp: handle_request_def decode_request_lazy_def split: option.splits if_splits
      dest: start_callbacks_pending)

lemma client_start_correct:
  assumes wf: "slab_wf (rt_pending_requests st)"
  shows "\<exists>k st'. client_start_request st = Inr (of_nat k, st') \<and>
           slab_abs (rt_pending_requests st) k = None \<and> slab_wf (rt_pending_requests st') \<and>
           slab_abs (rt_pending_requests st') =
             (slab_abs (rt_pending_requests st))(k \<mapsto> \<lparr>prs_response = None, prs_waker = None\<rparr>) \<and>
           rt_subscription_pending_requests st' = rt_subscription_pending_requests st \<and>
           k \<le> length (sl_entries (rt_pending_requests st))"
  using slab_insert_correct [OF wf, of "\<lparr>prs_response = None, prs_waker = None\<rparr>"]
  by (auto simp: client_start_request_def)

lemma poll_correct:
  "slab_wf (rt_pending_requests st) \<Longrightarrow> pending_request_poll rid w st = Inr (r, st') \<Longrightarrow>
     slab_wf (rt_pending_requests st') \<and>
     rt_subscription_pending_requests st' = rt_subscription_pending_requests st"
  by (auto simp: pending_request_poll_def slab_modify_correct split: sum.splits option.splits)

lemma cancel_correct:
  "slab_wf (rt_pending_requests st) \<Longrightarrow> pending_request_drop rid st = Inr st' \<Longrightarrow>
     slab_wf (rt_pending_requests st') \<and>
     slab_abs (rt_pending_requests st') = (slab_abs (rt_pending_requests st))(unat rid := None) \<and>
     rt_subscription_pending_requests st' = rt_subscription_pending_requests st"
proof -
  assume wf: "slab_wf (rt_pending_requests st)" and d: "pending_request_drop rid st = Inr st'"
  show ?thesis
  proof (cases "slab_abs (rt_pending_requests st) (unat rid)")
    case None
    with d show ?thesis by (simp add: pending_request_drop_def slab_remove_vacant)
  next
    case (Some v)
    from slab_remove_correct [OF wf Some] d show ?thesis
      by (auto simp: pending_request_drop_def)
  qed
qed

lemma subscribe_tables:
  "rt_subscription_pending_requests (rt_subscribe p t cb st) = rt_subscription_pending_requests st"
  "rt_pending_requests (rt_subscribe p t cb st) = rt_pending_requests st"
  by (simp_all add: rt_subscribe_def Let_def)

lemma subscription_drop_pending:
  "subscription_drop k st = Inr st' \<Longrightarrow> rt_pending_requests st' = rt_pending_requests st"
  by (auto simp: subscription_drop_def Let_def split: option.splits if_splits)

lemma reach_inv:
  "tracker_reach st hs \<Longrightarrow> sub_inv st hs \<and> slab_wf (rt_pending_requests st)"
proof (induction rule: tracker_reach.induct)
  case reach_new
  then show ?case by (simp add: rt_new_def sub_inv_def slab_new_wf)
next
  case (reach_subscribe st hs p t cb)
  then show ?case
    using sub_inv_same_table [OF subscribe_tables(1)] by (simp add: subscribe_tables(2))
next
  case (reach_request st hs tb p t src pkt st' effs)
  then show ?case
    using sub_inv_handle_request handle_request_pending by metis
next
  case (reach_response st hs tb p la lw pkt st' effs)
  then show ?case
    using sub_inv_handle_response wf_handle_response by metis
next
  case (reach_start st hs rid st')
  then obtain k st'' where "client_start_request st = Inr (of_nat k, st'')"
      "slab_wf (rt_pending_requests st'')"
      "rt_subscription_pending_requests st'' = rt_subscription_pending_requests st"
    using client_start_correct by blast
  with reach_start show ?case
    using sub_inv_same_table by (metis Inr_inject prod.inject)
next
  case (reach_poll st hs rid w r st')
  then show ?case
    using poll_correct sub_inv_same_table by metis
next
  case (reach_cancel st hs rid st')
  then show ?case
    using cancel_correct sub_inv_same_table by metis
next
  case (reach_sub_drop st hs k st')
  then obtain st'' where "subscription_drop k st = Inr st''" "sub_inv st'' (hs - {#k#})"
    using subscription_drop_correct by blast
  with reach_sub_drop show ?case
    using subscription_drop_pending by auto
qed

text \<open>
  Claim C8. On every reachable tracker whose slab has fewer than 2^32 entries,
  client_start_request never panics and returns a request id that no live request holds;
  the table then maps it to an empty pending state and nothing else changes.
\<close>

theorem client_start_fresh:
  assumes reach: "tracker_reach st hs"
    and small: "length (sl_entries (rt_pending_requests st)) < 2 ^ 32"
  shows "\<exists>rid st'. client_start_request st = Inr (rid, st') \<and>
           slab_abs (rt_pending_requests st) (unat rid) = None \<and>
           slab_abs (rt_pending_requests st') =
             (slab_abs (rt_pending_requests st))(unat rid \<mapsto> \<lparr>prs_response = None, prs_waker = None\<rparr>) \<and>
           tracker_reach st' hs"
proof -
  from reach_inv [OF reach] have wf: "slab_wf (rt_pending_requests st)" by blast
  from client_start_correct [OF wf] obtain k st' where
      c: "client_start_request st = Inr (of_nat k, st')" and
      fresh: "slab_abs (rt_pending_requests st) k = None" and
      upd: "slab_abs (rt_pending_requests st') =
             (slab_abs (rt_pending_requests st))(k \<mapsto> \<lparr>prs_response = None, prs_waker = None\<rparr>)" and
      le: "k \<le> length (sl_entries (rt_pending_requests st))"
    by blast
  from le small have "unat (of_nat k :: u32) = k"
    by (simp add: unat_of_nat)
  with c fresh upd reach_start [OF reach c] show ?thesis by metis
qed

text \<open>
  Claim C7. On every reachable tracker, dropping a live PendingRequestSubscription
  never panics, keeps the tracker reachable, and removes the subscription entry exactly
  when it was the last live handle for its key.
\<close>

theorem subscription_drop_safe:
  assumes reach: "tracker_reach st hs" and k: "k \<in># hs"
  shows "\<exists>st'. subscription_drop k st = Inr st' \<and> tracker_reach st' (hs - {#k#}) \<and>
           (map_of (rt_subscription_pending_requests st') k = None \<longleftrightarrow> k \<notin># hs - {#k#})"
proof -
  from reach_inv [OF reach] have "sub_inv st hs" by blast
  from subscription_drop_correct [OF this k] obtain st' where
      d: "subscription_drop k st = Inr st'" and
      e: "(map_of (rt_subscription_pending_requests st') k = None) = (k \<notin># hs - {#k#})"
    by (elim exE conjE)
  have r: "tracker_reach st' (hs - {#k#})" by (rule reach_sub_drop [OF reach k d])
  show ?thesis by (intro exI [of _ st'] conjI) (rule d, rule r, rule e)
qed


text \<open>
  The response routing closure of RequestClientBuilder::build forwards a response to worker w exactly when the response is addressed to this endpoint and to worker w, and w is not the worker running the closure; otherwise the packet stays where it is.
\<close>
theorem response_route_enc:
  assumes h: "length h = transmit_packet_base_len"
  shows "response_route tb la lw (h @ encode_response encT r @ rest) =
           Inr (if rs_requester r = la \<and> rs_requester_worker r \<noteq> lw
                then Some (rs_requester_worker r) else None)"
  using h by (simp add: response_route_def decode_response_lazy_def response_lazy_enc)


text \<open>
  Claim C13. When the response that wakes a call does not decode as a Response of the expected payload type, RequestClient::call panics in its unwrap after freeing the slot, where the specification asks the caller future to resolve to a decode error.
\<close>
theorem call_complete_decode_panic:
  assumes wf: "slab_wf (rt_pending_requests st)"
    and get: "slab_abs (rt_pending_requests st) (unat rid) = Some pr"
    and resp: "prs_response pr = Some p"
    and bad: "decode_response decT (drop transmit_packet_base_len p) = None"
  shows "call_complete decT rid w st = Inl ResponseUnwrapPanic"
proof -
  let ?P1 = "slab_modify (unat rid) (\<lambda>pr. pr\<lparr>prs_response := None\<rparr>) (rt_pending_requests st)"
  have poll: "pending_request_poll rid w st = Inr (Some p, st\<lparr>rt_pending_requests := ?P1\<rparr>)"
    using get resp by (simp add: pending_request_poll_def slab_index_def slab_abs_def)
  from slab_modify_correct [OF wf] get
  have wf1: "slab_wf ?P1" and get1: "slab_abs ?P1 (unat rid) = Some (pr\<lparr>prs_response := None\<rparr>)"
    by simp_all
  from slab_remove_correct [OF wf1 get1] obtain P2 where "slab_remove (unat rid) ?P1 = Inr (pr\<lparr>prs_response := None\<rparr>, P2)"
    by blast
  then have "pending_request_drop rid (st\<lparr>rt_pending_requests := ?P1\<rparr>) = Inr (st\<lparr>rt_pending_requests := P2\<rparr>)"
    by (simp add: pending_request_drop_def)
  with poll bad show ?thesis by (simp add: call_complete_def)
qed


lemma poll_found:
  assumes wf: "slab_wf (rt_pending_requests st)"
    and get: "slab_abs (rt_pending_requests st) (unat rid) = Some pr"
  shows "\<exists>st'. pending_request_poll rid w st = Inr (prs_response pr, st') \<and>
           slab_wf (rt_pending_requests st') \<and>
           slab_abs (rt_pending_requests st') = (slab_abs (rt_pending_requests st))(unat rid \<mapsto>
             (case prs_response pr of Some _ \<Rightarrow> pr\<lparr>prs_response := None\<rparr> | None \<Rightarrow> pr\<lparr>prs_waker := Some w\<rparr>))"
proof (cases "prs_response pr")
  case None
  with get slab_modify_correct [OF wf, of "unat rid" "\<lambda>pr. pr\<lparr>prs_waker := Some w\<rparr>"] show ?thesis
    by (simp add: pending_request_poll_def slab_index_def slab_abs_def)
next
  case (Some p)
  with get slab_modify_correct [OF wf, of "unat rid" "\<lambda>pr. pr\<lparr>prs_response := None\<rparr>"] show ?thesis
    by (simp add: pending_request_poll_def slab_index_def slab_abs_def)
qed

lemma drop_found:
  assumes wf: "slab_wf (rt_pending_requests st)"
    and get: "slab_abs (rt_pending_requests st) (unat rid) = Some pr"
  shows "\<exists>st'. pending_request_drop rid st = Inr st' \<and> slab_wf (rt_pending_requests st') \<and>
           slab_abs (rt_pending_requests st') = (slab_abs (rt_pending_requests st))(unat rid := None)"
  using slab_remove_correct [OF wf get] by (auto simp: pending_request_drop_def)

text \<open>A response delivered on the requester's worker completes the pending call of its
  id with its payload, and the call frees the slot.\<close>

lemma response_completes_call:
  assumes wf: "slab_wf (rt_pending_requests st)"
    and get: "slab_abs (rt_pending_requests st) (unat (rs_request_id r)) = Some pr"
    and h: "length hdr = transmit_packet_base_len" and c: "codec_exact encR decR"
    and hr: "handle_response tb p (rs_requester r) (rs_requester_worker r) (hdr @ encode_response encR r @ rest) st =
               Inr (st', effs)"
  shows "\<exists>st''. call_complete decR (rs_request_id r) waker st' = Inr (Some (rs_payload r), st'') \<and>
           slab_wf (rt_pending_requests st'') \<and>
           slab_abs (rt_pending_requests st'') = (slab_abs (rt_pending_requests st))(unat (rs_request_id r) := None)"
proof -
  let ?pkt = "hdr @ encode_response encR r @ rest" and ?k = "unat (rs_request_id r)"
  from response_delivery [OF h wf hr] get have
      wf1: "slab_wf (rt_pending_requests st')" and
      abs1: "slab_abs (rt_pending_requests st') =
               (slab_abs (rt_pending_requests st))(?k \<mapsto> pr\<lparr>prs_response := Some ?pkt, prs_waker := None\<rparr>)"
    by simp_all
  from poll_found [OF wf1, of "rs_request_id r" "pr\<lparr>prs_response := Some ?pkt, prs_waker := None\<rparr>" waker] abs1
  obtain st2 where poll: "pending_request_poll (rs_request_id r) waker st' = Inr (Some ?pkt, st2)" and
      wf2: "slab_wf (rt_pending_requests st2)" and
      abs2: "slab_abs (rt_pending_requests st2) = (slab_abs (rt_pending_requests st))(?k \<mapsto>
               pr\<lparr>prs_waker := None, prs_response := None\<rparr>)"
    by auto
  from drop_found [OF wf2] abs2 obtain st3 where drop: "pending_request_drop (rs_request_id r) st2 = Inr st3" and
      wf3: "slab_wf (rt_pending_requests st3)" and
      abs3: "slab_abs (rt_pending_requests st3) = (slab_abs (rt_pending_requests st))(?k := None)"
    by fastforce
  have dec: "decode_response decR (drop transmit_packet_base_len ?pkt) = Some (r, rest)"
    using h codec_exact_enc [OF response_codec [OF c]] by simp
  show ?thesis
    using poll drop dec wf3 abs3 by (simp add: call_complete_def)
qed

text \<open>
  Claim C12. Request ids are reused last-freed-first, so a late response completes the
  wrong call.  On any well-formed tracker with fewer than 2^32 slab entries, let a call A
  take id rid_a and be abandoned (its PendingRequest dropped), and a call B be sent next:
  B gets the same id.  A response to A that arrives after that (addressed to this
  endpoint and worker, with A's id) completes B with A's response payload.
\<close>
theorem stale_response_reuse:
  assumes wf: "slab_wf (rt_pending_requests st)"
    and small: "length (sl_entries (rt_pending_requests st)) < 2 ^ 32"
    and a: "call_send encQ w x st = Inr (rid_a, qa, st1)"
    and d: "pending_request_drop rid_a st1 = Inr st2"
    and b: "call_send encQ w y st2 = Inr (rid_b, qb, st3)"
    and h: "length hdr = transmit_packet_base_len"
    and r: "rs_request_id r = rid_a" "rs_requester r = la" "rs_requester_worker r = lw"
    and hr: "handle_response tb p la lw (hdr @ encode_response encR r @ rest) st3 = Inr (st4, effs)"
    and c: "codec_exact encR decR"
  shows "rid_b = rid_a \<and> (\<exists>st5. call_complete decR rid_b waker st4 = Inr (Some (rs_payload r), st5))"
proof -
  let ?new = "\<lparr>prs_response = None, prs_waker = None\<rparr>"
  let ?pkt = "hdr @ encode_response encR r @ rest"
  from client_start_correct [OF wf] obtain k s1 where
      cs: "client_start_request st = Inr (of_nat k, s1)" and wf1: "slab_wf (rt_pending_requests s1)"
      and le: "k \<le> length (sl_entries (rt_pending_requests st))"
    by blast
  from a cs have rid_a: "rid_a = of_nat k" and st1: "st1 = s1"
    by (simp_all add: call_send_def)
  from le small have ka: "unat rid_a = k"
    by (simp add: rid_a unat_of_nat)
  obtain v sl where rm: "slab_remove k (rt_pending_requests st1) = Inr (v, sl)"
      and st2: "st2 = st1\<lparr>rt_pending_requests := sl\<rparr>"
    using d ka by (auto simp: pending_request_drop_def split: sum.splits)
  from cancel_correct [OF wf1 [folded st1] d] have wf2: "slab_wf (rt_pending_requests st2)"
    by blast
  from slab_insert_after_remove [OF rm, of ?new] obtain s3 where
      ins: "slab_insert ?new sl = Inr (k, s3)"
    by blast
  from slab_insert_correct [OF wf2, of ?new] ins st2 have
      wf3: "slab_wf s3" and abs3: "slab_abs s3 k = Some ?new"
    by auto
  from b ins st2 have rid_b: "rid_b = rid_a" and st3: "st3 = st2\<lparr>rt_pending_requests := s3\<rparr>"
    by (simp_all add: call_send_def client_start_request_def rid_a)
  have hr': "handle_response tb p (rs_requester r) (rs_requester_worker r) (hdr @ encode_response encR r @ rest) st3 =
      Inr (st4, effs)"
    using hr r by simp
  have wf3': "slab_wf (rt_pending_requests st3)" and get3: "slab_abs (rt_pending_requests st3) (unat (rs_request_id r)) = Some ?new"
    using wf3 abs3 st3 ka r by simp_all
  from response_completes_call [OF wf3' get3 h c hr', of waker] rid_b r show ?thesis
    by auto
qed

lemma rt_one_wf: "slab_wf (rt_pending_requests rt_one)"
  by (auto simp: rt_one_def slab_wf_def vacant_keys_def gr0_conv_Suc[symmetric] intro: Nat.gr0I)

theorem response_delivery_witness:
  "\<exists>st' effs. handle_response 4 3 5 1 (resp_hdr @ encode_response encode_u32 resp0 @ []) rt_one = Inr (st', effs) \<and>
     slab_abs (rt_pending_requests st') 0 =
       Some \<lparr>prs_response = Some (resp_hdr @ encode_response encode_u32 resp0 @ []), prs_waker = None\<rparr>"
proof -
  have h: "length resp_hdr = transmit_packet_base_len" by code_simp
  have "\<not> isl (handle_response 4 3 5 1 (resp_hdr @ encode_response encode_u32 resp0 @ []) rt_one)"
    by code_simp
  then obtain st' effs where eq: "handle_response 4 3 5 1 (resp_hdr @ encode_response encode_u32 resp0 @ []) rt_one = Inr (st', effs)"
    by (cases "handle_response 4 3 5 1 (resp_hdr @ encode_response encode_u32 resp0 @ []) rt_one") auto
  from response_delivery [OF h rt_one_wf eq] have
    "slab_abs (rt_pending_requests st') 0 =
       map_option (\<lambda>pr. pr\<lparr>prs_response := Some (resp_hdr @ encode_response encode_u32 resp0 @ []), prs_waker := None\<rparr>)
         (slab_abs (rt_pending_requests rt_one) 0)"
    by (simp add: resp0_def)
  moreover have "slab_abs (rt_pending_requests rt_one) 0 = Some \<lparr>prs_response = None, prs_waker = None\<rparr>"
    by (simp add: rt_one_def slab_abs_def slab_get_def)
  ultimately show ?thesis using eq by simp
qed

theorem client_start_fresh_witness:
  "\<exists>rid st'. client_start_request rt_new = Inr (rid, st') \<and>
     slab_abs (rt_pending_requests st') (unat rid) = Some \<lparr>prs_response = None, prs_waker = None\<rparr>"
proof -
  have "length (sl_entries (rt_pending_requests rt_new)) < 2 ^ 32"
    by (simp add: rt_new_def slab_new_def)
  from client_start_fresh [OF reach_new this] show ?thesis by auto
qed

theorem subscription_drop_safe_witness:
  "\<exists>st st'. tracker_reach st {#(3, 5, 1, 0)#} \<and> subscription_drop (3, 5, 1, 0) st = Inr st' \<and>
     map_of (rt_subscription_pending_requests st') (3, 5, 1, 0) = None"
proof -
  let ?st0 = "rt_subscribe 3 10 1 rt_new"
  have ok: "\<not> isl (handle_request 4 3 10 5 req_pkt0 ?st0)" by code_simp
  then obtain st effs where eq: "handle_request 4 3 10 5 req_pkt0 ?st0 = Inr (st, effs)"
    by (cases "handle_request 4 3 10 5 req_pkt0 ?st0") auto
  have "map_sum id snd (handle_request 4 3 10 5 req_pkt0 ?st0) = Inr [InvokeCallback 1 req_pkt0 (3, 5, 1, 0)]"
    by code_simp
  with eq have effs: "effs = [InvokeCallback 1 req_pkt0 (3, 5, 1, 0)]" by simp
  have "tracker_reach st ({#} + handles_of effs)"
    by (rule reach_request [OF reach_subscribe [OF reach_new] eq]) (simp add: effs)
  then have reach: "tracker_reach st {#(3, 5, 1, 0)#}" by (simp add: effs)
  from subscription_drop_safe [OF reach] show ?thesis
    using reach by fastforce
qed

theorem response_route_enc_witness:
  "response_route 4 5 0 (resp_hdr @ encode_response encode_u32 resp0 @ []) = Inr (Some 1)"
proof -
  have h: "length resp_hdr = transmit_packet_base_len" by code_simp
  from response_route_enc [OF h, of 4 5 0 encode_u32 resp0 "[]"] show ?thesis by (simp add: resp0_def)
qed

theorem call_complete_decode_panic_witness:
  "call_complete decode_u32 0 7 (rt_one\<lparr>rt_pending_requests := \<lparr>sl_entries =
      [Occupied \<lparr>prs_response = Some (resp_hdr @ [1, 2]), prs_waker = None\<rparr>], sl_len = 1, sl_next = 1\<rparr>\<rparr>)
   = Inl ResponseUnwrapPanic"
proof -
  let ?P = "\<lparr>sl_entries = [Occupied \<lparr>prs_response = Some (resp_hdr @ [1, 2]), prs_waker = None\<rparr>],
             sl_len = 1, sl_next = 1\<rparr>"
  have wf: "slab_wf (rt_pending_requests (rt_one\<lparr>rt_pending_requests := ?P\<rparr>))"
    by (auto simp: slab_wf_def vacant_keys_def gr0_conv_Suc[symmetric] intro: Nat.gr0I)
  have get: "slab_abs (rt_pending_requests (rt_one\<lparr>rt_pending_requests := ?P\<rparr>)) (unat (0::u32)) =
      Some \<lparr>prs_response = Some (resp_hdr @ [1, 2]), prs_waker = None\<rparr>"
    by (simp add: slab_abs_def slab_get_def)
  have bad: "decode_response decode_u32 (drop transmit_packet_base_len (resp_hdr @ [1, 2])) = None"
    by code_simp
  from call_complete_decode_panic [OF wf get _ bad] show ?thesis by simp
qed

lemma absent_panics:
  "slab_abs (rt_pending_requests st) (unat rid) = None \<Longrightarrow>
     pending_request_drop rid st = Inl SlabKeyPanic \<and> pending_request_poll rid w st = Inl SlabKeyPanic"
  by (simp add: pending_request_drop_def slab_remove_vacant pending_request_poll_def slab_index_def
      slab_abs_def)

text \<open>
  Claim C6. The caller-await table refines a finite map from request ids to pending
  states: on a well-formed slab, client_start_request adds an empty entry under an unused
  key; the PendingRequest future's poll and drop panic on an absent id and otherwise take
  the response or store the waker, or remove the entry; client_finish_request stores the
  response under its id if the id is present and changes nothing else.
\<close>
theorem caller_table_refines:
  assumes wf: "slab_wf (rt_pending_requests st)"
  shows "(\<exists>k st'. client_start_request st = Inr (of_nat k, st') \<and>
            slab_abs (rt_pending_requests st) k = None \<and> slab_wf (rt_pending_requests st') \<and>
            slab_abs (rt_pending_requests st') =
              (slab_abs (rt_pending_requests st))(k \<mapsto> \<lparr>prs_response = None, prs_waker = None\<rparr>)) \<and>
         (slab_abs (rt_pending_requests st) (unat rid) = None \<longrightarrow>
            pending_request_drop rid st = Inl SlabKeyPanic \<and> pending_request_poll rid w st = Inl SlabKeyPanic) \<and>
         (slab_abs (rt_pending_requests st) (unat rid) = Some pr \<longrightarrow>
            (\<exists>st'. pending_request_drop rid st = Inr st' \<and> slab_wf (rt_pending_requests st') \<and>
               slab_abs (rt_pending_requests st') = (slab_abs (rt_pending_requests st))(unat rid := None)) \<and>
            (\<exists>st'. pending_request_poll rid w st = Inr (prs_response pr, st') \<and>
               slab_wf (rt_pending_requests st') \<and>
               slab_abs (rt_pending_requests st') = (slab_abs (rt_pending_requests st))(unat rid \<mapsto>
                 (case prs_response pr of Some _ \<Rightarrow> pr\<lparr>prs_response := None\<rparr>
                                       | None \<Rightarrow> pr\<lparr>prs_waker := Some w\<rparr>)))) \<and>
         slab_wf (rt_pending_requests (fst (client_finish_request rid pkt st))) \<and>
         slab_abs (rt_pending_requests (fst (client_finish_request rid pkt st))) =
           (slab_abs (rt_pending_requests st))(unat rid :=
              map_option (\<lambda>pr. pr\<lparr>prs_response := Some pkt, prs_waker := None\<rparr>)
                (slab_abs (rt_pending_requests st) (unat rid)))"
proof (intro conjI impI)
  show "\<exists>k st'. client_start_request st = Inr (of_nat k, st') \<and>
            slab_abs (rt_pending_requests st) k = None \<and> slab_wf (rt_pending_requests st') \<and>
            slab_abs (rt_pending_requests st') =
              (slab_abs (rt_pending_requests st))(k \<mapsto> \<lparr>prs_response = None, prs_waker = None\<rparr>)"
    using client_start_correct [OF wf] by blast
  obtain st1 e where f: "client_finish_request rid pkt st = (st1, e)" by fastforce
  from client_finish_pending [OF wf f]
  show "slab_wf (rt_pending_requests (fst (client_finish_request rid pkt st)))"
    and "slab_abs (rt_pending_requests (fst (client_finish_request rid pkt st))) =
           (slab_abs (rt_pending_requests st))(unat rid :=
              map_option (\<lambda>pr. pr\<lparr>prs_response := Some pkt, prs_waker := None\<rparr>)
                (slab_abs (rt_pending_requests st) (unat rid)))"
    using f by simp_all
qed (use absent_panics drop_found [OF wf] poll_found [OF wf] in blast)+

theorem caller_table_refines_witness:
  "(\<exists>st'. pending_request_poll 0 7 rt_one = Inr (None, st') \<and>
      slab_abs (rt_pending_requests st') 0 = Some \<lparr>prs_response = None, prs_waker = Some 7\<rparr>) \<and>
   pending_request_drop 1 rt_one = Inl SlabKeyPanic"
proof -
  have get0: "slab_abs (rt_pending_requests rt_one) (unat (0::u32)) = Some \<lparr>prs_response = None, prs_waker = None\<rparr>"
    by (simp add: rt_one_def slab_abs_def slab_get_def)
  have get1: "slab_abs (rt_pending_requests rt_one) (unat (1::u32)) = None"
    by (simp add: rt_one_def slab_abs_def slab_get_def)
  note c = caller_table_refines [OF rt_one_wf, of 0 7 "\<lparr>prs_response = None, prs_waker = None\<rparr>" "[]"]
  note c1 = caller_table_refines [OF rt_one_wf, of 1 7 "\<lparr>prs_response = None, prs_waker = None\<rparr>" "[]"]
  from c get0 have "\<exists>st'. pending_request_poll 0 7 rt_one = Inr (None, st') \<and>
      slab_abs (rt_pending_requests st') 0 = Some \<lparr>prs_response = None, prs_waker = Some 7\<rparr>"
    by auto
  moreover from c1 get1 have "pending_request_drop 1 rt_one = Inl SlabKeyPanic" by simp
  ultimately show ?thesis by blast
qed



theorem stale_response_reuse_witness:
  "\<exists>qa st2 qb st4 effs.
     call_send encode_u32 1 (5::u32) rt_new = Inr (0, qa, rt_one) \<and>
     pending_request_drop 0 rt_one = Inr st2 \<and>
     call_send encode_u32 1 (6::u32) st2 = Inr (0, qb, rt_one) \<and>
     handle_response 4 3 5 1 (resp_hdr @ encode_response encode_u32
        \<lparr>rs_request_id = 0, rs_requester = 5, rs_requester_worker = 1, rs_payload = (52::u32)\<rparr> @ []) rt_one =
       Inr (st4, effs) \<and>
     (\<exists>st5. call_complete decode_u32 0 7 st4 = Inr (Some 52, st5))"
proof -
  let ?st2 = "rt_one\<lparr>rt_pending_requests := \<lparr>sl_entries = [Vacant 1], sl_len = 0, sl_next = 0\<rparr>\<rparr>"
  obtain qa where a: "call_send encode_u32 1 (5::u32) rt_new = Inr (0, qa, rt_one)"
    by (simp add: call_send_def client_start_request_def slab_insert_def rt_new_def rt_one_def slab_new_def)
  have d: "pending_request_drop 0 rt_one = Inr ?st2"
    by (simp add: pending_request_drop_def slab_remove_def slab_try_remove_def rt_one_def)
  obtain qb where b: "call_send encode_u32 1 (6::u32) ?st2 = Inr (0, qb, rt_one)"
    by (simp add: call_send_def client_start_request_def slab_insert_def rt_one_def)
  have h: "length resp_hdr = transmit_packet_base_len" by code_simp
  let ?r = "\<lparr>rs_request_id = 0 :: u32, rs_requester = 5, rs_requester_worker = 1, rs_payload = (52::u32)\<rparr>"
  obtain st4 effs where hr: "handle_response 4 3 5 1 (resp_hdr @ encode_response encode_u32 ?r @ []) rt_one = Inr (st4, effs)"
    using handle_response_enc [OF h, of 4 3 5 1 encode_u32 ?r "[]" rt_one]
    by (auto simp: Let_def split: prod.splits)
  have wf: "slab_wf (rt_pending_requests rt_new)"
    by (simp add: rt_new_def slab_new_wf)
  have small: "length (sl_entries (rt_pending_requests rt_new)) < 2 ^ 32"
    by (simp add: rt_new_def slab_new_def)
  from stale_response_reuse [OF wf small a d b h _ _ _ hr codec_exact_u32, where waker = 7]
  have "\<exists>st5. call_complete decode_u32 0 7 st4 = Inr (Some 52, st5)"
    by simp
  with a d b hr show ?thesis by blast
qed

end
