(* ===== verification/EndpointProto.thy ===== *)
theory EndpointProto
  imports Wire Proto
begin

text \<open>
  The rest of \<open>endpoint_proto.rs\<close> beyond the owned codecs of \<open>Wire\<close>: for
  \<open>EndpointAddr\<close>, \<open>PacketBundle\<close> and \<open>TransmitPacket\<close> the \<open>Gen\<close> forms, the
  lazy views (\<open>Decode\<close> of a lazy view only records the offset and advances by
  \<open>BASE_LEN\<close>; its \<open>Encode\<close> re-reads every field with \<open>unwrap\<close>; its
  \<open>PartialEq\<close> compares the fields in order with \<open>&&\<close>, unwrapping each), the
  \<open>TryFrom\<close> conversions; the generic \<open>PlaneHandshake<T>\<close> completely; and the
  length-prefixed handshake exchange of \<open>tcp_client_server.rs\<close> (the same code is in
  \<open>ws_client_server.rs\<close> and \<open>app_hub.rs\<close>).

  A lazy view is the byte string from its offset to the end of the buffer.  A failed
  \<open>unwrap\<close> is \<open>Inl UnwrapPanic\<close>.  \<open>mproto::decode_value\<close> is the value's
  decoder applied to the start of the buffer.
\<close>

section \<open>EndpointAddr\<close>

record endpoint_addr_gen =
  eag_endpoint :: u64

definition endpoint_addr_base_len :: nat where
  "endpoint_addr_base_len = 8"

definition encode_endpoint_addr_gen :: "endpoint_addr_gen \<Rightarrow> bytes" where
  "encode_endpoint_addr_gen g = encode_u64 (eag_endpoint g)"

definition endpoint_addr_lazy_endpoint :: "bytes \<Rightarrow> u64 option" where
  "endpoint_addr_lazy_endpoint v = map_option fst (decode_u64 (drop 0 v))"

definition decode_endpoint_addr_lazy :: "bytes \<Rightarrow> (bytes \<times> bytes) option" where
  "decode_endpoint_addr_lazy bs = Some (bs, drop endpoint_addr_base_len bs)"

definition encode_endpoint_addr_lazy :: "bytes \<Rightarrow> proto_error + bytes" where
  "encode_endpoint_addr_lazy v =
     (case endpoint_addr_lazy_endpoint v of
        Some endpoint_v \<Rightarrow> Inr (encode_u64 endpoint_v)
      | None \<Rightarrow> Inl UnwrapPanic)"

definition endpoint_addr_try_from :: "bytes \<Rightarrow> endpoint_addr option" where
  "endpoint_addr_try_from v = map_option fst (decode_endpoint_addr v)"

definition endpoint_addr_lazy_eq :: "bytes \<Rightarrow> bytes \<Rightarrow> proto_error + bool" where
  "endpoint_addr_lazy_eq v1 v2 =
     (case (endpoint_addr_lazy_endpoint v1, endpoint_addr_lazy_endpoint v2) of
        (Some x, Some y) \<Rightarrow> Inr (x = y)
      | _ \<Rightarrow> Inl UnwrapPanic)"

section \<open>PacketBundle\<close>

record packet_bundle_gen =
  pbg_channel_id :: u32
  pbg_length :: u16

definition encode_packet_bundle_gen :: "packet_bundle_gen \<Rightarrow> bytes" where
  "encode_packet_bundle_gen g = encode_u32 (pbg_channel_id g) @ encode_u16 (pbg_length g)"

definition packet_bundle_lazy_channel_id :: "bytes \<Rightarrow> u32 option" where
  "packet_bundle_lazy_channel_id v = map_option fst (decode_u32 (drop 0 v))"

definition packet_bundle_lazy_length :: "bytes \<Rightarrow> u16 option" where
  "packet_bundle_lazy_length v = map_option fst (decode_u16 (drop 4 v))"

definition decode_packet_bundle_lazy :: "bytes \<Rightarrow> (bytes \<times> bytes) option" where
  "decode_packet_bundle_lazy bs = Some (bs, drop packet_bundle_base_len bs)"

definition encode_packet_bundle_lazy :: "bytes \<Rightarrow> proto_error + bytes" where
  "encode_packet_bundle_lazy v =
     (case (packet_bundle_lazy_channel_id v, packet_bundle_lazy_length v) of
        (Some channel_id_v, Some length_v) \<Rightarrow>
          concat_results [Inr (encode_u32 channel_id_v), Inr (encode_u16 length_v)]
      | _ \<Rightarrow> Inl UnwrapPanic)"

definition packet_bundle_try_from :: "bytes \<Rightarrow> packet_bundle option" where
  "packet_bundle_try_from v = map_option fst (decode_packet_bundle v)"

definition packet_bundle_lazy_eq :: "bytes \<Rightarrow> bytes \<Rightarrow> proto_error + bool" where
  "packet_bundle_lazy_eq v1 v2 =
     (case (packet_bundle_lazy_channel_id v1, packet_bundle_lazy_channel_id v2) of
        (Some x, Some y) \<Rightarrow>
          if x = y then
            (case (packet_bundle_lazy_length v1, packet_bundle_lazy_length v2) of
               (Some x, Some y) \<Rightarrow> Inr (x = y)
             | _ \<Rightarrow> Inl UnwrapPanic)
          else Inr False
      | _ \<Rightarrow> Inl UnwrapPanic)"

section \<open>TransmitPacket\<close>

record 's transmit_packet_gen =
  tpg_payload_length :: u16
  tpg_infra_id :: u16
  tpg_plane_id :: u32
  tpg_topic :: u32
  tpg_source :: 's

definition transmit_packet_gen_base_len :: "nat \<Rightarrow> nat" where
  "transmit_packet_gen_base_len sb = 12 + sb"

definition encode_transmit_packet_gen :: "('s \<Rightarrow> bytes) \<Rightarrow> 's transmit_packet_gen \<Rightarrow> bytes" where
  "encode_transmit_packet_gen encS g =
     encode_u16 (tpg_payload_length g) @ encode_u16 (tpg_infra_id g) @
     encode_u32 (tpg_plane_id g) @ encode_u32 (tpg_topic g) @ encS (tpg_source g)"

text \<open>\<open>TransmitPacketLazy::source\<close> returns the lazy view of the address at offset 12.\<close>

definition transmit_packet_lazy_source :: "bytes \<Rightarrow> bytes option" where
  "transmit_packet_lazy_source v = map_option fst (decode_endpoint_addr_lazy (drop 12 v))"

definition decode_transmit_packet_lazy :: "bytes \<Rightarrow> (bytes \<times> bytes) option" where
  "decode_transmit_packet_lazy bs = Some (bs, drop transmit_packet_base_len bs)"

definition encode_transmit_packet_lazy :: "bytes \<Rightarrow> proto_error + bytes" where
  "encode_transmit_packet_lazy v =
     (case (lazy_payload_length v, lazy_infra_id v, lazy_plane_id v, lazy_topic v,
            transmit_packet_lazy_source v) of
        (Some payload_length_v, Some infra_id_v, Some plane_id_v, Some topic_v, Some source_v) \<Rightarrow>
          concat_results [Inr (encode_u16 payload_length_v), Inr (encode_u16 infra_id_v),
            Inr (encode_u32 plane_id_v), Inr (encode_u32 topic_v), encode_endpoint_addr_lazy source_v]
      | _ \<Rightarrow> Inl UnwrapPanic)"

definition transmit_packet_try_from :: "bytes \<Rightarrow> transmit_packet option" where
  "transmit_packet_try_from v = map_option fst (decode_transmit_packet v)"

definition transmit_packet_lazy_eq :: "bytes \<Rightarrow> bytes \<Rightarrow> proto_error + bool" where
  "transmit_packet_lazy_eq v1 v2 =
     (case (lazy_payload_length v1, lazy_payload_length v2) of
        (Some a, Some b) \<Rightarrow> if a \<noteq> b then Inr False else
     (case (lazy_infra_id v1, lazy_infra_id v2) of
        (Some a, Some b) \<Rightarrow> if a \<noteq> b then Inr False else
     (case (lazy_plane_id v1, lazy_plane_id v2) of
        (Some a, Some b) \<Rightarrow> if a \<noteq> b then Inr False else
     (case (lazy_topic v1, lazy_topic v2) of
        (Some a, Some b) \<Rightarrow> if a \<noteq> b then Inr False else
     (case (transmit_packet_lazy_source v1, transmit_packet_lazy_source v2) of
        (Some a, Some b) \<Rightarrow> endpoint_addr_lazy_eq a b
      | _ \<Rightarrow> Inl UnwrapPanic)
      | _ \<Rightarrow> Inl UnwrapPanic)
      | _ \<Rightarrow> Inl UnwrapPanic)
      | _ \<Rightarrow> Inl UnwrapPanic)
      | _ \<Rightarrow> Inl UnwrapPanic)"

section \<open>PlaneHandshake\<close>

record 't plane_handshake =
  ph_plane_id :: u32
  ph_endpoint_addr :: endpoint_addr
  ph_init :: 't

record ('e, 'i) plane_handshake_gen =
  phg_plane_id :: u32
  phg_endpoint_addr :: 'e
  phg_init :: 'i

definition plane_handshake_gen_base_len :: "nat \<Rightarrow> nat \<Rightarrow> nat" where
  "plane_handshake_gen_base_len eb ib = 4 + eb + ib"

definition encode_plane_handshake_gen ::
    "('e \<Rightarrow> bytes) \<Rightarrow> ('i \<Rightarrow> bytes) \<Rightarrow> ('e, 'i) plane_handshake_gen \<Rightarrow> bytes" where
  "encode_plane_handshake_gen encE encI g =
     encode_u32 (phg_plane_id g) @ encE (phg_endpoint_addr g) @ encI (phg_init g)"

definition plane_handshake_base_len :: "nat \<Rightarrow> nat" where
  "plane_handshake_base_len tb = 12 + tb"

definition encode_plane_handshake :: "('t \<Rightarrow> bytes) \<Rightarrow> 't plane_handshake \<Rightarrow> bytes" where
  "encode_plane_handshake encT x =
     encode_u32 (ph_plane_id x) @ encode_endpoint_addr (ph_endpoint_addr x) @ encT (ph_init x)"

definition decode_plane_handshake ::
    "(bytes \<Rightarrow> ('t \<times> bytes) option) \<Rightarrow> bytes \<Rightarrow> ('t plane_handshake \<times> bytes) option" where
  "decode_plane_handshake decT bs = do {
     (plane_id_v, r) \<leftarrow> decode_u32 bs;
     (endpoint_addr_v, r) \<leftarrow> decode_endpoint_addr r;
     (init_v, r) \<leftarrow> decT r;
     Some (\<lparr>ph_plane_id = plane_id_v, ph_endpoint_addr = endpoint_addr_v, ph_init = init_v\<rparr>, r)
   }"

definition plane_handshake_lazy_plane_id :: "bytes \<Rightarrow> u32 option" where
  "plane_handshake_lazy_plane_id v = map_option fst (decode_u32 (drop 0 v))"

definition plane_handshake_lazy_endpoint_addr :: "bytes \<Rightarrow> bytes option" where
  "plane_handshake_lazy_endpoint_addr v = map_option fst (decode_endpoint_addr_lazy (drop 4 v))"

definition plane_handshake_lazy_init :: "(bytes \<Rightarrow> ('l \<times> bytes) option) \<Rightarrow> bytes \<Rightarrow> 'l option" where
  "plane_handshake_lazy_init decLT v = map_option fst (decLT (drop 12 v))"

definition decode_plane_handshake_lazy :: "nat \<Rightarrow> bytes \<Rightarrow> (bytes \<times> bytes) option" where
  "decode_plane_handshake_lazy tb bs = Some (bs, drop (plane_handshake_base_len tb) bs)"

definition encode_plane_handshake_lazy ::
    "(bytes \<Rightarrow> ('l \<times> bytes) option) \<Rightarrow> ('l \<Rightarrow> bytes) \<Rightarrow> bytes \<Rightarrow> proto_error + bytes" where
  "encode_plane_handshake_lazy decLT encLT v =
     (case (plane_handshake_lazy_plane_id v, plane_handshake_lazy_endpoint_addr v,
            plane_handshake_lazy_init decLT v) of
        (Some plane_id_v, Some endpoint_addr_v, Some init_v) \<Rightarrow>
          concat_results [Inr (encode_u32 plane_id_v), encode_endpoint_addr_lazy endpoint_addr_v,
                          Inr (encLT init_v)]
      | _ \<Rightarrow> Inl UnwrapPanic)"

definition plane_handshake_try_from ::
    "(bytes \<Rightarrow> ('t \<times> bytes) option) \<Rightarrow> bytes \<Rightarrow> 't plane_handshake option" where
  "plane_handshake_try_from decT v = map_option fst (decode_plane_handshake decT v)"

definition plane_handshake_lazy_eq ::
    "(bytes \<Rightarrow> ('l \<times> bytes) option) \<Rightarrow> bytes \<Rightarrow> bytes \<Rightarrow> proto_error + bool" where
  "plane_handshake_lazy_eq decLT v1 v2 =
     (case (plane_handshake_lazy_plane_id v1, plane_handshake_lazy_plane_id v2) of
        (Some a, Some b) \<Rightarrow> if a \<noteq> b then Inr False else
     (case (plane_handshake_lazy_endpoint_addr v1, plane_handshake_lazy_endpoint_addr v2) of
        (Some a, Some b) \<Rightarrow>
          (case endpoint_addr_lazy_eq a b of
             Inl e \<Rightarrow> Inl e
           | Inr False \<Rightarrow> Inr False
           | Inr True \<Rightarrow>
              (case (plane_handshake_lazy_init decLT v1, plane_handshake_lazy_init decLT v2) of
                 (Some a, Some b) \<Rightarrow> Inr (a = b)
               | _ \<Rightarrow> Inl UnwrapPanic))
      | _ \<Rightarrow> Inl UnwrapPanic)
      | _ \<Rightarrow> Inl UnwrapPanic)"

section \<open>The handshake exchange\<close>

datatype handshake_error = UnexpectedEof | HandshakeDecodeError

text \<open>\<open>TcpServer::handshake\<close>: the encoded handshake prefixed by its length as
  \<open>u16\<close> (\<open>payload_len as u16\<close>, truncating).\<close>

definition handshake_frame :: "('t \<Rightarrow> bytes) \<Rightarrow> u32 \<Rightarrow> endpoint_addr \<Rightarrow> 't \<Rightarrow> bytes" where
  "handshake_frame encT plane_id endpoint_addr init =
     (let payload = encode_plane_handshake encT
                      \<lparr>ph_plane_id = plane_id, ph_endpoint_addr = endpoint_addr, ph_init = init\<rparr>;
          payload_len = length payload
      in encode_u16 (of_nat payload_len) @ payload)"

text \<open>The reading side of \<open>tcp_connect\<close>: \<open>read_exact\<close> of the two length bytes and
  of \<open>payload_len\<close> bytes (an end of stream before is an I/O error), then
  \<open>decode_value\<close>; the rest of the stream is what the transport reads next.\<close>

definition handshake_read ::
    "(bytes \<Rightarrow> ('t \<times> bytes) option) \<Rightarrow> bytes \<Rightarrow> handshake_error + 't plane_handshake \<times> bytes" where
  "handshake_read decT stream =
     (case decode_u16 stream of
        None \<Rightarrow> Inl UnexpectedEof
      | Some (payload_len, r) \<Rightarrow>
          if length r < unat payload_len then Inl UnexpectedEof
          else (case decode_plane_handshake decT (take (unat payload_len) r) of
                  None \<Rightarrow> Inl HandshakeDecodeError
                | Some (hs, _) \<Rightarrow> Inr (hs, drop (unat payload_len) r)))"

section \<open>Codec lemmas\<close>

lemma plane_handshake_codec:
  "codec_exact encT decT \<Longrightarrow> codec_exact (encode_plane_handshake encT) (decode_plane_handshake decT)"
  unfolding codec_exact_def
proof (intro allI)
  fix bs x r
  assume h: "\<forall>bs x r. decT bs = Some (x, r) \<longleftrightarrow> bs = encT x @ r"
  show "decode_plane_handshake decT bs = Some (x, r) \<longleftrightarrow> bs = encode_plane_handshake encT x @ r"
    using h by (cases x) (auto simp: encode_plane_handshake_def decode_plane_handshake_def
        bind_eq_Some_conv decode_u32_iff decode_endpoint_addr_iff)
qed

lemma endpoint_addr_lazy_enc [simp]:
  "endpoint_addr_lazy_endpoint (encode_endpoint_addr a @ r) = Some (endpoint a)"
  by (simp add: endpoint_addr_lazy_endpoint_def encode_endpoint_addr_def)

lemma transmit_packet_lazy_fields [simp]:
  "lazy_payload_length (encode_transmit_packet t @ r) = Some (tp_payload_length t)"
  "lazy_infra_id (encode_transmit_packet t @ r) = Some (tp_infra_id t)"
  "lazy_plane_id (encode_transmit_packet t @ r) = Some (tp_plane_id t)"
  "lazy_topic (encode_transmit_packet t @ r) = Some (tp_topic t)"
  "transmit_packet_lazy_source (encode_transmit_packet t @ r) = Some (encode_endpoint_addr (tp_source t) @ r)"
  by (simp_all add: lazy_payload_length_def lazy_infra_id_def lazy_plane_id_def lazy_topic_def
      transmit_packet_lazy_source_def decode_endpoint_addr_lazy_def encode_transmit_packet_def)

lemma transmit_packet_lazy_reencode:
  "encode_transmit_packet_lazy (encode_transmit_packet t @ r) = Inr (encode_transmit_packet t)"
  by (simp add: encode_transmit_packet_lazy_def encode_endpoint_addr_lazy_def)
     (simp add: encode_transmit_packet_def encode_endpoint_addr_def)

text \<open>
  The generated PartialEq of two TransmitPacketLazy views over encoded headers
  never panics and is true exactly when the two headers are equal.
\<close>
theorem transmit_packet_lazy_eq_enc:
  "transmit_packet_lazy_eq (encode_transmit_packet a @ r1) (encode_transmit_packet b @ r2) = Inr (a = b)"
proof (cases a, cases b)
  fix pa ia pla ta sa pb ib plb tb sb
  assume a: "a = \<lparr>tp_payload_length = pa, tp_infra_id = ia, tp_plane_id = pla, tp_topic = ta, tp_source = sa\<rparr>"
    and b: "b = \<lparr>tp_payload_length = pb, tp_infra_id = ib, tp_plane_id = plb, tp_topic = tb, tp_source = sb\<rparr>"
  have "(sa = sb) = (endpoint sa = endpoint sb)"
    by (cases sa, cases sb) simp
  with a b show ?thesis
    by (auto simp: transmit_packet_lazy_eq_def endpoint_addr_lazy_eq_def)
qed

text \<open>
  The handshake exchange round-trips: when the encoded handshake is shorter than
  64 KiB, the reading side of tcp_connect gets back exactly the handshake the server sent
  and leaves the bytes that follow it (the transport's bundles) unread.
\<close>
theorem handshake_roundtrip:
  assumes c: "codec_exact encT decT"
    and small: "length (encode_plane_handshake encT h) < 2 ^ 16"
  shows "handshake_read decT (handshake_frame encT (ph_plane_id h) (ph_endpoint_addr h) (ph_init h) @ rest) =
           Inr (h, rest)"
proof -
  let ?p = "encode_plane_handshake encT h"
  have hh: "\<lparr>ph_plane_id = ph_plane_id h, ph_endpoint_addr = ph_endpoint_addr h, ph_init = ph_init h\<rparr> = h"
    by simp
  have u: "unat (of_nat (length ?p) :: u16) = length ?p"
    using small by (simp add: unat_of_nat)
  have d: "decode_plane_handshake decT ?p = Some (h, [])"
    using codec_exact_enc [OF plane_handshake_codec [OF c], of h "[]"] by simp
  show ?thesis
    using u d by (simp add: handshake_read_def handshake_frame_def hh Let_def)
qed

text \<open>
  A handshake whose encoding is 64 KiB or longer is framed with its length
  modulo 2^16 (payload_len as u16), so the reading side never recovers it together with
  the rest of the stream: it either fails or stops inside the handshake bytes.
\<close>
theorem handshake_length_truncation:
  assumes big: "2 ^ 16 \<le> length (encode_plane_handshake encT h)"
  shows "handshake_read decT (handshake_frame encT (ph_plane_id h) (ph_endpoint_addr h) (ph_init h) @ rest) \<noteq>
           Inr (h', rest)"
proof
  let ?p = "encode_plane_handshake encT h"
  have hh: "\<lparr>ph_plane_id = ph_plane_id h, ph_endpoint_addr = ph_endpoint_addr h, ph_init = ph_init h\<rparr> = h"
    by simp
  have u: "unat (of_nat (length ?p) :: u16) = length ?p mod 2 ^ 16"
    by (simp add: unat_of_nat)
  have "length ?p mod 2 ^ 16 < 2 ^ 16" by simp
  with big have lt: "length ?p mod 2 ^ 16 < length ?p" by linarith
  assume "handshake_read decT (handshake_frame encT (ph_plane_id h) (ph_endpoint_addr h) (ph_init h) @ rest) =
          Inr (h', rest)"
  then have "drop (length ?p mod 2 ^ 16) (?p @ rest) = rest"
    using u by (auto simp: handshake_read_def handshake_frame_def hh Let_def split: if_splits option.splits)
  then have "length (drop (length ?p mod 2 ^ 16) (?p @ rest)) = length rest" by simp
  with lt show False by simp
qed

section \<open>Witnesses\<close>

theorem handshake_roundtrip_witness:
  "handshake_read decode_u32 (handshake_frame encode_u32 3 \<lparr>endpoint = 5\<rparr> 77 @ [9, 9]) =
     Inr (\<lparr>ph_plane_id = 3, ph_endpoint_addr = \<lparr>endpoint = 5\<rparr>, ph_init = 77\<rparr>, [9, 9])"
proof -
  have small: "length (encode_plane_handshake encode_u32
      \<lparr>ph_plane_id = 3, ph_endpoint_addr = \<lparr>endpoint = 5\<rparr>, ph_init = (77::u32)\<rparr>) < 2 ^ 16"
    by (simp add: encode_plane_handshake_def)
  from handshake_roundtrip [OF codec_exact_u32 small, of "[9, 9]"] show ?thesis by simp
qed

theorem handshake_length_truncation_witness:
  "handshake_read (\<lambda>bs. Some (bs, [])) (handshake_frame id 3 \<lparr>endpoint = 5\<rparr> (replicate 65536 0) @ [1])
     \<noteq> Inr (\<lparr>ph_plane_id = 3, ph_endpoint_addr = \<lparr>endpoint = 5\<rparr>, ph_init = replicate 65536 0\<rparr>, [1])"
proof -
  have big: "2 ^ 16 \<le> length (encode_plane_handshake id
      \<lparr>ph_plane_id = 3, ph_endpoint_addr = \<lparr>endpoint = 5\<rparr>, ph_init = replicate 65536 (0::u8)\<rparr>)"
    by (simp add: encode_plane_handshake_def)
  from handshake_length_truncation [OF big, of "\<lambda>bs. Some (bs, [])" "[1]"] show ?thesis by simp
qed

end
