(* ===== verification/AppProto.thy ===== *)
theory AppProto
  imports Proto
begin

text \<open>
  The generated protocol modules of the repository's example and test interfaces:
  \<open>integ-tests/foo-modrpc/rust/src/proto.rs\<close> (\<open>FooInitState\<close>, whose one field is a
  std-modrpc \<open>PropertyInitState<u64>\<close>, and the empty \<open>FooClientConfig\<close> and
  \<open>FooServerConfig\<close>) and \<open>examples/p2p-benchmark/p2p-benchmark-modrpc/rust/src/proto.rs\<close>
  (three empty structs).  Each struct is modelled as in \<open>Proto\<close>: owned value, Gen form,
  BASE_LEN, Encode, Decode, the lazy view's Decode and Encode, TryFrom and the lazy
  PartialEq.  An empty struct encodes to no bytes and its lazy views are always equal.
\<close>

section \<open>FooInitState\<close>

record foo_init_state =
  fis_fooness :: "u64 property_init_state"

record 'f foo_init_state_gen =
  fisg_fooness :: 'f

definition foo_init_state_base_len :: nat where
  "foo_init_state_base_len = 8"

definition encode_foo_init_state_gen :: "('f \<Rightarrow> bytes) \<Rightarrow> 'f foo_init_state_gen \<Rightarrow> bytes" where
  "encode_foo_init_state_gen encF g = encF (fisg_fooness g)"

definition encode_foo_init_state :: "foo_init_state \<Rightarrow> bytes" where
  "encode_foo_init_state x = encode_property_init_state encode_u64 (fis_fooness x)"

definition decode_foo_init_state :: "bytes \<Rightarrow> (foo_init_state \<times> bytes) option" where
  "decode_foo_init_state bs = do {
     (fooness_v, r) \<leftarrow> decode_property_init_state decode_u64 bs;
     Some (\<lparr>fis_fooness = fooness_v\<rparr>, r)
   }"

definition foo_init_state_lazy_fooness :: "bytes \<Rightarrow> bytes option" where
  "foo_init_state_lazy_fooness v = map_option fst (decode_property_init_state_lazy 8 (drop 0 v))"

definition decode_foo_init_state_lazy :: "bytes \<Rightarrow> (bytes \<times> bytes) option" where
  "decode_foo_init_state_lazy bs = Some (bs, drop foo_init_state_base_len bs)"

definition encode_foo_init_state_lazy :: "bytes \<Rightarrow> proto_error + bytes" where
  "encode_foo_init_state_lazy v =
     (case foo_init_state_lazy_fooness v of
        Some fooness_v \<Rightarrow> encode_property_init_state_lazy decode_u64 encode_u64 fooness_v
      | None \<Rightarrow> Inl UnwrapPanic)"

definition foo_init_state_try_from :: "bytes \<Rightarrow> foo_init_state option" where
  "foo_init_state_try_from v = map_option fst (decode_foo_init_state v)"

definition foo_init_state_lazy_eq :: "bytes \<Rightarrow> bytes \<Rightarrow> proto_error + bool" where
  "foo_init_state_lazy_eq v1 v2 =
     (case (foo_init_state_lazy_fooness v1, foo_init_state_lazy_fooness v2) of
        (Some x, Some y) \<Rightarrow> property_init_state_lazy_eq decode_u64 x y
      | _ \<Rightarrow> Inl UnwrapPanic)"

section \<open>Empty structs\<close>

subsection \<open>\<open>FooClientConfig\<close>\<close>

datatype foo_client_config = FooClientConfig

datatype foo_client_config_gen = FooClientConfigGen

definition foo_client_config_base_len :: nat where
  "foo_client_config_base_len = 0"

definition encode_foo_client_config_gen :: "foo_client_config_gen \<Rightarrow> bytes" where
  "encode_foo_client_config_gen g = []"

definition encode_foo_client_config :: "foo_client_config \<Rightarrow> bytes" where
  "encode_foo_client_config x = []"

definition decode_foo_client_config :: "bytes \<Rightarrow> (foo_client_config \<times> bytes) option" where
  "decode_foo_client_config bs = Some (FooClientConfig, bs)"

definition decode_foo_client_config_lazy :: "bytes \<Rightarrow> (bytes \<times> bytes) option" where
  "decode_foo_client_config_lazy bs = Some (bs, drop foo_client_config_base_len bs)"

definition encode_foo_client_config_lazy :: "bytes \<Rightarrow> bytes" where
  "encode_foo_client_config_lazy v = []"

definition foo_client_config_try_from :: "bytes \<Rightarrow> foo_client_config option" where
  "foo_client_config_try_from v = map_option fst (decode_foo_client_config v)"

definition foo_client_config_lazy_eq :: "bytes \<Rightarrow> bytes \<Rightarrow> bool" where
  "foo_client_config_lazy_eq v1 v2 = True"

subsection \<open>\<open>FooServerConfig\<close>\<close>

datatype foo_server_config = FooServerConfig

datatype foo_server_config_gen = FooServerConfigGen

definition foo_server_config_base_len :: nat where
  "foo_server_config_base_len = 0"

definition encode_foo_server_config_gen :: "foo_server_config_gen \<Rightarrow> bytes" where
  "encode_foo_server_config_gen g = []"

definition encode_foo_server_config :: "foo_server_config \<Rightarrow> bytes" where
  "encode_foo_server_config x = []"

definition decode_foo_server_config :: "bytes \<Rightarrow> (foo_server_config \<times> bytes) option" where
  "decode_foo_server_config bs = Some (FooServerConfig, bs)"

definition decode_foo_server_config_lazy :: "bytes \<Rightarrow> (bytes \<times> bytes) option" where
  "decode_foo_server_config_lazy bs = Some (bs, drop foo_server_config_base_len bs)"

definition encode_foo_server_config_lazy :: "bytes \<Rightarrow> bytes" where
  "encode_foo_server_config_lazy v = []"

definition foo_server_config_try_from :: "bytes \<Rightarrow> foo_server_config option" where
  "foo_server_config_try_from v = map_option fst (decode_foo_server_config v)"

definition foo_server_config_lazy_eq :: "bytes \<Rightarrow> bytes \<Rightarrow> bool" where
  "foo_server_config_lazy_eq v1 v2 = True"

subsection \<open>\<open>P2pBenchmarkInitState\<close>\<close>

datatype p2p_benchmark_init_state = P2pBenchmarkInitState

datatype p2p_benchmark_init_state_gen = P2pBenchmarkInitStateGen

definition p2p_benchmark_init_state_base_len :: nat where
  "p2p_benchmark_init_state_base_len = 0"

definition encode_p2p_benchmark_init_state_gen :: "p2p_benchmark_init_state_gen \<Rightarrow> bytes" where
  "encode_p2p_benchmark_init_state_gen g = []"

definition encode_p2p_benchmark_init_state :: "p2p_benchmark_init_state \<Rightarrow> bytes" where
  "encode_p2p_benchmark_init_state x = []"

definition decode_p2p_benchmark_init_state :: "bytes \<Rightarrow> (p2p_benchmark_init_state \<times> bytes) option" where
  "decode_p2p_benchmark_init_state bs = Some (P2pBenchmarkInitState, bs)"

definition decode_p2p_benchmark_init_state_lazy :: "bytes \<Rightarrow> (bytes \<times> bytes) option" where
  "decode_p2p_benchmark_init_state_lazy bs = Some (bs, drop p2p_benchmark_init_state_base_len bs)"

definition encode_p2p_benchmark_init_state_lazy :: "bytes \<Rightarrow> bytes" where
  "encode_p2p_benchmark_init_state_lazy v = []"

definition p2p_benchmark_init_state_try_from :: "bytes \<Rightarrow> p2p_benchmark_init_state option" where
  "p2p_benchmark_init_state_try_from v = map_option fst (decode_p2p_benchmark_init_state v)"

definition p2p_benchmark_init_state_lazy_eq :: "bytes \<Rightarrow> bytes \<Rightarrow> bool" where
  "p2p_benchmark_init_state_lazy_eq v1 v2 = True"

subsection \<open>\<open>P2pBenchmarkClientConfig\<close>\<close>

datatype p2p_benchmark_client_config = P2pBenchmarkClientConfig

datatype p2p_benchmark_client_config_gen = P2pBenchmarkClientConfigGen

definition p2p_benchmark_client_config_base_len :: nat where
  "p2p_benchmark_client_config_base_len = 0"

definition encode_p2p_benchmark_client_config_gen :: "p2p_benchmark_client_config_gen \<Rightarrow> bytes" where
  "encode_p2p_benchmark_client_config_gen g = []"

definition encode_p2p_benchmark_client_config :: "p2p_benchmark_client_config \<Rightarrow> bytes" where
  "encode_p2p_benchmark_client_config x = []"

definition decode_p2p_benchmark_client_config :: "bytes \<Rightarrow> (p2p_benchmark_client_config \<times> bytes) option" where
  "decode_p2p_benchmark_client_config bs = Some (P2pBenchmarkClientConfig, bs)"

definition decode_p2p_benchmark_client_config_lazy :: "bytes \<Rightarrow> (bytes \<times> bytes) option" where
  "decode_p2p_benchmark_client_config_lazy bs = Some (bs, drop p2p_benchmark_client_config_base_len bs)"

definition encode_p2p_benchmark_client_config_lazy :: "bytes \<Rightarrow> bytes" where
  "encode_p2p_benchmark_client_config_lazy v = []"

definition p2p_benchmark_client_config_try_from :: "bytes \<Rightarrow> p2p_benchmark_client_config option" where
  "p2p_benchmark_client_config_try_from v = map_option fst (decode_p2p_benchmark_client_config v)"

definition p2p_benchmark_client_config_lazy_eq :: "bytes \<Rightarrow> bytes \<Rightarrow> bool" where
  "p2p_benchmark_client_config_lazy_eq v1 v2 = True"

subsection \<open>\<open>P2pBenchmarkServerConfig\<close>\<close>

datatype p2p_benchmark_server_config = P2pBenchmarkServerConfig

datatype p2p_benchmark_server_config_gen = P2pBenchmarkServerConfigGen

definition p2p_benchmark_server_config_base_len :: nat where
  "p2p_benchmark_server_config_base_len = 0"

definition encode_p2p_benchmark_server_config_gen :: "p2p_benchmark_server_config_gen \<Rightarrow> bytes" where
  "encode_p2p_benchmark_server_config_gen g = []"

definition encode_p2p_benchmark_server_config :: "p2p_benchmark_server_config \<Rightarrow> bytes" where
  "encode_p2p_benchmark_server_config x = []"

definition decode_p2p_benchmark_server_config :: "bytes \<Rightarrow> (p2p_benchmark_server_config \<times> bytes) option" where
  "decode_p2p_benchmark_server_config bs = Some (P2pBenchmarkServerConfig, bs)"

definition decode_p2p_benchmark_server_config_lazy :: "bytes \<Rightarrow> (bytes \<times> bytes) option" where
  "decode_p2p_benchmark_server_config_lazy bs = Some (bs, drop p2p_benchmark_server_config_base_len bs)"

definition encode_p2p_benchmark_server_config_lazy :: "bytes \<Rightarrow> bytes" where
  "encode_p2p_benchmark_server_config_lazy v = []"

definition p2p_benchmark_server_config_try_from :: "bytes \<Rightarrow> p2p_benchmark_server_config option" where
  "p2p_benchmark_server_config_try_from v = map_option fst (decode_p2p_benchmark_server_config v)"

definition p2p_benchmark_server_config_lazy_eq :: "bytes \<Rightarrow> bytes \<Rightarrow> bool" where
  "p2p_benchmark_server_config_lazy_eq v1 v2 = True"

section \<open>Lemmas\<close>

lemma foo_init_state_codec: "codec_exact encode_foo_init_state decode_foo_init_state"
  unfolding codec_exact_def
proof (intro allI)
  fix bs x r
  have pis: "decode_property_init_state decode_u64 bs = Some (p, r) \<longleftrightarrow>
      bs = encode_property_init_state encode_u64 p @ r" for p
    using property_init_state_codec [OF codec_exact_u64] by (simp add: codec_exact_def)
  show "decode_foo_init_state bs = Some (x, r) \<longleftrightarrow> bs = encode_foo_init_state x @ r"
    by (cases x) (auto simp: decode_foo_init_state_def encode_foo_init_state_def bind_eq_Some_conv pis)
qed

lemma foo_init_state_lazy_reencode:
  "encode_foo_init_state_lazy (encode_foo_init_state x @ r) = Inr (encode_foo_init_state x)"
  by (simp add: encode_foo_init_state_lazy_def foo_init_state_lazy_fooness_def
      decode_property_init_state_lazy_def encode_foo_init_state_def
      property_init_state_lazy_reencode [OF codec_exact_u64])

lemma foo_init_state_lazy_eq_enc:
  "foo_init_state_lazy_eq (encode_foo_init_state a @ r1) (encode_foo_init_state b @ r2) = Inr (a = b)"
  by (cases a, cases b) (simp add: foo_init_state_lazy_eq_def foo_init_state_lazy_fooness_def
      decode_property_init_state_lazy_def encode_foo_init_state_def
      property_init_state_lazy_eq_enc [OF codec_exact_u64])

end
