(* ===== verification/LoadBalancer.thy ===== *)
theory LoadBalancer
  imports Prelude "HOL-Library.Multiset"
begin

text \<open>
  The per-topic load balancer of \<open>load_balancer.rs\<close> on one worker.  The routing
  closure installed with \<open>route_to_local_queue\<close> tries the local queue unless the
  pull task is flushing overflow, and otherwise hands the packet to the shared MPMC queue
  of the \<open>(plane, topic)\<close>; the spawned task loops: clear the flag, receive a burst of at
  most \<open>rx_burst_size\<close> packets from the shared queue, set the flag and feed them into
  the local queue one by one.  The local queue's consumer (the queued handler) takes
  packets from its front.

  The state is a record of the flag, the three queues (local, shared, the task's current
  burst), the task's position in its loop, and two ghost logs: the packets produced on the
  worker and those handled, in order.  Each operation is a function on the state; an
  operation that would await (a full local queue, an empty shared queue) is not enabled.
  The shared queue is fed only by this worker and drained only by its task (other workers
  of the same topic are not modelled); queue shutdown is not modelled.
\<close>

datatype lb_phase = LbLoopTop | LbReceiving | LbFeeding

record lb_state =
  lb_flushing :: bool
  lb_local :: "bytes list"
  lb_local_cap :: nat
  lb_shared :: "bytes list"
  lb_batch :: "bytes list"
  lb_phase :: lb_phase
  lb_rx_burst :: nat
  lb_produced :: "bytes list"
  lb_handled :: "bytes list"

datatype lb_route = RouteShared

text \<open>The routing closure: \<open>None\<close> when \<open>try_send\<close> to the local queue succeeded,
  the shared sender when the queue is full or the task is flushing overflow.\<close>

definition lb_route_closure :: "bool \<Rightarrow> nat \<Rightarrow> bytes list \<Rightarrow> bytes \<Rightarrow> lb_route option \<times> bytes list" where
  "lb_route_closure is_flushing_overflow cap local packet =
     (if \<not> is_flushing_overflow then
        (if length local < cap then (None, local @ [packet]) else (Some RouteShared, local))
      else (Some RouteShared, local))"

text \<open>A packet produced on the worker: the closure runs and, when it returns the shared
  sender, the packet processor sends the packet there.\<close>

definition lb_produce :: "bytes \<Rightarrow> lb_state \<Rightarrow> lb_state" where
  "lb_produce packet st =
     (let (r, local') = lb_route_closure (lb_flushing st) (lb_local_cap st) (lb_local st) packet;
          st' = st\<lparr>lb_local := local', lb_produced := lb_produced st @ [packet]\<rparr>
      in case r of None \<Rightarrow> st' | Some RouteShared \<Rightarrow> st'\<lparr>lb_shared := lb_shared st @ [packet]\<rparr>)"

text \<open>The top of \<open>'recv_loop\<close>: \<open>is_flushing_overflow.set(false)\<close>.\<close>

definition lb_loop_top :: "lb_state \<Rightarrow> lb_state option" where
  "lb_loop_top st =
     (if lb_phase st = LbLoopTop then Some (st\<lparr>lb_flushing := False, lb_phase := LbReceiving\<rparr>)
      else None)"

text \<open>\<open>shared_rx.recv(rx_burst_size, ..)\<close> completes once a packet is there and takes
  at most a burst; a non-empty burst sets the flag.\<close>

definition lb_recv :: "lb_state \<Rightarrow> lb_state option" where
  "lb_recv st =
     (if lb_phase st = LbReceiving \<and> lb_shared st \<noteq> [] then
        (let n = min (lb_rx_burst st) (length (lb_shared st));
             burst = take n (lb_shared st)
         in Some (st\<lparr>lb_shared := drop n (lb_shared st), lb_batch := burst,
                    lb_flushing := (if 0 < n then True else lb_flushing st),
                    lb_phase := (if 0 < n then LbFeeding else LbLoopTop)\<rparr>))
      else None)"

text \<open>One \<open>local_queue_tx.send(..).await\<close> of the feeding loop; the loop returns to its
  top after the last packet of the burst.\<close>

definition lb_feed :: "lb_state \<Rightarrow> lb_state option" where
  "lb_feed st =
     (case (lb_phase st, lb_batch st) of
        (LbFeeding, p # ps) \<Rightarrow>
          if length (lb_local st) < lb_local_cap st then
            Some (st\<lparr>lb_local := lb_local st @ [p], lb_batch := ps,
                     lb_phase := (if ps = [] then LbLoopTop else LbFeeding)\<rparr>)
          else None
      | _ \<Rightarrow> None)"

text \<open>The queued handler takes the packet at the front of the local queue.\<close>

definition lb_consume :: "lb_state \<Rightarrow> lb_state option" where
  "lb_consume st =
     (case lb_local st of
        [] \<Rightarrow> None
      | p # ps \<Rightarrow> Some (st\<lparr>lb_local := ps, lb_handled := lb_handled st @ [p]\<rparr>))"

datatype lb_event = Produce bytes | LoopTop | Recv | Feed | Consume

fun lb_step :: "lb_event \<Rightarrow> lb_state \<Rightarrow> lb_state option" where
  "lb_step (Produce p) st = Some (lb_produce p st)"
| "lb_step LoopTop st = lb_loop_top st"
| "lb_step Recv st = lb_recv st"
| "lb_step Feed st = lb_feed st"
| "lb_step Consume st = lb_consume st"

fun lb_run :: "lb_event list \<Rightarrow> lb_state \<Rightarrow> lb_state option" where
  "lb_run [] st = Some st"
| "lb_run (e # es) st = (case lb_step e st of None \<Rightarrow> None | Some st' \<Rightarrow> lb_run es st')"

definition lb_init :: "nat \<Rightarrow> nat \<Rightarrow> lb_state" where
  "lb_init cap burst = \<lparr>lb_flushing = False, lb_local = [], lb_local_cap = cap, lb_shared = [],
     lb_batch = [], lb_phase = LbLoopTop, lb_rx_burst = burst, lb_produced = [], lb_handled = []\<rparr>"

inductive lb_reach :: "lb_state \<Rightarrow> bool" where
  lb_reach_init: "lb_reach (lb_init cap burst)"
| lb_reach_step: "lb_reach st \<Longrightarrow> lb_step e st = Some st' \<Longrightarrow> lb_reach st'"

text \<open>Conservation: every produced packet is handled, in the local queue, in the task's
  burst or in the shared queue, exactly once; the flag is clear while the task waits on
  the shared queue, and the burst is non-empty exactly while the task feeds it.\<close>

definition lb_inv :: "lb_state \<Rightarrow> bool" where
  "lb_inv st \<longleftrightarrow>
     mset (lb_produced st) = mset (lb_handled st) + mset (lb_local st) + mset (lb_batch st) + mset (lb_shared st) \<and>
     (lb_phase st = LbReceiving \<longrightarrow> \<not> lb_flushing st) \<and>
     (lb_phase st \<noteq> LbFeeding \<longrightarrow> lb_batch st = []) \<and>
     (lb_phase st = LbFeeding \<longrightarrow> lb_batch st \<noteq> [])"

section \<open>Scenario\<close>

text \<open>A local queue of capacity 1: P1 takes the slot and P2 spills to the shared queue;
  the handler drains the slot and P3 is produced before the pull task runs.\<close>

definition lb_reorder_trace :: "lb_event list" where
  "lb_reorder_trace = [LoopTop, Produce [1], Produce [2], Consume, Produce [3], Consume, Recv, Feed, Consume]"

section \<open>Lemmas\<close>

lemma lb_init_inv: "lb_inv (lb_init cap burst)"
  by (simp add: lb_inv_def lb_init_def)

lemma lb_produce_inv: "lb_inv st \<Longrightarrow> lb_inv (lb_produce p st)"
  by (auto simp: lb_inv_def lb_produce_def lb_route_closure_def Let_def)

lemma lb_loop_top_inv: "lb_inv st \<Longrightarrow> lb_loop_top st = Some st' \<Longrightarrow> lb_inv st'"
  by (auto simp: lb_inv_def lb_loop_top_def split: if_splits)

lemma lb_recv_inv: "lb_inv st \<Longrightarrow> lb_recv st = Some st' \<Longrightarrow> lb_inv st'"
proof -
  assume inv: "lb_inv st" and r: "lb_recv st = Some st'"
  let ?n = "min (lb_rx_burst st) (length (lb_shared st))"
  from r have ph: "lb_phase st = LbReceiving" and ne: "lb_shared st \<noteq> []"
    by (auto simp: lb_recv_def split: if_splits)
  from inv ph have b: "lb_batch st = []" by (simp add: lb_inv_def)
  have split: "mset (lb_shared st) = mset (take ?n (lb_shared st)) + mset (drop ?n (lb_shared st))"
    by (simp flip: mset_append)
  show ?thesis
  proof (cases "0 < ?n")
    case True
    with r ph ne have "st' = st\<lparr>lb_shared := drop ?n (lb_shared st), lb_batch := take ?n (lb_shared st),
        lb_flushing := True, lb_phase := LbFeeding\<rparr>"
      by (simp add: lb_recv_def Let_def)
    with inv b split True ne show ?thesis
      by (auto simp: lb_inv_def ac_simps)
  next
    case False
    with r ph ne have "st' = st\<lparr>lb_shared := drop ?n (lb_shared st), lb_batch := [],
        lb_phase := LbLoopTop\<rparr>"
      by (simp add: lb_recv_def Let_def)
    with inv b False show ?thesis
      by (auto simp: lb_inv_def)
  qed
qed

lemma lb_feed_inv: "lb_inv st \<Longrightarrow> lb_feed st = Some st' \<Longrightarrow> lb_inv st'"
  by (auto simp: lb_inv_def lb_feed_def ac_simps split: lb_phase.splits list.splits if_splits)

lemma lb_consume_inv: "lb_inv st \<Longrightarrow> lb_consume st = Some st' \<Longrightarrow> lb_inv st'"
  by (auto simp: lb_inv_def lb_consume_def ac_simps split: list.splits)

lemma lb_step_inv: "lb_inv st \<Longrightarrow> lb_step e st = Some st' \<Longrightarrow> lb_inv st'"
  by (cases e) (auto intro: lb_produce_inv lb_loop_top_inv lb_recv_inv lb_feed_inv lb_consume_inv)

lemma lb_run_reach: "lb_run es st = Some st' \<Longrightarrow> lb_reach st \<Longrightarrow> lb_reach st'"
  by (induction es arbitrary: st) (auto intro: lb_reach_step split: option.splits)

text \<open>
  Claim C16. On every reachable state of the load balancer no packet is lost or
  duplicated: the produced packets are, as a multiset, exactly those handled, waiting in
  the local queue, in the pull task's burst or in the shared queue; and the flushing flag
  is clear while the task waits on the shared queue.
\<close>
theorem lb_conservation:
  "lb_reach st \<Longrightarrow>
     mset (lb_produced st) = mset (lb_handled st) + mset (lb_local st) + mset (lb_batch st) + mset (lb_shared st) \<and>
     (lb_phase st = LbReceiving \<longrightarrow> \<not> lb_flushing st)"
proof -
  assume "lb_reach st"
  then have "lb_inv st"
    by (induction rule: lb_reach.induct) (auto intro: lb_init_inv lb_step_inv)
  then show ?thesis by (simp add: lb_inv_def)
qed

lemma lb_run_append:
  "lb_run (xs @ ys) st = (case lb_run xs st of None \<Rightarrow> None | Some st' \<Rightarrow> lb_run ys st')"
  by (induction xs arbitrary: st) (simp_all split: option.split)

lemma lb_run_consume_all:
  "lb_run (replicate (length (lb_local st)) Consume) st =
     Some (st\<lparr>lb_local := [], lb_handled := lb_handled st @ lb_local st\<rparr>)"
proof (induction "lb_local st" arbitrary: st)
  case Nil
  then show ?case by simp
next
  case (Cons x xs)
  have "lb_run (replicate (length (lb_local (st\<lparr>lb_local := xs, lb_handled := lb_handled st @ [x]\<rparr>))) Consume)
          (st\<lparr>lb_local := xs, lb_handled := lb_handled st @ [x]\<rparr>) =
        Some (st\<lparr>lb_local := [], lb_handled := lb_handled st @ [x] @ xs\<rparr>)"
    using Cons.hyps(1) [of "st\<lparr>lb_local := xs, lb_handled := lb_handled st @ [x]\<rparr>"] by simp
  then show ?case
    using Cons.hyps(2) [symmetric] by (simp add: lb_consume_def)
qed

text \<open>
  Claim C17. The load balancer reorders packets produced on one worker.  In any state
  whose local queue is full while the pull task is not flushing, a packet p produced now
  spills to the shared queue; if the handler then takes one packet and a packet q is
  produced, q goes to the local queue, and once the handler has drained that queue q has
  been handled while p, produced before q, still waits in the shared queue.
\<close>
theorem lb_reorders_single_worker:
  assumes fl: "\<not> lb_flushing st" and full: "length (lb_local st) = lb_local_cap st"
    and cap: "0 < lb_local_cap st"
  shows "lb_run ([Produce p, Consume, Produce q] @ replicate (lb_local_cap st) Consume) st =
           Some (st\<lparr>lb_local := [], lb_shared := lb_shared st @ [p],
                    lb_produced := lb_produced st @ [p, q],
                    lb_handled := lb_handled st @ lb_local st @ [q]\<rparr>)"
proof -
  obtain x xs where l: "lb_local st = x # xs"
    using full cap by (cases "lb_local st") auto
  let ?st3 = "st\<lparr>lb_local := xs @ [q], lb_shared := lb_shared st @ [p],
                 lb_produced := lb_produced st @ [p, q], lb_handled := lb_handled st @ [x]\<rparr>"
  have three: "lb_run [Produce p, Consume, Produce q] st = Some ?st3"
    using fl full l by (simp add: lb_produce_def lb_route_closure_def lb_consume_def Let_def)
  have "length (lb_local ?st3) = lb_local_cap st"
    using full l by simp
  then have "lb_run (replicate (lb_local_cap st) Consume) ?st3 =
      Some (?st3\<lparr>lb_local := [], lb_handled := lb_handled ?st3 @ lb_local ?st3\<rparr>)"
    using lb_run_consume_all [of ?st3] by simp
  then show ?thesis
    unfolding lb_run_append three option.case using l by simp
qed

theorem lb_reorders_single_worker_witness:
  "lb_run ([Produce [2], Consume, Produce [3]] @ replicate 1 Consume)
     ((lb_init 1 32)\<lparr>lb_local := [[1]], lb_produced := [[1]]\<rparr>) =
   Some ((lb_init 1 32)\<lparr>lb_local := [], lb_shared := [[2]], lb_produced := [[1], [2], [3]],
                        lb_handled := [[1], [3]]\<rparr>)"
  using lb_reorders_single_worker [of "(lb_init 1 32)\<lparr>lb_local := [[1]], lb_produced := [[1]]\<rparr>" "[2]" "[3]"]
  by (simp add: lb_init_def)

theorem lb_conservation_witness:
  "\<exists>st. lb_run lb_reorder_trace (lb_init 1 32) = Some st \<and>
     mset (lb_produced st) = mset (lb_handled st) + mset (lb_local st) + mset (lb_batch st) + mset (lb_shared st)"
proof -
  have run: "lb_run lb_reorder_trace (lb_init 1 32) \<noteq> None" by code_simp
  then obtain st where st: "lb_run lb_reorder_trace (lb_init 1 32) = Some st" by blast
  from lb_run_reach [OF st lb_reach_init] have "lb_reach st" .
  from lb_conservation [OF this] st show ?thesis by blast
qed

end
