(* ===== verification/CodegenAst.thy ===== *)
theory CodegenAst
  imports Prelude
begin

text \<open>
  The interface-definition AST of the code generator (\<open>modrpc-codegen/src/ast.rs\<close>) and its
  name database (\<open>db.rs\<close>).  The \<open>mproto\<close> types and type definitions the AST embeds come
  from the \<open>mproto_codegen\<close> crate, which is not part of the repository; they are the type
  parameters \<open>'ty\<close> and \<open>'td\<close>.  Each Rust struct is a record whose fields carry a short
  prefix of the struct; a \<open>HashMap\<close> is an association list; a panic is a \<open>cg_error\<close>.

  \<open>Interface::has_state\<close> recurses through the interfaces of the interface's objects with
  no check for cycles; it is a \<open>partial_function (option)\<close>, \<open>None\<close> standing for the
  recursion that never returns.
\<close>

datatype cg_error = IndexPanic | HasStateLookupPanic

record cg_import =
  imp_name :: string
  imp_path :: string

record qualified_identifier =
  qi_name :: string
  qi_module :: "string option"

record 'ty interface_event =
  ev_name :: string
  ev_ty :: 'ty
  ev_is_private :: bool

record 'ty interface_events_list =
  el_from_roles :: "string list"
  el_to_roles :: "string list"
  el_events :: "'ty interface_event list"

record 'ty interface_state =
  st_name :: string
  st_ty :: 'ty

record 'ty interface_object =
  ob_name :: string
  ob_construct :: qualified_identifier
  ob_type_args :: "'ty list"
  ob_role_args :: "string list"

record 'ty interface_config_item =
  ci_name :: string
  ci_ty :: 'ty

record 'ty interface_config_list =
  cl_roles :: "string list"
  cl_items :: "'ty interface_config_item list"

record 'ty interface_required_impl =
  ri_name :: string
  ri_is_async :: bool
  ri_input_ty :: 'ty
  ri_output_ty :: 'ty

record 'ty interface_required_impls_list =
  rl_roles :: "string list"
  rl_required_impls :: "'ty interface_required_impl list"

record 'ty object_method =
  om_name :: string
  om_is_async :: bool
  om_input_ty :: 'ty
  om_output_ty :: 'ty

record 'ty object_methods_list =
  ml_roles :: "string list"
  ml_methods :: "'ty object_method list"

record 'ty interface =
  if_name :: string
  if_type_params :: "string list"
  if_roles :: "string list"
  if_events :: "'ty interface_events_list list"
  if_objects :: "'ty interface_object list"
  if_config :: "'ty interface_config_list list"
  if_required_impls :: "'ty interface_required_impls_list list"
  if_methods :: "'ty object_methods_list list"
  if_state :: "'ty interface_state list"

record ('ty, 'td) schema =
  sc_imports :: "cg_import list"
  sc_interfaces :: "'ty interface list"
  sc_type_defs :: "'td list"

definition qualified_identifier_local :: "string \<Rightarrow> qualified_identifier" where
  "qualified_identifier_local name = \<lparr>qi_name = name, qi_module = None\<rparr>"

subsection \<open>Role queries of \<open>impl Interface\<close>\<close>

text \<open>\<open>roles.iter().find(|x| x == &role_name).is_some()\<close>.\<close>

definition role_in :: "string list \<Rightarrow> string \<Rightarrow> bool" where
  "role_in roles role_name = list_ex (\<lambda>x. x = role_name) roles"

definition has_public_event_impls_for_role :: "'ty interface \<Rightarrow> string \<Rightarrow> bool" where
  "has_public_event_impls_for_role i role_name =
     list_ex (\<lambda>el. el_events el \<noteq> [] \<and> role_in (el_to_roles el) role_name \<and>
                   list_ex (\<lambda>ev. \<not> ev_is_private ev) (el_events el)) (if_events i)"

definition has_private_event_impls_for_role :: "'ty interface \<Rightarrow> string \<Rightarrow> bool" where
  "has_private_event_impls_for_role i role_name =
     list_ex (\<lambda>el. el_events el \<noteq> [] \<and> role_in (el_to_roles el) role_name \<and>
                   list_ex ev_is_private (el_events el)) (if_events i)"

definition has_methods_for_role :: "'ty interface \<Rightarrow> string \<Rightarrow> bool" where
  "has_methods_for_role i role_name =
     list_ex (\<lambda>ml. ml_methods ml \<noteq> [] \<and> role_in (ml_roles ml) role_name) (if_methods i)"

definition has_impls_for_role :: "'ty interface \<Rightarrow> string \<Rightarrow> bool" where
  "has_impls_for_role i role_name =
     list_ex (\<lambda>rl. role_in (rl_roles rl) role_name) (if_required_impls i)"

definition requires_impls_for_role :: "'ty interface \<Rightarrow> string \<Rightarrow> bool" where
  "requires_impls_for_role i role_name =
     (if has_public_event_impls_for_role i role_name then True
      else list_ex (\<lambda>rl. role_in (rl_roles rl) role_name) (if_required_impls i))"

definition has_config_for_role :: "'ty interface \<Rightarrow> string \<Rightarrow> bool" where
  "has_config_for_role i role_name =
     list_ex (\<lambda>cl. role_in (cl_roles cl) role_name) (if_config i)"

subsection \<open>Object roles\<close>

text \<open>The index of the first role argument equal to the parent role; the object's interface
  role at that index, with the panic of \<open>roles[role_arg_index]\<close> when the object passes more
  role arguments than its interface has roles.\<close>

fun find_index_eq :: "string \<Rightarrow> string list \<Rightarrow> nat option" where
  "find_index_eq x [] = None"
| "find_index_eq x (y # ys) = (if x = y then Some 0 else map_option Suc (find_index_eq x ys))"

definition get_role_for_parent_role ::
  "'ty interface_object \<Rightarrow> 'ty interface \<Rightarrow> string \<Rightarrow> cg_error + string option" where
  "get_role_for_parent_role ob oi parent_role_name =
     (case find_index_eq parent_role_name (ob_role_args ob) of
        None \<Rightarrow> Inr None
      | Some k \<Rightarrow> if k < length (if_roles oi) then Inr (Some (if_roles oi ! k)) else Inl IndexPanic)"

definition get_roles_for_parent_role ::
  "'ty interface_object \<Rightarrow> 'ty interface \<Rightarrow> string \<Rightarrow> cg_error + string list" where
  "get_roles_for_parent_role ob oi parent_role_name =
     (let ks = map fst (filter (\<lambda>(_, r). parent_role_name = r) (enumerate 0 (ob_role_args ob)))
      in if list_all (\<lambda>k. k < length (if_roles oi)) ks then Inr (map (\<lambda>k. if_roles oi ! k) ks)
         else Inl IndexPanic)"

subsection \<open>The name database of \<open>db.rs\<close>\<close>

record 'ty cg_module =
  md_interfaces :: "'ty interface list"
  md_by_name :: "(string \<times> nat) list"

record 'ty cg_database =
  db_imports :: "(string \<times> 'ty cg_module) list"
  db_local :: "'ty cg_module"

definition module_new :: "'ty cg_module" where
  "module_new = \<lparr>md_interfaces = [], md_by_name = []\<rparr>"

definition database_new :: "'ty cg_database" where
  "database_new = \<lparr>db_imports = [], db_local = module_new\<rparr>"

definition add_interface :: "'ty interface \<Rightarrow> 'ty cg_module \<Rightarrow> nat \<times> 'ty cg_module" where
  "add_interface i m =
     (let ix = length (md_interfaces m)
      in (ix, m\<lparr>md_by_name := AList.update (if_name i) ix (md_by_name m),
               md_interfaces := md_interfaces m @ [i]\<rparr>))"

definition module_interface :: "'ty cg_module \<Rightarrow> nat \<Rightarrow> cg_error + 'ty interface" where
  "module_interface m ix =
     (if ix < length (md_interfaces m) then Inr (md_interfaces m ! ix) else Inl IndexPanic)"

definition interface_by_name :: "'ty cg_module \<Rightarrow> string \<Rightarrow> cg_error + 'ty interface option" where
  "interface_by_name m name =
     (case map_of (md_by_name m) name of
        None \<Rightarrow> Inr None
      | Some ix \<Rightarrow> map_sum id Some (module_interface m ix))"

definition add_module :: "string \<Rightarrow> 'ty cg_module \<Rightarrow> 'ty cg_database \<Rightarrow> 'ty cg_database" where
  "add_module name m db = db\<lparr>db_imports := AList.update name m (db_imports db)\<rparr>"

definition lookup_interface ::
  "'ty cg_database \<Rightarrow> qualified_identifier \<Rightarrow> cg_error + 'ty interface option" where
  "lookup_interface db qi =
     (case qi_module qi of
        Some module_name \<Rightarrow>
          (case map_of (db_imports db) module_name of
             None \<Rightarrow> Inr None
           | Some m \<Rightarrow> interface_by_name m (qi_name qi))
      | None \<Rightarrow> interface_by_name (db_local db) (qi_name qi))"

text \<open>Well-formedness of a module: the name index is a map (distinct keys) whose every entry
  points at an interface of that name.\<close>

definition module_wf :: "'ty cg_module \<Rightarrow> bool" where
  "module_wf m \<longleftrightarrow> distinct (map fst (md_by_name m)) \<and>
     list_all (\<lambda>(n, ix). ix < length (md_interfaces m) \<and> if_name (md_interfaces m ! ix) = n)
       (md_by_name m)"

subsection \<open>\<open>Interface::has_state\<close>\<close>

text \<open>The loop over the objects: each object's interface is looked up (a failed lookup
  panics) and its \<open>has_state\<close> is computed, the results or-ed into the accumulator without
  short-circuit.\<close>

partial_function (option) has_state_objs ::
  "'ty cg_database \<Rightarrow> 'ty interface_object list \<Rightarrow> bool \<Rightarrow> (cg_error + bool) option" where
  "has_state_objs db objs acc =
     (case objs of
        [] \<Rightarrow> Some (Inr acc)
      | ob # obs \<Rightarrow>
          (case lookup_interface db (ob_construct ob) of
             Inl e \<Rightarrow> Some (Inl e)
           | Inr None \<Rightarrow> Some (Inl HasStateLookupPanic)
           | Inr (Some oi) \<Rightarrow>
               (if if_state oi \<noteq> [] then has_state_objs db obs True
                else do {
                  r \<leftarrow> has_state_objs db (if_objects oi) False;
                  case r of
                    Inl e \<Rightarrow> Some (Inl e)
                  | Inr b \<Rightarrow> has_state_objs db obs (acc \<or> b)
                })))"

declare has_state_objs.simps [code]

definition has_state :: "'ty cg_database \<Rightarrow> 'ty interface \<Rightarrow> (cg_error + bool) option" where
  "has_state db i = (if if_state i \<noteq> [] then Some (Inr True) else has_state_objs db (if_objects i) False)"

subsection \<open>Abstractions and scenarios\<close>

text \<open>The map from names to interfaces a module stands for.\<close>

definition module_abs :: "'ty cg_module \<Rightarrow> string \<Rightarrow> 'ty interface option" where
  "module_abs m n = map_option (\<lambda>ix. md_interfaces m ! ix) (map_of (md_by_name m) n)"

definition db_interfaces :: "'ty cg_database \<Rightarrow> 'ty interface list" where
  "db_interfaces db = md_interfaces (db_local db) @ concat (map (md_interfaces \<circ> snd) (db_imports db))"

text \<open>The objects of the database's interfaces are ranked by \<open>rk\<close> when the interface every
  object resolves to has a smaller rank than the interface holding the object: the
  object graph has no cycle.\<close>

definition objects_ranked :: "'ty cg_database \<Rightarrow> ('ty interface \<Rightarrow> nat) \<Rightarrow> bool" where
  "objects_ranked db rk \<longleftrightarrow>
     list_all (\<lambda>j. list_all (\<lambda>ob. case lookup_interface db (ob_construct ob) of
                                    Inr (Some oi) \<Rightarrow> rk oi < rk j | _ \<Rightarrow> True) (if_objects j))
       (db_interfaces db)"

definition scenario_interface :: "string \<Rightarrow> string list \<Rightarrow> unit interface_state list \<Rightarrow> unit interface" where
  "scenario_interface name objs st =
     \<lparr>if_name = name, if_type_params = [], if_roles = [''client''], if_events = [],
      if_objects = map (\<lambda>n. \<lparr>ob_name = n, ob_construct = qualified_identifier_local n, ob_type_args = [],
                              ob_role_args = [''client'']\<rparr>) objs,
      if_config = [], if_required_impls = [], if_methods = [], if_state = st\<rparr>"

text \<open>An interface \<open>Node\<close> with an object of its own interface, and a database holding it.\<close>

definition node_interface :: "unit interface" where
  "node_interface = scenario_interface ''Node'' [''Node''] []"

definition node_db :: "unit cg_database" where
  "node_db = database_new\<lparr>db_local := snd (add_interface node_interface module_new)\<rparr>"

text \<open>\<open>Outer\<close> has an object of interface \<open>Inner\<close>, which has a state field.\<close>

definition layered_db :: "unit cg_database" where
  "layered_db = database_new\<lparr>db_local :=
     snd (add_interface (scenario_interface ''Outer'' [''Inner''] [])
       (snd (add_interface (scenario_interface ''Inner'' [] [\<lparr>st_name = ''count'', st_ty = ()\<rparr>]) module_new)))\<rparr>"

section \<open>Lemmas\<close>

lemma module_wf_new: "module_wf module_new"
  by (simp add: module_wf_def module_new_def)

lemma module_wf_lookup:
  "module_wf m \<Longrightarrow> map_of (md_by_name m) n = Some ix \<Longrightarrow>
     ix < length (md_interfaces m) \<and> if_name (md_interfaces m ! ix) = n"
  by (auto simp: module_wf_def list_all_iff dest!: map_of_SomeD)

lemma module_wf_alt:
  "module_wf m \<longleftrightarrow> distinct (map fst (md_by_name m)) \<and>
     (\<forall>n ix. map_of (md_by_name m) n = Some ix \<longrightarrow>
        ix < length (md_interfaces m) \<and> if_name (md_interfaces m ! ix) = n)"
  unfolding module_wf_def by (auto simp: list_all_map_of)

lemma add_interface_wf_step:
  "module_wf m \<Longrightarrow> module_wf (snd (add_interface i m))"
  by (fastforce simp: module_wf_alt add_interface_def Let_def distinct_update update_conv' nth_append)

lemma interface_by_name_abs: "module_wf m \<Longrightarrow> interface_by_name m n = Inr (module_abs m n)"
  by (auto simp: interface_by_name_def module_abs_def module_interface_def
           dest: module_wf_lookup split: option.splits)

lemma module_abs_add:
  assumes wf: "module_wf m"
  shows "module_abs (snd (add_interface i m)) = (module_abs m)(if_name i \<mapsto> i)"
proof
  fix n
  show "module_abs (snd (add_interface i m)) n = ((module_abs m)(if_name i \<mapsto> i)) n"
  proof (cases "n = if_name i")
    case False
    then show ?thesis
      using module_wf_lookup [OF wf, of n]
      by (cases "map_of (md_by_name m) n")
         (auto simp: module_abs_def add_interface_def Let_def update_conv' nth_append)
  qed (simp add: module_abs_def add_interface_def Let_def update_conv')
qed

lemma interface_by_name_mem:
  "interface_by_name m n = Inr (Some oi) \<Longrightarrow> oi \<in> set (md_interfaces m)"
  by (auto simp: interface_by_name_def module_interface_def split: option.splits if_splits)

lemma lookup_interface_mem:
  "lookup_interface db q = Inr (Some oi) \<Longrightarrow> oi \<in> set (db_interfaces db)"
  by (fastforce simp: lookup_interface_def db_interfaces_def dest!: interface_by_name_mem map_of_SomeD
           split: option.splits)

lemma ranked_objects:
  "objects_ranked db rk \<Longrightarrow> j \<in> set (db_interfaces db) \<Longrightarrow> ob \<in> set (if_objects j) \<Longrightarrow>
     lookup_interface db (ob_construct ob) = Inr (Some oi) \<Longrightarrow> rk oi < rk j"
  by (fastforce simp: objects_ranked_def list_all_iff)

lemma objects_rank_bound:
  "\<exists>n. \<forall>ob\<in>set objs. \<forall>oi. lookup_interface db (ob_construct ob) = Inr (Some oi) \<longrightarrow> rk oi < (n::nat)"
proof (intro exI ballI allI impI)
  let ?g = "\<lambda>ob. case lookup_interface db (ob_construct ob) of Inr (Some oi) \<Rightarrow> rk oi | _ \<Rightarrow> (0::nat)"
  fix ob oi
  assume ob: "ob \<in> set objs" and l: "lookup_interface db (ob_construct ob) = Inr (Some oi)"
  have "?g ob \<le> sum_list (map ?g objs)" using ob by (simp add: member_le_sum_list)
  with l show "rk oi < Suc (sum_list (map ?g objs))" by simp
qed

lemma has_state_objs_returns:
  assumes ranked: "objects_ranked db rk"
  shows "\<forall>ob\<in>set objs. \<forall>oi. lookup_interface db (ob_construct ob) = Inr (Some oi) \<longrightarrow> rk oi < n \<Longrightarrow>
           \<exists>r. has_state_objs db objs acc = Some r"
proof (induction n arbitrary: objs acc rule: less_induct)
  case (less n)
  then show ?case
  proof (induction objs arbitrary: acc)
    case Nil show ?case by (subst has_state_objs.simps) simp
  next
    case (Cons ob obs)
    have rest: "\<exists>r. has_state_objs db obs acc' = Some r" for acc' using Cons by simp
    show ?case
    proof (cases "lookup_interface db (ob_construct ob)")
      case (Inl e) then show ?thesis by (subst has_state_objs.simps) simp
    next
      case (Inr r)
      show ?thesis
      proof (cases r)
        case None with Inr show ?thesis by (subst has_state_objs.simps) simp
      next
        case (Some oi)
        have lt: "rk oi < n" using Cons.prems Inr Some by simp
        have "oi \<in> set (db_interfaces db)" using lookup_interface_mem Inr Some by blast
        then have "\<forall>ob'\<in>set (if_objects oi). \<forall>oi'.
            lookup_interface db (ob_construct ob') = Inr (Some oi') \<longrightarrow> rk oi' < rk oi"
          using ranked_objects [OF ranked] by blast
        then obtain r1 where r1: "has_state_objs db (if_objects oi) False = Some r1"
          using less.IH [OF lt] by blast
        show ?thesis
          using r1 rest Inr Some by (subst has_state_objs.simps) (auto split: sum.split)
      qed
    qed
  qed
qed

lemma has_state_returns: "objects_ranked db rk \<Longrightarrow> \<exists>r. has_state db i = Some r"
  using objects_rank_bound [of "if_objects i" db rk] has_state_objs_returns [of db rk]
  by (auto simp: has_state_def)


section \<open>Properties\<close>

text \<open>
  Module well-formedness is a type invariant of the name database: a new module is
  well formed, and add_interface keeps it so and hands out the index the interface is
  stored at.
\<close>
theorem add_interface_wf:
  "module_wf module_new \<and>
   (module_wf m \<longrightarrow> module_wf (snd (add_interface i m)) \<and> fst (add_interface i m) = length (md_interfaces m))"
proof -
  have "fst (add_interface i m) = length (md_interfaces m)" by (simp add: add_interface_def Let_def)
  then show ?thesis by (simp add: module_wf_new add_interface_wf_step)
qed

theorem add_interface_wf_witness:
  "module_wf (snd (add_interface node_interface module_new)) \<and>
   fst (add_interface node_interface module_new) = 0"
proof -
  have "length (md_interfaces (module_new :: unit cg_module)) = 0" by (simp add: module_new_def)
  then show ?thesis using add_interface_wf [of "module_new :: unit cg_module" node_interface] by (simp add: module_wf_new)
qed

text \<open>
  A well-formed module refines a finite map from names to interfaces:
  interface_by_name never panics and returns the map's entry, and add_interface updates the
  map at the interface's name (a later interface of the same name shadows the earlier one).
\<close>
theorem module_refines:
  "module_wf m \<Longrightarrow>
     interface_by_name m n = Inr (module_abs m n) \<and>
     module_abs (snd (add_interface i m)) = (module_abs m)(if_name i \<mapsto> i)"
  by (simp add: interface_by_name_abs module_abs_add)

theorem module_refines_witness:
  "interface_by_name (module_new :: unit cg_module) ''Node'' = Inr None \<and>
   module_abs (snd (add_interface node_interface module_new)) = [''Node'' \<mapsto> node_interface]"
proof -
  have "module_abs (module_new :: unit cg_module) = Map.empty"
    by (simp add: module_abs_def module_new_def fun_eq_iff)
  then show ?thesis
    using module_refines [OF module_wf_new, of "''Node''" node_interface]
    by (simp add: node_interface_def scenario_interface_def)
qed

text \<open>
  Interface::has_state returns on every database whose object graph is ranked
  (acyclic): the recursion through the objects' interfaces reaches the bottom.
\<close>
theorem has_state_terminates: "objects_ranked db rk \<Longrightarrow> \<exists>r. has_state db i = Some r"
  using objects_rank_bound [of "if_objects i" db rk] has_state_objs_returns [of db rk]
  by (auto simp: has_state_def)

theorem has_state_terminates_witness:
  "objects_ranked layered_db (\<lambda>j. length (if_objects j)) \<and>
   (\<exists>r. has_state layered_db (scenario_interface ''Outer'' [''Inner''] []) = Some r)"
proof -
  have "objects_ranked layered_db (\<lambda>j. length (if_objects j))" by code_simp
  then show ?thesis using has_state_terminates by blast
qed

text \<open>
  Claim C39. Interface::has_state does not check for cycles.  Take a set S of interfaces
  without state fields, each of whose first object is looked up (successfully) to an
  interface of S: a cycle through first objects, such as an interface whose first object
  is of its own interface.  Then has_state never returns on any interface of S (the code
  generator overflows its stack instead of reporting the cycle).
\<close>
theorem has_state_cycle_diverges:
  assumes cyc: "\<forall>j \<in> S. if_state j = [] \<and>
                   (\<exists>ob obs k. if_objects j = ob # obs \<and> k \<in> S \<and>
                               lookup_interface db (ob_construct ob) = Inr (Some k))"
    and i: "i \<in> S"
  shows "has_state db i = None"
proof -
  have "\<forall>j \<in> S. has_state_objs db (if_objects j) acc = None" for acc
  proof (induction arbitrary: acc rule: has_state_objs.fixp_induct)
    case 1 show ?case
      by (intro admissible_all admissible_ball) (unfold curry_conv, rule option_admissible_None_at)
  next
    case 2 show ?case by simp
  next
    case (3 f)
    show ?case
    proof
      fix j assume "j \<in> S"
      with cyc obtain ob obs k where j: "if_objects j = ob # obs" "k \<in> S"
          "lookup_interface db (ob_construct ob) = Inr (Some k)"
        by blast
      from cyc j(2) have "if_state k = []" "f db (if_objects k) False = None"
        using 3 by auto
      then show "(case if_objects j of [] \<Rightarrow> Some (Inr acc)
          | ob # obs \<Rightarrow> (case lookup_interface db (ob_construct ob) of Inl e \<Rightarrow> Some (Inl e)
             | Inr None \<Rightarrow> Some (Inl HasStateLookupPanic)
             | Inr (Some oi) \<Rightarrow> if if_state oi \<noteq> [] then f db obs True
                 else f db (if_objects oi) False \<bind> (\<lambda>r. case r of Inl e \<Rightarrow> Some (Inl e)
                                                     | Inr b \<Rightarrow> f db obs (acc \<or> b)))) = None"
        using j by simp
    qed
  qed
  with cyc i show ?thesis
    by (simp add: has_state_def)
qed

theorem has_state_cycle_diverges_witness: "has_state node_db node_interface = None"
proof -
  have l: "lookup_interface node_db (qualified_identifier_local ''Node'') = Inr (Some node_interface)"
    by code_simp
  show ?thesis
    by (rule has_state_cycle_diverges [where S = "{node_interface}"])
       (insert l, simp_all add: node_interface_def scenario_interface_def)
qed

end
