(* ===== verification/SchemaParser.thy ===== *)
theory SchemaParser
  imports CodegenAst "HOL-Library.Sublist"
begin

text \<open>
  The interface-definition parser of \<open>modrpc-codegen/src/parse.rs\<close>, written with the
  \<open>nom\<close> 7 combinators over \<open>&str\<close>.  A parser maps the input to a result: \<open>POk rest x\<close>
  (nom's \<open>Ok((rest, x))\<close>), \<open>PError\<close> (the recoverable \<open>Err::Error\<close>, on which \<open>alt\<close>,
  \<open>opt\<close> and \<open>separated_list0\<close> backtrack) or \<open>PFailure\<close> (\<open>Err::Failure\<close>, raised by
  \<open>cut\<close>, which nothing recovers).  The combinators themselves belong to \<open>nom\<close>, outside
  the repository; they are written from its documented behaviour, the loop of
  \<open>separated_list0\<close> included: it stops with an error when the separator consumes nothing.
  That loop runs as long as the parsers it is given consume input, so it is a
  \<open>partial_function (option)\<close> and a parser returns \<open>'a pres option\<close>, \<open>None\<close> standing for
  a parse that never returns.  The \<open>mproto_codegen\<close> parsers of types and type definitions
  are not part of the repository: every parser here takes them as a record \<open>mp\<close>.

  Characters are bytes (Isabelle's \<open>char\<close>): the model covers ASCII input.
\<close>

datatype 'a pres = POk string 'a | PError | PFailure

type_synonym 'a parser = "string \<Rightarrow> 'a pres option"

subsection \<open>Sequencing\<close>

text \<open>\<open>let (i, x) = p(i)?;\<close> followed by the rest of the function.\<close>

definition pret :: "'a \<Rightarrow> 'a parser" where
  "pret x i = Some (POk i x)"

definition pbind :: "'a parser \<Rightarrow> ('a \<Rightarrow> 'b parser) \<Rightarrow> 'b parser" where
  "pbind p k i =
     (case p i of
        None \<Rightarrow> None
      | Some (POk i' x) \<Rightarrow> k x i'
      | Some PError \<Rightarrow> Some PError
      | Some PFailure \<Rightarrow> Some PFailure)"

definition pmap :: "('a \<Rightarrow> 'b) \<Rightarrow> 'a parser \<Rightarrow> 'b parser" where
  "pmap f p = pbind p (\<lambda>x. pret (f x))"

subsection \<open>The \<open>nom\<close> combinators\<close>

definition tag :: "string \<Rightarrow> string parser" where
  "tag t i = Some (if take (length t) i = t then POk (drop (length t) i) t else PError)"

definition char_p :: "char \<Rightarrow> char parser" where
  "char_p c i = Some (case i of d # r \<Rightarrow> if d = c then POk r c else PError | [] \<Rightarrow> PError)"

definition is_multispace :: "char \<Rightarrow> bool" where
  "is_multispace c \<longleftrightarrow> c = CHR 0x20 \<or> c = CHR 0x09 \<or> c = CHR 0x0D \<or> c = CHR 0x0A"

definition multispace0 :: "string parser" where
  "multispace0 i = Some (POk (dropWhile is_multispace i) (takeWhile is_multispace i))"

definition take_while1 :: "(char \<Rightarrow> bool) \<Rightarrow> string parser" where
  "take_while1 P i =
     Some (if i \<noteq> [] \<and> P (hd i) then POk (dropWhile P i) (takeWhile P i) else PError)"

definition opt :: "'a parser \<Rightarrow> 'a option parser" where
  "opt p i =
     (case p i of
        None \<Rightarrow> None
      | Some (POk i' x) \<Rightarrow> Some (POk i' (Some x))
      | Some PError \<Rightarrow> Some (POk i None)
      | Some PFailure \<Rightarrow> Some PFailure)"

fun alt :: "'a parser list \<Rightarrow> 'a parser" where
  "alt [] i = Some PError"
| "alt (p # ps) i = (case p i of Some PError \<Rightarrow> alt ps i | r \<Rightarrow> r)"

definition cut :: "'a parser \<Rightarrow> 'a parser" where
  "cut p i = (case p i of Some PError \<Rightarrow> Some PFailure | r \<Rightarrow> r)"

definition preceded :: "'a parser \<Rightarrow> 'b parser \<Rightarrow> 'b parser" where
  "preceded p q = pbind p (\<lambda>_. q)"

definition terminated :: "'a parser \<Rightarrow> 'b parser \<Rightarrow> 'a parser" where
  "terminated p q = pbind p (\<lambda>x. pbind q (\<lambda>_. pret x))"

text \<open>The loop of \<open>separated_list0\<close> after the first element.\<close>

partial_function (option) sep_list_loop ::
  "'s parser \<Rightarrow> 'a parser \<Rightarrow> string \<Rightarrow> 'a list \<Rightarrow> 'a list pres option" where
  "sep_list_loop sep f i res =
     (case sep i of
        None \<Rightarrow> None
      | Some PError \<Rightarrow> Some (POk i res)
      | Some PFailure \<Rightarrow> Some PFailure
      | Some (POk i1 _) \<Rightarrow>
          if length i1 = length i then Some PError
          else (case f i1 of
                  None \<Rightarrow> None
                | Some PError \<Rightarrow> Some (POk i res)
                | Some PFailure \<Rightarrow> Some PFailure
                | Some (POk i2 x) \<Rightarrow> sep_list_loop sep f i2 (res @ [x])))"

declare sep_list_loop.simps [code]

definition separated_list0 :: "'s parser \<Rightarrow> 'a parser \<Rightarrow> 'a list parser" where
  "separated_list0 sep f i =
     (case f i of
        None \<Rightarrow> None
      | Some PError \<Rightarrow> Some (POk i [])
      | Some PFailure \<Rightarrow> Some PFailure
      | Some (POk i1 x) \<Rightarrow> sep_list_loop sep f i1 [x])"

definition opt_trailing_comma :: "'a parser \<Rightarrow> 'a parser" where
  "opt_trailing_comma f = terminated f (opt (char_p CHR '',''))"

subsection \<open>The parsers of \<open>parse.rs\<close>\<close>

text \<open>The parsers of \<open>mproto_codegen::parse\<close> that \<open>parse.rs\<close> calls.\<close>

record ('ty, 'td) mproto_parsers =
  mp_ty :: "'ty parser"
  mp_type_params_list :: "string list parser"
  mp_type_args_list :: "'ty list parser"
  mp_type_def :: "'td parser"

datatype ('ty, 'td) schema_item = SImport cg_import | SInterface "'ty interface" | STypeDef 'td

datatype 'ty interface_item =
  IEvents "'ty interface_events_list"
| IState "'ty interface_state list"
| IObjects "'ty interface_object list"
| IConfigList "'ty interface_config_list"
| IRequiredImpls "'ty interface_required_impls_list"
| IObjectMethods "'ty object_methods_list"

text \<open>\<open>char::is_alphanumeric\<close> and \<open>is_digit(10)\<close> on ASCII characters.\<close>

definition is_alphanumeric :: "char \<Rightarrow> bool" where
  "is_alphanumeric c \<longleftrightarrow>
     (let n = (of_char c :: nat) in (97 \<le> n \<and> n \<le> 122) \<or> (65 \<le> n \<and> n \<le> 90) \<or> (48 \<le> n \<and> n \<le> 57))"

definition is_digit10 :: "char \<Rightarrow> bool" where
  "is_digit10 c \<longleftrightarrow> (let n = (of_char c :: nat) in 48 \<le> n \<and> n \<le> 57)"

definition identifier_p :: "string parser" where
  "identifier_p = take_while1 (\<lambda>x. is_alphanumeric x \<or> is_digit10 x \<or> x = CHR ''_'')"

definition qualified_identifier_p :: "qualified_identifier parser" where
  "qualified_identifier_p =
     pbind (opt (pbind identifier_p (\<lambda>module. pbind (char_p CHR ''.'') (\<lambda>_. pret module)))) (\<lambda>maybe_module.
     pbind identifier_p (\<lambda>name.
     pret \<lparr>qi_name = name, qi_module = maybe_module\<rparr>))"

definition import :: "cg_import parser" where
  "import =
     pbind (tag ''import'') (\<lambda>_.
     pbind multispace0 (\<lambda>_.
     pbind identifier_p (\<lambda>name.
     pbind multispace0 (\<lambda>_.
     pbind (char_p CHR 0x22) (\<lambda>_.
     pbind (take_while1 (\<lambda>x. x \<noteq> CHR 0x22)) (\<lambda>path.
     pbind (char_p CHR 0x22) (\<lambda>_.
     pret \<lparr>imp_name = name, imp_path = path\<rparr>)))))))"

text \<open>A comma-separated list of items, each after optional white space:
  \<open>separated_list0(preceded(multispace0, char(',')), preceded(multispace0, f))\<close>.\<close>

definition comma_list :: "'a parser \<Rightarrow> 'a list parser" where
  "comma_list f = separated_list0 (preceded multispace0 (char_p CHR '','')) (preceded multispace0 f)"

definition roles_list :: "string list parser" where
  "roles_list =
     pbind (char_p CHR ''@'') (\<lambda>_.
     pbind (char_p CHR ''('') (\<lambda>_.
     pbind (comma_list identifier_p) (\<lambda>roles.
     pbind multispace0 (\<lambda>_.
     pbind (opt (char_p CHR '','')) (\<lambda>_.
     pbind multispace0 (\<lambda>_.
     pbind (char_p CHR '')'') (\<lambda>_.
     pret roles)))))))"

text \<open>\<open>name : ty\<close>, the shape of events, state fields and config items.\<close>

definition interface_event_p :: "('ty, 'td) mproto_parsers \<Rightarrow> 'ty interface_event parser" where
  "interface_event_p mp =
     pbind (opt (preceded (tag ''private'') multispace0)) (\<lambda>private.
     pbind identifier_p (\<lambda>name.
     pbind multispace0 (\<lambda>_.
     pbind (tag '':'') (\<lambda>_.
     pbind multispace0 (\<lambda>_.
     pbind (mp_ty mp) (\<lambda>ty.
     pret \<lparr>ev_name = name, ev_ty = ty, ev_is_private = (private \<noteq> None)\<rparr>))))))"

definition interface_events_list_p :: "('ty, 'td) mproto_parsers \<Rightarrow> 'ty interface_events_list parser" where
  "interface_events_list_p mp =
     pbind (tag ''events'') (\<lambda>_.
     pbind multispace0 (\<lambda>_.
     pbind roles_list (\<lambda>from_roles.
     pbind multispace0 (\<lambda>_.
     pbind (tag ''->'') (\<lambda>_.
     pbind multispace0 (\<lambda>_.
     pbind roles_list (\<lambda>to_roles.
     pbind multispace0 (\<lambda>_.
     pbind (char_p CHR ''{'') (\<lambda>_.
     pbind multispace0 (\<lambda>_.
     pbind (opt_trailing_comma (comma_list (interface_event_p mp))) (\<lambda>events.
     pbind multispace0 (\<lambda>_.
     pbind (char_p CHR ''}'') (\<lambda>_.
     pret \<lparr>el_from_roles = from_roles, el_to_roles = to_roles, el_events = events\<rparr>)))))))))))))"

definition interface_object_p :: "('ty, 'td) mproto_parsers \<Rightarrow> 'ty interface_object parser" where
  "interface_object_p mp =
     pbind identifier_p (\<lambda>name.
     pbind multispace0 (\<lambda>_.
     pbind (tag '':'') (\<lambda>_.
     pbind multispace0 (\<lambda>_.
     pbind qualified_identifier_p (\<lambda>construct.
     pbind multispace0 (\<lambda>_.
     pbind (opt (mp_type_args_list mp)) (\<lambda>type_args.
     pbind multispace0 (\<lambda>_.
     pbind roles_list (\<lambda>role_args.
     pret \<lparr>ob_name = name, ob_construct = construct,
           ob_type_args = (case type_args of None \<Rightarrow> [] | Some tas \<Rightarrow> tas),
           ob_role_args = role_args\<rparr>)))))))))"

definition interface_objects :: "('ty, 'td) mproto_parsers \<Rightarrow> 'ty interface_object list parser" where
  "interface_objects mp =
     preceded (tag ''objects'')
       (preceded (preceded multispace0 (char_p CHR ''{''))
         (cut (terminated (opt_trailing_comma (comma_list (interface_object_p mp)))
                          (preceded multispace0 (char_p CHR ''}'')))))"

definition interface_state_p :: "('ty, 'td) mproto_parsers \<Rightarrow> 'ty interface_state parser" where
  "interface_state_p mp =
     pbind identifier_p (\<lambda>name.
     pbind multispace0 (\<lambda>_.
     pbind (tag '':'') (\<lambda>_.
     pbind multispace0 (\<lambda>_.
     pbind (mp_ty mp) (\<lambda>ty.
     pret \<lparr>st_name = name, st_ty = ty\<rparr>)))))"

definition interface_state_list :: "('ty, 'td) mproto_parsers \<Rightarrow> 'ty interface_state list parser" where
  "interface_state_list mp =
     pbind (tag ''state'') (\<lambda>_.
     pbind multispace0 (\<lambda>_.
     pbind (char_p CHR ''{'') (\<lambda>_.
     pbind multispace0 (\<lambda>_.
     pbind (opt_trailing_comma (comma_list (interface_state_p mp))) (\<lambda>state_fields.
     pbind multispace0 (\<lambda>_.
     pbind (char_p CHR ''}'') (\<lambda>_.
     pret state_fields)))))))"

definition interface_config_item_p :: "('ty, 'td) mproto_parsers \<Rightarrow> 'ty interface_config_item parser" where
  "interface_config_item_p mp =
     pbind identifier_p (\<lambda>name.
     pbind multispace0 (\<lambda>_.
     pbind (tag '':'') (\<lambda>_.
     pbind multispace0 (\<lambda>_.
     pbind (mp_ty mp) (\<lambda>ty.
     pret \<lparr>ci_name = name, ci_ty = ty\<rparr>)))))"

definition interface_config_list_p :: "('ty, 'td) mproto_parsers \<Rightarrow> 'ty interface_config_list parser" where
  "interface_config_list_p mp =
     pbind (tag ''config'') (\<lambda>_.
     pbind multispace0 (\<lambda>_.
     pbind roles_list (\<lambda>roles.
     pbind multispace0 (\<lambda>_.
     pbind (char_p CHR ''{'') (\<lambda>_.
     pbind multispace0 (\<lambda>_.
     pbind (opt_trailing_comma (comma_list (interface_config_item_p mp))) (\<lambda>items.
     pbind multispace0 (\<lambda>_.
     pbind (char_p CHR ''}'') (\<lambda>_.
     pret \<lparr>cl_roles = roles, cl_items = items\<rparr>)))))))))"

record 'ty fn_decl =
  fd_name :: string
  fd_is_async :: bool
  fd_input_ty :: 'ty
  fd_output_ty :: 'ty

definition fn_decl_p :: "('ty, 'td) mproto_parsers \<Rightarrow> 'ty fn_decl parser" where
  "fn_decl_p mp =
     pbind identifier_p (\<lambda>name.
     pbind multispace0 (\<lambda>_.
     pbind (tag '':'') (\<lambda>_.
     pbind multispace0 (\<lambda>_.
     pbind (opt (pbind (tag ''async'') (\<lambda>async_tag. pbind multispace0 (\<lambda>_. pret async_tag)))) (\<lambda>maybe_async.
     pbind (mp_ty mp) (\<lambda>input_ty.
     pbind multispace0 (\<lambda>_.
     pbind (tag ''->'') (\<lambda>_.
     pbind multispace0 (\<lambda>_.
     pbind (mp_ty mp) (\<lambda>output_ty.
     pret \<lparr>fd_name = name, fd_is_async = (maybe_async \<noteq> None),
           fd_input_ty = input_ty, fd_output_ty = output_ty\<rparr>))))))))))"

definition interface_required_impl_p :: "('ty, 'td) mproto_parsers \<Rightarrow> 'ty interface_required_impl parser" where
  "interface_required_impl_p mp =
     pbind (fn_decl_p mp) (\<lambda>d.
     pret \<lparr>ri_name = fd_name d, ri_is_async = fd_is_async d,
           ri_input_ty = fd_input_ty d, ri_output_ty = fd_output_ty d\<rparr>)"

definition interface_required_impls_list_p ::
  "('ty, 'td) mproto_parsers \<Rightarrow> 'ty interface_required_impls_list parser" where
  "interface_required_impls_list_p mp =
     pbind (tag ''impl'') (\<lambda>_.
     pbind multispace0 (\<lambda>_.
     pbind roles_list (\<lambda>roles.
     pbind multispace0 (\<lambda>_.
     pbind (char_p CHR ''{'') (\<lambda>_.
     pbind multispace0 (\<lambda>_.
     pbind (opt_trailing_comma (comma_list (interface_required_impl_p mp))) (\<lambda>required_impls.
     pbind multispace0 (\<lambda>_.
     pbind (char_p CHR ''}'') (\<lambda>_.
     pret \<lparr>rl_roles = roles, rl_required_impls = required_impls\<rparr>)))))))))"

definition object_method_p :: "('ty, 'td) mproto_parsers \<Rightarrow> 'ty object_method parser" where
  "object_method_p mp =
     pbind (fn_decl_p mp) (\<lambda>d.
     pret \<lparr>om_name = fd_name d, om_is_async = fd_is_async d,
           om_input_ty = fd_input_ty d, om_output_ty = fd_output_ty d\<rparr>)"

definition object_methods_list_p :: "('ty, 'td) mproto_parsers \<Rightarrow> 'ty object_methods_list parser" where
  "object_methods_list_p mp =
     pbind (tag ''methods'') (\<lambda>_.
     pbind multispace0 (\<lambda>_.
     pbind roles_list (\<lambda>roles.
     pbind multispace0 (\<lambda>_.
     pbind (char_p CHR ''{'') (\<lambda>_.
     pbind multispace0 (\<lambda>_.
     pbind (opt_trailing_comma (comma_list (object_method_p mp))) (\<lambda>methods.
     pbind multispace0 (\<lambda>_.
     pbind (char_p CHR ''}'') (\<lambda>_.
     pret \<lparr>ml_roles = roles, ml_methods = methods\<rparr>)))))))))"

definition interface_item_p :: "('ty, 'td) mproto_parsers \<Rightarrow> 'ty interface_item parser" where
  "interface_item_p mp =
     alt [pmap IEvents (interface_events_list_p mp),
          pmap IState (interface_state_list mp),
          pmap IObjects (interface_objects mp),
          pmap IConfigList (interface_config_list_p mp),
          pmap IRequiredImpls (interface_required_impls_list_p mp),
          pmap IObjectMethods (object_methods_list_p mp)]"

text \<open>The loop of \<open>interface_def\<close> sorting the items into the fields of the interface.\<close>

fun push_interface_item :: "'ty interface \<Rightarrow> 'ty interface_item \<Rightarrow> 'ty interface" where
  "push_interface_item i (IEvents item_events) = i\<lparr>if_events := if_events i @ [item_events]\<rparr>"
| "push_interface_item i (IState item_state_fields) = i\<lparr>if_state := if_state i @ item_state_fields\<rparr>"
| "push_interface_item i (IObjects item_objects) = i\<lparr>if_objects := if_objects i @ item_objects\<rparr>"
| "push_interface_item i (IConfigList item_config_list) = i\<lparr>if_config := if_config i @ [item_config_list]\<rparr>"
| "push_interface_item i (IRequiredImpls item_required_impls) =
     i\<lparr>if_required_impls := if_required_impls i @ [item_required_impls]\<rparr>"
| "push_interface_item i (IObjectMethods item_object_methods) =
     i\<lparr>if_methods := if_methods i @ [item_object_methods]\<rparr>"

definition interface_def :: "('ty, 'td) mproto_parsers \<Rightarrow> 'ty interface parser" where
  "interface_def mp =
     pbind (tag ''interface'') (\<lambda>_.
     pbind multispace0 (\<lambda>_.
     pbind identifier_p (\<lambda>name.
     pbind multispace0 (\<lambda>_.
     pbind (opt (mp_type_params_list mp)) (\<lambda>type_params.
     pbind multispace0 (\<lambda>_.
     pbind roles_list (\<lambda>roles.
     pbind multispace0 (\<lambda>_.
     pbind (char_p CHR ''{'') (\<lambda>_.
     pbind multispace0 (\<lambda>_.
     pbind (separated_list0 multispace0 (interface_item_p mp)) (\<lambda>items.
     pbind multispace0 (\<lambda>_.
     pbind (char_p CHR ''}'') (\<lambda>_.
     pret (foldl push_interface_item
             \<lparr>if_name = name, if_type_params = (case type_params of None \<Rightarrow> [] | Some tps \<Rightarrow> tps),
              if_roles = roles, if_events = [], if_objects = [], if_config = [],
              if_required_impls = [], if_methods = [], if_state = []\<rparr> items))))))))))))))"

definition root :: "('ty, 'td) mproto_parsers \<Rightarrow> ('ty, 'td) schema_item list parser" where
  "root mp =
     separated_list0 multispace0
       (alt [pmap SImport import, pmap SInterface (interface_def mp), pmap STypeDef (mp_type_def mp)])"

fun push_schema_item :: "('ty, 'td) schema \<Rightarrow> ('ty, 'td) schema_item \<Rightarrow> ('ty, 'td) schema" where
  "push_schema_item s (SImport i) = s\<lparr>sc_imports := sc_imports s @ [i]\<rparr>"
| "push_schema_item s (SInterface i) = s\<lparr>sc_interfaces := sc_interfaces s @ [i]\<rparr>"
| "push_schema_item s (STypeDef t) = s\<lparr>sc_type_defs := sc_type_defs s @ [t]\<rparr>"

datatype schema_error = NomError

text \<open>\<open>parse_schema\<close>: the unparsed rest of the input that \<open>root\<close> returns is dropped.\<close>

definition parse_schema ::
  "('ty, 'td) mproto_parsers \<Rightarrow> string \<Rightarrow> (schema_error + ('ty, 'td) schema) option" where
  "parse_schema mp i =
     (case root mp i of
        None \<Rightarrow> None
      | Some (POk _ schema_items) \<Rightarrow>
          Some (Inr (foldl push_schema_item \<lparr>sc_imports = [], sc_interfaces = [], sc_type_defs = []\<rparr> schema_items))
      | Some _ \<Rightarrow> Some (Inl NomError))"

subsection \<open>Comment removal of \<open>parse_file\<close>\<close>

text \<open>\<open>str::lines\<close>: split at each line feed, drop a carriage return before it, and
  produce no empty line after a final line feed.\<close>

definition strip_cr :: "string \<Rightarrow> string" where
  "strip_cr l = (if l \<noteq> [] \<and> last l = CHR 0x0D then butlast l else l)"

function rust_lines :: "string \<Rightarrow> string list" where
  "rust_lines s =
     (if s = [] then []
      else (let l = takeWhile (\<lambda>c. c \<noteq> CHR 0x0A) s; r = dropWhile (\<lambda>c. c \<noteq> CHR 0x0A) s
            in if r = [] then [l] else strip_cr l # rust_lines (tl r)))"
  by pat_completeness auto

termination rust_lines
proof (relation "measure length")
  fix s l r
  assume "s \<noteq> []" "r = dropWhile (\<lambda>c. c \<noteq> CHR 0x0A) s" "r \<noteq> []"
  then have "length r \<le> length s" "0 < length r" by (simp_all add: length_dropWhile_le)
  then show "(tl r, s) \<in> measure length" by (cases r) auto
qed simp

text \<open>\<open>str::find\<close>: the index of the first occurrence of a pattern.\<close>

fun str_find :: "string \<Rightarrow> string \<Rightarrow> nat option" where
  "str_find pat [] = (if pat = [] then Some 0 else None)"
| "str_find pat (c # cs) =
     (if take (length pat) (c # cs) = pat then Some 0 else map_option Suc (str_find pat cs))"

definition strip_comment :: "string \<Rightarrow> string" where
  "strip_comment line = (case str_find ''//'' line of Some index \<Rightarrow> take index line | None \<Rightarrow> line)"

fun join_lines :: "string list \<Rightarrow> string" where
  "join_lines [] = []"
| "join_lines [l] = l"
| "join_lines (l # ls) = l @ [CHR 0x0A] @ join_lines ls"

definition remove_comments :: "string \<Rightarrow> string" where
  "remove_comments file_str = join_lines (map strip_comment (rust_lines file_str)) @ [CHR 0x0A]"

text \<open>\<open>parse_file\<close> once the file is read (opening and reading it are I/O).\<close>

definition parse_file_str ::
  "('ty, 'td) mproto_parsers \<Rightarrow> string \<Rightarrow> (schema_error + ('ty, 'td) schema) option" where
  "parse_file_str mp file_str = parse_schema mp (remove_comments file_str)"

subsection \<open>Specification side: parsers that return, printing, scenarios\<close>

text \<open>A parser returns on every input and leaves a suffix of it; the \<open>mproto\<close> parsers
  are required to be such parsers.\<close>

definition psuffix :: "'a parser \<Rightarrow> bool" where
  "psuffix p \<longleftrightarrow> (\<forall>i. \<exists>r. p i = Some r \<and> (\<forall>i' x. r = POk i' x \<longrightarrow> suffix i' i))"

definition mproto_suffix :: "('ty, 'td) mproto_parsers \<Rightarrow> bool" where
  "mproto_suffix mp \<longleftrightarrow> psuffix (mp_ty mp) \<and> psuffix (mp_type_params_list mp) \<and>
     psuffix (mp_type_args_list mp) \<and> psuffix (mp_type_def mp)"

text \<open>The source form of an import, one per line.\<close>

definition print_import :: "cg_import \<Rightarrow> string" where
  "print_import im = ''import '' @ imp_name im @ '' '' @ [CHR 0x22] @ imp_path im @ [CHR 0x22]"

definition print_imports :: "cg_import list \<Rightarrow> string" where
  "print_imports imps = concat (map (\<lambda>im. print_import im @ [CHR 0x0A]) imps)"

definition import_valid :: "cg_import \<Rightarrow> bool" where
  "import_valid im \<longleftrightarrow>
     imp_name im \<noteq> [] \<and> list_all (\<lambda>x. is_alphanumeric x \<or> is_digit10 x \<or> x = CHR ''_'') (imp_name im) \<and>
     imp_path im \<noteq> [] \<and> list_all (\<lambda>x. x \<noteq> CHR 0x22) (imp_path im)"

text \<open>Stand-ins for the \<open>mproto\<close> parsers in the scenarios: a type is an identifier, type
  parameters and arguments are \<open><a, b, >\<close>, and there are no type definitions.\<close>

definition scenario_type_list :: "string list parser" where
  "scenario_type_list =
     pbind (char_p CHR ''<'') (\<lambda>_. pbind (comma_list identifier_p) (\<lambda>ps.
     pbind multispace0 (\<lambda>_. pbind (opt (char_p CHR '','')) (\<lambda>_.
     pbind multispace0 (\<lambda>_. pbind (char_p CHR ''>'') (\<lambda>_. pret ps))))))"

definition scenario_mp :: "(string, unit) mproto_parsers" where
  "scenario_mp = \<lparr>mp_ty = identifier_p, mp_type_params_list = scenario_type_list,
     mp_type_args_list = scenario_type_list, mp_type_def = (\<lambda>_. Some PError)\<rparr>"

definition empty_schema :: "('ty, 'td) schema" where
  "empty_schema = \<lparr>sc_imports = [], sc_interfaces = [], sc_type_defs = []\<rparr>"

definition scenario_state_interface :: "string interface" where
  "scenario_state_interface =
     \<lparr>if_name = ''A'', if_type_params = [], if_roles = [''x''], if_events = [], if_objects = [],
      if_config = [], if_required_impls = [], if_methods = [],
      if_state = [\<lparr>st_name = ''s'', st_ty = ''u32''\<rparr>]\<rparr>"

section \<open>Lemmas\<close>

named_theorems psuffix_intros "parsers that return and leave a suffix of their input"

lemma psuffixI:
  "(\<And>i. \<exists>r. p i = Some r \<and> (\<forall>i' x. r = POk i' x \<longrightarrow> suffix i' i)) \<Longrightarrow> psuffix p"
  by (simp add: psuffix_def)

lemma psuffixE:
  assumes "psuffix p"
  obtains r where "p i = Some r" "\<And>i' x. r = POk i' x \<Longrightarrow> suffix i' i"
  using assms unfolding psuffix_def by blast

lemma psuffix_pret [psuffix_intros]: "psuffix (pret x)"
  by (simp add: psuffix_def pret_def)

lemma psuffix_pbind [psuffix_intros]:
  assumes p: "psuffix p" and k: "\<And>x. psuffix (k x)"
  shows "psuffix (pbind p k)"
proof (rule psuffixI)
  fix i
  obtain r where r: "p i = Some r" and rs: "\<And>i' x. r = POk i' x \<Longrightarrow> suffix i' i"
    using psuffixE [OF p, where i = i] by blast
  show "\<exists>r. pbind p k i = Some r \<and> (\<forall>i' x. r = POk i' x \<longrightarrow> suffix i' i)"
  proof (cases r)
    case (POk i1 x)
    obtain r' where "k x i1 = Some r'" "\<And>i' y. r' = POk i' y \<Longrightarrow> suffix i' i1"
      using psuffixE [OF k, where i = i1] by blast
    with r rs POk show ?thesis by (auto simp: pbind_def intro: suffix_order.trans)
  qed (use r in \<open>simp_all add: pbind_def\<close>)
qed

lemma psuffix_pmap [psuffix_intros]: "psuffix p \<Longrightarrow> psuffix (pmap f p)"
  unfolding pmap_def by (intro psuffix_intros)

lemma psuffix_tag [psuffix_intros]: "psuffix (tag t)"
  by (simp add: psuffix_def tag_def suffix_drop)

lemma psuffix_char_p [psuffix_intros]: "psuffix (char_p c)"
  by (auto simp: psuffix_def char_p_def suffix_ConsI split: list.splits)

lemma psuffix_multispace0 [psuffix_intros]: "psuffix multispace0"
  by (simp add: psuffix_def multispace0_def suffix_dropWhile)

lemma psuffix_take_while1 [psuffix_intros]: "psuffix (take_while1 P)"
  by (simp add: psuffix_def take_while1_def suffix_dropWhile)

lemma psuffix_fail [psuffix_intros]: "psuffix (\<lambda>_. Some PError)"
  by (simp add: psuffix_def)

lemma psuffix_opt [psuffix_intros]: "psuffix p \<Longrightarrow> psuffix (opt p)"
  by (auto simp: psuffix_def opt_def split: option.splits pres.splits) (metis option.inject)+

lemma list_all_intros [psuffix_intros]: "list_all P []" "P x \<Longrightarrow> list_all P xs \<Longrightarrow> list_all P (x # xs)"
  by simp_all

lemma psuffix_alt [psuffix_intros]: "list_all psuffix ps \<Longrightarrow> psuffix (alt ps)"
proof (induction ps)
  case Nil show ?case by (simp add: psuffix_def)
next
  case (Cons p ps)
  then have p: "psuffix p" and ps: "psuffix (alt ps)" by simp_all
  show ?case
  proof (rule psuffixI)
    fix i
    obtain r where "p i = Some r" "\<And>i' x. r = POk i' x \<Longrightarrow> suffix i' i"
      using psuffixE [OF p, where i = i] by blast
    moreover obtain r' where "alt ps i = Some r'" "\<And>i' x. r' = POk i' x \<Longrightarrow> suffix i' i"
      using psuffixE [OF ps, where i = i] by blast
    ultimately show "\<exists>r. alt (p # ps) i = Some r \<and> (\<forall>i' x. r = POk i' x \<longrightarrow> suffix i' i)"
      by (cases r) auto
  qed
qed

lemma psuffix_cut [psuffix_intros]: "psuffix p \<Longrightarrow> psuffix (cut p)"
  by (auto simp: psuffix_def cut_def split: option.splits pres.splits) (metis option.inject)+

lemma psuffix_preceded [psuffix_intros]: "psuffix p \<Longrightarrow> psuffix q \<Longrightarrow> psuffix (preceded p q)"
  unfolding preceded_def by (intro psuffix_intros)

lemma psuffix_terminated [psuffix_intros]: "psuffix p \<Longrightarrow> psuffix q \<Longrightarrow> psuffix (terminated p q)"
  unfolding terminated_def by (intro psuffix_intros)

text \<open>The loop of \<open>separated_list0\<close> returns when its parsers do: each round the separator
  consumes at least one character (else the loop stops) and the element parser none less.\<close>

lemma sep_list_loop_returns:
  assumes sep: "psuffix sep" and f: "psuffix f"
  shows "\<exists>r. sep_list_loop sep f i res = Some r \<and> (\<forall>i' x. r = POk i' x \<longrightarrow> suffix i' i)"
proof (induction "length i" arbitrary: i res rule: less_induct)
  case less
  obtain r where r: "sep i = Some r" and rs: "\<And>i' x. r = POk i' x \<Longrightarrow> suffix i' i"
    using psuffixE [OF sep, where i = i] by blast
  show ?case
  proof (cases r)
    case (POk i1 y)
    note r1 = this
    show ?thesis
    proof (cases "length i1 = length i")
      case False
      have s1: "suffix i1 i" using rs r1 by blast
      with False have lt: "length i1 < length i" using suffix_length_le le_neq_implies_less by blast
      obtain r2 where r2: "f i1 = Some r2" and r2s: "\<And>i' x. r2 = POk i' x \<Longrightarrow> suffix i' i1"
        using psuffixE [OF f, where i = i1] by blast
      show ?thesis
      proof (cases r2)
        case (POk i2 x)
        have s2: "suffix i2 i1" using r2s POk by blast
        then have "length i2 < length i" using lt suffix_length_le le_less_trans by blast
        then obtain r3 where "sep_list_loop sep f i2 (res @ [x]) = Some r3"
          "\<forall>i' x. r3 = POk i' x \<longrightarrow> suffix i' i2"
          using less by blast
        with r r1 False r2 \<open>r2 = POk i2 x\<close> s1 s2 show ?thesis
          by (subst sep_list_loop.simps) (auto intro: suffix_order.trans)
      qed (use r r1 False r2 in \<open>subst sep_list_loop.simps; simp\<close>)+
    qed (use r POk in \<open>subst sep_list_loop.simps; simp\<close>)
  qed (use r in \<open>subst sep_list_loop.simps; simp\<close>)+
qed

lemma psuffix_separated_list0 [psuffix_intros]:
  assumes sep: "psuffix sep" and f: "psuffix f"
  shows "psuffix (separated_list0 sep f)"
proof (rule psuffixI)
  fix i
  obtain r where r: "f i = Some r" and rs: "\<And>i' x. r = POk i' x \<Longrightarrow> suffix i' i"
    using psuffixE [OF f, where i = i] by blast
  show "\<exists>r. separated_list0 sep f i = Some r \<and> (\<forall>i' x. r = POk i' x \<longrightarrow> suffix i' i)"
  proof (cases r)
    case (POk i1 x)
    then show ?thesis using sep_list_loop_returns [OF sep f, of i1 "[x]"] r rs
      by (auto simp: separated_list0_def intro: suffix_order.trans)
  qed (use r in \<open>simp_all add: separated_list0_def\<close>)
qed

lemma psuffix_opt_trailing_comma [psuffix_intros]: "psuffix f \<Longrightarrow> psuffix (opt_trailing_comma f)"
  unfolding opt_trailing_comma_def by (intro psuffix_intros)

lemma psuffix_comma_list [psuffix_intros]: "psuffix f \<Longrightarrow> psuffix (comma_list f)"
  unfolding comma_list_def by (intro psuffix_intros)

lemma psuffix_identifier_p [psuffix_intros]: "psuffix identifier_p"
  unfolding identifier_p_def by (intro psuffix_intros)

lemma psuffix_qualified_identifier_p [psuffix_intros]: "psuffix qualified_identifier_p"
  unfolding qualified_identifier_p_def by (intro psuffix_intros allI)

lemma psuffix_import [psuffix_intros]: "psuffix import"
  unfolding import_def by (intro psuffix_intros allI)

lemma psuffix_roles_list [psuffix_intros]: "psuffix roles_list"
  unfolding roles_list_def by (intro psuffix_intros allI)

lemma mproto_suffixD [psuffix_intros]:
  "mproto_suffix mp \<Longrightarrow> psuffix (mp_ty mp)" "mproto_suffix mp \<Longrightarrow> psuffix (mp_type_params_list mp)"
  "mproto_suffix mp \<Longrightarrow> psuffix (mp_type_args_list mp)" "mproto_suffix mp \<Longrightarrow> psuffix (mp_type_def mp)"
  by (simp_all add: mproto_suffix_def)

lemma psuffix_interface_event_p [psuffix_intros]: "mproto_suffix mp \<Longrightarrow> psuffix (interface_event_p mp)"
  unfolding interface_event_p_def by (intro psuffix_intros allI)

lemma psuffix_interface_events_list_p [psuffix_intros]: "mproto_suffix mp \<Longrightarrow> psuffix (interface_events_list_p mp)"
  unfolding interface_events_list_p_def by (intro psuffix_intros allI)

lemma psuffix_interface_object_p [psuffix_intros]: "mproto_suffix mp \<Longrightarrow> psuffix (interface_object_p mp)"
  unfolding interface_object_p_def by (intro psuffix_intros allI)

lemma psuffix_interface_objects [psuffix_intros]: "mproto_suffix mp \<Longrightarrow> psuffix (interface_objects mp)"
  unfolding interface_objects_def by (intro psuffix_intros allI)

lemma psuffix_interface_state_p [psuffix_intros]: "mproto_suffix mp \<Longrightarrow> psuffix (interface_state_p mp)"
  unfolding interface_state_p_def by (intro psuffix_intros allI)

lemma psuffix_interface_state_list [psuffix_intros]: "mproto_suffix mp \<Longrightarrow> psuffix (interface_state_list mp)"
  unfolding interface_state_list_def by (intro psuffix_intros allI)

lemma psuffix_interface_config_item_p [psuffix_intros]: "mproto_suffix mp \<Longrightarrow> psuffix (interface_config_item_p mp)"
  unfolding interface_config_item_p_def by (intro psuffix_intros allI)

lemma psuffix_interface_config_list_p [psuffix_intros]: "mproto_suffix mp \<Longrightarrow> psuffix (interface_config_list_p mp)"
  unfolding interface_config_list_p_def by (intro psuffix_intros allI)

lemma psuffix_fn_decl_p [psuffix_intros]: "mproto_suffix mp \<Longrightarrow> psuffix (fn_decl_p mp)"
  unfolding fn_decl_p_def by (intro psuffix_intros allI)

lemma psuffix_interface_required_impl_p [psuffix_intros]: "mproto_suffix mp \<Longrightarrow> psuffix (interface_required_impl_p mp)"
  unfolding interface_required_impl_p_def by (intro psuffix_intros allI)

lemma psuffix_interface_required_impls_list_p [psuffix_intros]: "mproto_suffix mp \<Longrightarrow> psuffix (interface_required_impls_list_p mp)"
  unfolding interface_required_impls_list_p_def by (intro psuffix_intros allI)

lemma psuffix_object_method_p [psuffix_intros]: "mproto_suffix mp \<Longrightarrow> psuffix (object_method_p mp)"
  unfolding object_method_p_def by (intro psuffix_intros allI)

lemma psuffix_object_methods_list_p [psuffix_intros]: "mproto_suffix mp \<Longrightarrow> psuffix (object_methods_list_p mp)"
  unfolding object_methods_list_p_def by (intro psuffix_intros allI)

lemma psuffix_interface_item_p [psuffix_intros]: "mproto_suffix mp \<Longrightarrow> psuffix (interface_item_p mp)"
  unfolding interface_item_p_def by (intro psuffix_intros allI)

lemma psuffix_interface_def [psuffix_intros]: "mproto_suffix mp \<Longrightarrow> psuffix (interface_def mp)"
  unfolding interface_def_def by (intro psuffix_intros allI)

lemma psuffix_root [psuffix_intros]: "mproto_suffix mp \<Longrightarrow> psuffix (root mp)"
  unfolding root_def by (intro psuffix_intros allI)

lemma ident_char_not_space:
  "is_alphanumeric x \<or> is_digit10 x \<or> x = CHR ''_'' \<Longrightarrow> \<not> is_multispace x"
  by (auto simp: is_alphanumeric_def is_digit10_def is_multispace_def Let_def)

lemma ident_char_not_special:
  "\<not> (is_alphanumeric x \<or> is_digit10 x \<or> x = CHR ''_'')" if "x \<in> {CHR 0x20, CHR 0x22, CHR 0x0A}"
  using that by (auto simp: is_alphanumeric_def is_digit10_def)

lemma import_print:
  assumes v: "import_valid im"
  shows "import (print_import im @ rest) = Some (POk rest im)"
proof -
  obtain c cs where n: "imp_name im = c # cs" using v by (cases "imp_name im") (auto simp: import_valid_def)
  let ?P = "\<lambda>x. is_alphanumeric x \<or> is_digit10 x \<or> x = CHR ''_''"
  have allP: "\<forall>x\<in>set (imp_name im). ?P x" using v by (simp add: import_valid_def list_all_iff)
  have allQ: "\<forall>x\<in>set (imp_path im). x \<noteq> CHR 0x22" using v by (simp add: import_valid_def list_all_iff)
  have ne: "imp_path im \<noteq> []" using v by (simp add: import_valid_def)
  have c: "\<not> is_multispace c" using allP n ident_char_not_space by simp
  have sp: "\<not> ?P (CHR 0x20)" by (rule ident_char_not_special) simp
  show ?thesis
    using n allP allQ ne c sp
    by (simp add: import_def print_import_def pbind_def pret_def tag_def multispace0_def identifier_p_def
        take_while1_def char_p_def takeWhile_append2 dropWhile_append2 is_multispace_def)
qed

lemma print_imports_simps [simp]:
  "print_imports [] = []"
  "print_imports (im # imps) = print_import im @ CHR 0x0A # print_imports imps"
  by (simp_all add: print_imports_def)

lemma print_import_start: "\<exists>r. print_import im = CHR ''i'' # r"
  by (simp add: print_import_def)

lemma root_item_empty:
  "mp_type_def mp [] = Some PError \<Longrightarrow>
     alt [pmap SImport import, pmap SInterface (interface_def mp), pmap STypeDef (mp_type_def mp)] [] = Some PError"
  by (simp add: pmap_def pbind_def import_def interface_def_def tag_def)

lemma root_item_import:
  "import_valid im \<Longrightarrow>
     alt [pmap SImport import, pmap SInterface (interface_def mp), pmap STypeDef (mp_type_def mp)]
       (print_import im @ rest) = Some (POk rest (SImport im))"
  by (simp add: pmap_def pbind_def pret_def import_print)

lemma root_loop_imports:
  assumes stop: "alt [pmap SImport import, pmap SInterface (interface_def mp), pmap STypeDef (mp_type_def mp)]
                   (dropWhile is_multispace rest) = Some PError"
  shows "list_all import_valid imps \<Longrightarrow>
    sep_list_loop multispace0
      (alt [pmap SImport import, pmap SInterface (interface_def mp), pmap STypeDef (mp_type_def mp)])
      (CHR 0x0A # print_imports imps @ rest) res = Some (POk (CHR 0x0A # rest) (res @ map SImport imps))"
proof (induction imps arbitrary: res)
  case Nil
  have "length (dropWhile is_multispace rest) \<noteq> Suc (length rest)"
    using length_dropWhile_le [of is_multispace rest] by simp
  then show ?case using stop
    by (subst sep_list_loop.simps) (simp add: multispace0_def is_multispace_def del: alt.simps)
next
  case (Cons im imps)
  obtain r where r: "print_import im = CHR ''i'' # r" using print_import_start by blast
  have v: "import_valid im" using Cons.prems by simp
  have "dropWhile is_multispace (CHR 0x0A # print_imports (im # imps) @ rest) =
      print_import im @ CHR 0x0A # print_imports imps @ rest"
    using r by (simp add: is_multispace_def)
  then have "sep_list_loop multispace0
      (alt [pmap SImport import, pmap SInterface (interface_def mp), pmap STypeDef (mp_type_def mp)])
      (CHR 0x0A # print_imports (im # imps) @ rest) res =
    sep_list_loop multispace0
      (alt [pmap SImport import, pmap SInterface (interface_def mp), pmap STypeDef (mp_type_def mp)])
      (CHR 0x0A # print_imports imps @ rest) (res @ [SImport im])"
    using root_item_import [OF v, where rest = "CHR 0x0A # print_imports imps @ rest" and mp = mp] r
    by (subst sep_list_loop.simps) (simp add: multispace0_def is_multispace_def del: alt.simps)
  then show ?case using Cons by (simp del: alt.simps)
qed

lemma foldl_push_imports:
  "foldl push_schema_item s (map SImport imps) = s\<lparr>sc_imports := sc_imports s @ imps\<rparr>"
  by (induction imps arbitrary: s) simp_all


lemma comment_marker_in_path:
  "parse_file_str scenario_mp (print_import \<lparr>imp_name = ''std'', imp_path = ''https://x''\<rparr>) = Some (Inr empty_schema)"
  by code_simp

section \<open>Properties\<close>

text \<open>
  parse_file returns on every file once the mproto parsers it calls return and
  consume input: every separated_list0 loop of the grammar ends, because its separator
  must consume input on each round.
\<close>
theorem parse_file_terminates: "mproto_suffix mp \<Longrightarrow> \<exists>r. parse_file_str mp file_str = Some r"
proof -
  assume "mproto_suffix mp"
  then obtain r where r: "root mp (remove_comments file_str) = Some r"
    using psuffixE [OF psuffix_root, where i = "remove_comments file_str"] by blast
  show ?thesis by (cases r) (simp_all add: parse_file_str_def parse_schema_def r)
qed

theorem parse_file_terminates_witness:
  "mproto_suffix scenario_mp \<and> (\<exists>r. parse_file_str scenario_mp ''interface A @(x) { }'' = Some r)"
proof -
  have "mproto_suffix scenario_mp"
    unfolding mproto_suffix_def scenario_mp_def scenario_type_list_def
    by (simp; intro conjI psuffix_intros allI)
  then show ?thesis using parse_file_terminates by blast
qed

text \<open>
  Claim C38. parse_schema drops the input root leaves unparsed, with no error.  After a
  schema's imports, text that starts no item (the item parser rejects it, as it does an
  interface with a misspelled keyword) makes parse_schema return the imports alone: that
  item and every item after it are silently removed from the schema.
\<close>
theorem schema_truncated_after_bad_item:
  assumes v: "list_all import_valid imps" and ne: "imps \<noteq> []"
    and stop: "alt [pmap SImport import, pmap SInterface (interface_def mp), pmap STypeDef (mp_type_def mp)]
                 (dropWhile is_multispace rest) = Some PError"
  shows "parse_schema mp (print_imports imps @ rest) =
           Some (Inr \<lparr>sc_imports = imps, sc_interfaces = [], sc_type_defs = []\<rparr>)"
proof -
  obtain im imps' where c: "imps = im # imps'" using ne by (cases imps) auto
  have "root mp (print_imports imps @ rest) = Some (POk (CHR 0x0A # rest) (map SImport imps))"
    using c v root_item_import [of im mp "CHR 0x0A # print_imports imps' @ rest"]
      root_loop_imports [OF stop, of imps' "[SImport im]"]
    by (simp add: root_def separated_list0_def del: alt.simps)
  then show ?thesis by (simp add: parse_schema_def foldl_push_imports)
qed

theorem schema_truncated_after_bad_item_witness:
  "parse_schema scenario_mp (print_imports [\<lparr>imp_name = ''std'', imp_path = ''std.modrpc''\<rparr>] @
     ''interface B @(x) { evnts @(x) -> @(x) { e: u32 } }'' @ [CHR 0x0A] @ ''interface C @(x) { }'') =
   Some (Inr \<lparr>sc_imports = [\<lparr>imp_name = ''std'', imp_path = ''std.modrpc''\<rparr>], sc_interfaces = [], sc_type_defs = []\<rparr>)"
proof -
  have stop: "alt [pmap SImport import, pmap SInterface (interface_def scenario_mp), pmap STypeDef (mp_type_def scenario_mp)]
      (dropWhile is_multispace (''interface B @(x) { evnts @(x) -> @(x) { e: u32 } }'' @ [CHR 0x0A] @
         ''interface C @(x) { }'')) = Some PError"
    by code_simp
  show ?thesis
    by (rule schema_truncated_after_bad_item [OF _ _ stop])
       (simp_all add: import_valid_def is_alphanumeric_def is_digit10_def)
qed

text \<open>
  An interface whose last item's closing brace is followed directly by the
  interface's own closing brace is dropped from the schema: the item list's separator
  multispace0 consumes nothing there, so separated_list0 fails and root backtracks; with a
  space between the braces the interface is parsed.
\<close>
theorem closing_braces_drop_interface:
  "parse_file_str scenario_mp ''interface A @(x) { state { s: u32 }}'' = Some (Inr empty_schema) \<and>
   parse_file_str scenario_mp ''interface A @(x) { state { s: u32 } }'' =
     Some (Inr \<lparr>sc_imports = [], sc_interfaces = [scenario_state_interface], sc_type_defs = []\<rparr>)"
  by code_simp

text \<open>
  Imports round-trip: parse_schema reads back exactly the imports of their
  printed form, one per line, when names are identifiers, paths are non-empty and free of
  quotes, and the type-definition parser rejects the empty input.
\<close>
theorem imports_roundtrip:
  "mp_type_def mp [] = Some PError \<Longrightarrow> list_all import_valid imps \<Longrightarrow>
     parse_schema mp (print_imports imps) =
       Some (Inr \<lparr>sc_imports = imps, sc_interfaces = [], sc_type_defs = []\<rparr>)"
proof (cases imps)
  case Nil
  assume "mp_type_def mp [] = Some PError"
  then show ?thesis using Nil root_item_empty [of mp]
    by (simp add: parse_schema_def root_def separated_list0_def del: alt.simps)
next
  case (Cons im rest)
  assume td: "mp_type_def mp [] = Some PError" and v: "list_all import_valid imps"
  then have "root mp (print_imports imps) = Some (POk [CHR 0x0A] (map SImport imps))"
    using Cons root_item_import [of im mp "CHR 0x0A # print_imports rest"]
      root_loop_imports [of mp "[]" rest "[SImport im]"] root_item_empty [OF td]
    by (simp add: root_def separated_list0_def del: alt.simps)
  then show ?thesis by (simp add: parse_schema_def foldl_push_imports)
qed


theorem imports_roundtrip_witness:
  "parse_schema scenario_mp (print_imports [\<lparr>imp_name = ''std'', imp_path = ''std.modrpc''\<rparr>,
     \<lparr>imp_name = ''app_1'', imp_path = ''../app.modrpc''\<rparr>]) =
   Some (Inr \<lparr>sc_imports = [\<lparr>imp_name = ''std'', imp_path = ''std.modrpc''\<rparr>,
     \<lparr>imp_name = ''app_1'', imp_path = ''../app.modrpc''\<rparr>], sc_interfaces = [], sc_type_defs = []\<rparr>)"
  by (rule imports_roundtrip) (simp_all add: scenario_mp_def import_valid_def is_alphanumeric_def is_digit10_def)

end
