(* ===== verification/Broadcaster.thy ===== *)
theory Broadcaster
  imports Wire
begin

text \<open>
  The hub's packet broadcaster (\<open>modrpc-hub/src/broadcaster.rs\<close>).  A hub relays packet
  bundles between transports: each incoming bundle carries the local channel id it arrived
  on, and the broadcaster forwards it to every next hop registered for that channel except
  the transport it came from, re-framed with the next hop's remote channel id (TCP and
  WebSocket transports) or split into packets (local transports).

  The state \<open>Broadcaster\<close> is a record: \<open>next_hops\<close> and
  \<open>transport_local_channel_ids\<close> are association lists, and the four slot maps of
  transports are modelled by their live keys and the next fresh key (the \<open>slotmap\<close>
  crate is a dependency; its versioned keys are never handed out twice).  The request and
  packet queues become a step function on events; what a send does is an output, and whether
  a transport's sink is closed is an oracle argument \<open>closed\<close>.  Channel ids are
  \<open>u32\<close> words.
\<close>

datatype transport_type = Tcp | WebSocket | GlooWebSocket | Local

record transport_index =
  ti_type :: transport_type
  ti_key :: nat

record next_hop =
  nh_remote_channel_id :: u32
  nh_transport :: transport_index

record in_packet =
  ip_transport :: transport_index
  ip_channel_id :: u32
  ip_packet :: bytes

subsection \<open>Slot maps\<close>

record slot_map =
  sm_keys :: "nat list"
  sm_next :: nat

definition slot_new :: slot_map where
  "slot_new = \<lparr>sm_keys = [], sm_next = 0\<rparr>"

definition slot_insert :: "slot_map \<Rightarrow> nat \<times> slot_map" where
  "slot_insert s = (sm_next s, \<lparr>sm_keys = sm_keys s @ [sm_next s], sm_next = Suc (sm_next s)\<rparr>)"

definition slot_remove :: "nat \<Rightarrow> slot_map \<Rightarrow> slot_map" where
  "slot_remove k s = s\<lparr>sm_keys := removeAll k (sm_keys s)\<rparr>"

definition slot_contains :: "nat \<Rightarrow> slot_map \<Rightarrow> bool" where
  "slot_contains k s \<longleftrightarrow> k \<in> set (sm_keys s)"

subsection \<open>The broadcaster\<close>

record broadcaster =
  bc_next_hops :: "(u32 \<times> next_hop list) list"
  bc_transport_local_channel_ids :: "(transport_index \<times> u32 list) list"
  bc_tcp_transports :: slot_map
  bc_ws_transports :: slot_map
  bc_gloo_ws_transports :: slot_map
  bc_local_transports :: slot_map

datatype bc_request =
  AddTcp | AddWs | AddGlooWs | AddLocal
| Remove transport_index
| AddNextHopToChannels transport_index "(u32 \<times> u32) list"

datatype bc_response = RespTransport transport_index | RespUnit

text \<open>A bundle sent on a TCP or WebSocket transport, or a packet pushed to a local one.\<close>

datatype bc_out = OutBundle transport_index bytes | OutPacket transport_index bytes

definition broadcaster_new :: broadcaster where
  "broadcaster_new =
     \<lparr>bc_next_hops = [], bc_transport_local_channel_ids = [], bc_tcp_transports = slot_new,
      bc_ws_transports = slot_new, bc_gloo_ws_transports = slot_new, bc_local_transports = slot_new\<rparr>"

text \<open>The slot map of a transport type, read and written.\<close>

fun bc_slots :: "transport_type \<Rightarrow> broadcaster \<Rightarrow> slot_map" where
  "bc_slots Tcp st = bc_tcp_transports st"
| "bc_slots WebSocket st = bc_ws_transports st"
| "bc_slots GlooWebSocket st = bc_gloo_ws_transports st"
| "bc_slots Local st = bc_local_transports st"

fun bc_set_slots :: "transport_type \<Rightarrow> slot_map \<Rightarrow> broadcaster \<Rightarrow> broadcaster" where
  "bc_set_slots Tcp s st = st\<lparr>bc_tcp_transports := s\<rparr>"
| "bc_set_slots WebSocket s st = st\<lparr>bc_ws_transports := s\<rparr>"
| "bc_set_slots GlooWebSocket s st = st\<lparr>bc_gloo_ws_transports := s\<rparr>"
| "bc_set_slots Local s st = st\<lparr>bc_local_transports := s\<rparr>"

text \<open>\<open>add_local_transport\<close> and the \<open>Add*\<close> requests: insert into the type's slot map.\<close>

definition add_transport :: "transport_type \<Rightarrow> broadcaster \<Rightarrow> transport_index \<times> broadcaster" where
  "add_transport ty st =
     (let (key, s) = slot_insert (bc_slots ty st)
      in (\<lparr>ti_type = ty, ti_key = key\<rparr>, bc_set_slots ty s st))"

definition remove_transport_slot :: "transport_index \<Rightarrow> broadcaster \<Rightarrow> broadcaster" where
  "remove_transport_slot t st = bc_set_slots (ti_type t) (slot_remove (ti_key t) (bc_slots (ti_type t) st)) st"

text \<open>\<open>next_hops.retain(|next_hop| next_hop.transport != transport)\<close> on each channel the
  transport took part in.\<close>

definition retain_channel ::
  "transport_index \<Rightarrow> (u32 \<times> next_hop list) list \<Rightarrow> u32 \<Rightarrow> (u32 \<times> next_hop list) list" where
  "retain_channel t nhs ch =
     (case map_of nhs ch of
        None \<Rightarrow> nhs
      | Some hops \<Rightarrow> AList.update ch (filter (\<lambda>h. nh_transport h \<noteq> t) hops) nhs)"

definition remove_transport :: "transport_index \<Rightarrow> broadcaster \<Rightarrow> broadcaster" where
  "remove_transport t st =
     (let st1 = remove_transport_slot t st
      in case map_of (bc_transport_local_channel_ids st1) t of
           None \<Rightarrow> st1
         | Some local_channel_ids \<Rightarrow>
             st1\<lparr>bc_transport_local_channel_ids := AList.delete t (bc_transport_local_channel_ids st1),
                 bc_next_hops := foldl (retain_channel t) (bc_next_hops st1) local_channel_ids\<rparr>)"

text \<open>\<open>AddNextHopToChannels\<close>: push a next hop on every local channel, then record the
  local channels under the transport.\<close>

definition push_next_hop ::
  "transport_index \<Rightarrow> (u32 \<times> next_hop list) list \<Rightarrow> u32 \<times> u32 \<Rightarrow> (u32 \<times> next_hop list) list" where
  "push_next_hop t nhs ids =
     (case ids of (local_channel_id, remote_channel_id) \<Rightarrow>
        AList.update local_channel_id
          ((case map_of nhs local_channel_id of None \<Rightarrow> [] | Some hops \<Rightarrow> hops) @
           [\<lparr>nh_remote_channel_id = remote_channel_id, nh_transport = t\<rparr>]) nhs)"

definition add_next_hop_to_channels ::
  "transport_index \<Rightarrow> (u32 \<times> u32) list \<Rightarrow> broadcaster \<Rightarrow> broadcaster" where
  "add_next_hop_to_channels t channel_ids st =
     (let nhs = foldl (push_next_hop t) (bc_next_hops st) channel_ids;
          tlc = bc_transport_local_channel_ids st;
          old = (case map_of tlc t of None \<Rightarrow> [] | Some cs \<Rightarrow> cs)
      in st\<lparr>bc_next_hops := nhs,
            bc_transport_local_channel_ids := AList.update t (old @ map fst channel_ids) tlc\<rparr>)"

fun handle_request :: "bc_request \<Rightarrow> broadcaster \<Rightarrow> bc_response \<times> broadcaster" where
  "handle_request AddTcp st = (let (t, st') = add_transport Tcp st in (RespTransport t, st'))"
| "handle_request AddWs st = (let (t, st') = add_transport WebSocket st in (RespTransport t, st'))"
| "handle_request AddGlooWs st = (let (t, st') = add_transport GlooWebSocket st in (RespTransport t, st'))"
| "handle_request AddLocal st = (let (t, st') = add_transport Local st in (RespTransport t, st'))"
| "handle_request (Remove t) st = (RespUnit, remove_transport t st)"
| "handle_request (AddNextHopToChannels t channel_ids) st = (RespUnit, add_next_hop_to_channels t channel_ids st)"

text \<open>The frame a TCP or WebSocket next hop gets: a \<open>PacketBundle\<close> header with the
  remote channel id and \<open>bundle_payload.len() as u16\<close>, then the payload.\<close>

definition bundle_frame :: "u32 \<Rightarrow> bytes \<Rightarrow> bytes" where
  "bundle_frame remote payload =
     encode_packet_bundle \<lparr>pb_channel_id = remote, pb_length = of_nat (length payload)\<rparr> @ payload"

text \<open>\<open>Broadcaster::broadcast\<close>: the loop over the next hops.  A closed sink removes the
  transport from its slot map (a local transport only when a packet was to be sent).  A
  local transport gets the views \<open>ShatterPacketBundle\<close> yields: the bundle from each
  packet's offset on.\<close>

fun broadcast ::
  "(transport_index \<Rightarrow> bool) \<Rightarrow> in_packet \<Rightarrow> next_hop list \<Rightarrow> broadcaster \<Rightarrow> broadcaster \<times> bc_out list" where
  "broadcast closed ip [] st = (st, [])"
| "broadcast closed ip (h # hs) st =
     (let t = nh_transport h in
      if t = ip_transport ip then broadcast closed ip hs st
      else if \<not> slot_contains (ti_key t) (bc_slots (ti_type t) st) then broadcast closed ip hs st
      else if ti_type t = Local then
        (let offs = shatter_iter (ip_packet ip) 0 in
         if offs = [] then broadcast closed ip hs st
         else if closed t then broadcast closed ip hs (remove_transport_slot t st)
         else (let (st', outs) = broadcast closed ip hs st
               in (st', map (\<lambda>c. OutPacket t (drop c (ip_packet ip))) offs @ outs)))
      else if closed t then broadcast closed ip hs (remove_transport_slot t st)
      else (let (st', outs) = broadcast closed ip hs st
            in (st', OutBundle t (bundle_frame (nh_remote_channel_id h) (ip_packet ip)) # outs)))"

definition handle_in_packet ::
  "(transport_index \<Rightarrow> bool) \<Rightarrow> in_packet \<Rightarrow> broadcaster \<Rightarrow> broadcaster \<times> bc_out list" where
  "handle_in_packet closed ip st =
     (case map_of (bc_next_hops st) (ip_channel_id ip) of
        None \<Rightarrow> (st, [])
      | Some next_hops \<Rightarrow> broadcast closed ip next_hops st)"

text \<open>One round of \<open>Broadcaster::run\<close>: an incoming packet or a request.\<close>

datatype bc_event = InPacketEv in_packet | RequestEv bc_request

fun bc_step ::
  "(transport_index \<Rightarrow> bool) \<Rightarrow> bc_event \<Rightarrow> broadcaster \<Rightarrow> broadcaster \<times> bc_out list \<times> bc_response option" where
  "bc_step closed (InPacketEv ip) st = (let (st', outs) = handle_in_packet closed ip st in (st', outs, None))"
| "bc_step closed (RequestEv r) st = (let (resp, st') = handle_request r st in (st', [], Some resp))"

inductive bc_reach :: "broadcaster \<Rightarrow> bool" where
  bc_reach_new: "bc_reach broadcaster_new"
| bc_reach_step: "bc_reach st \<Longrightarrow> bc_reach (fst (bc_step closed ev st))"

text \<open>A next hop on channel \<open>ch\<close> is recorded when \<open>ch\<close> is among the local channels
  listed under its transport.\<close>

definition recorded :: "(transport_index \<times> u32 list) list \<Rightarrow> u32 \<Rightarrow> next_hop \<Rightarrow> bool" where
  "recorded tlc ch h = (case map_of tlc (nh_transport h) of None \<Rightarrow> False | Some cs \<Rightarrow> ch \<in> set cs)"

text \<open>Every next hop of a channel is recorded, and both tables have distinct keys.\<close>

definition bc_inv :: "broadcaster \<Rightarrow> bool" where
  "bc_inv st \<longleftrightarrow>
     distinct (map fst (bc_next_hops st)) \<and> distinct (map fst (bc_transport_local_channel_ids st)) \<and>
     list_all (\<lambda>(ch, hops). list_all (recorded (bc_transport_local_channel_ids st) ch) hops) (bc_next_hops st)"

text \<open>\<open>Broadcaster::run\<close>: the events in the order the \<open>select!\<close> takes them, with the
  outputs of each in turn.\<close>

fun bc_run :: "(transport_index \<Rightarrow> bool) \<Rightarrow> bc_event list \<Rightarrow> broadcaster \<Rightarrow> broadcaster \<times> bc_out list" where
  "bc_run closed [] st = (st, [])"
| "bc_run closed (ev # evs) st =
     (let (st1, outs1, _) = bc_step closed ev st; (st2, outs2) = bc_run closed evs st1 in (st2, outs1 @ outs2))"

subsection \<open>Specification side\<close>

definition out_target :: "bc_out \<Rightarrow> transport_index" where
  "out_target ob = (case ob of OutBundle t _ \<Rightarrow> t | OutPacket t _ \<Rightarrow> t)"

text \<open>Every next hop on a channel satisfies \<open>P\<close>.\<close>

definition hops_ok :: "(u32 \<Rightarrow> next_hop \<Rightarrow> bool) \<Rightarrow> (u32 \<times> next_hop list) list \<Rightarrow> bool" where
  "hops_ok P nhs \<longleftrightarrow> (\<forall>ch hops h. map_of nhs ch = Some hops \<longrightarrow> h \<in> set hops \<longrightarrow> P ch h)"

text \<open>A hub with two TCP transports and a local one, all next hops of local channel 1, and
  a one-packet bundle arriving on channel 1 from the first TCP transport.\<close>

definition hub_setup :: "bc_event list" where
  "hub_setup =
     [RequestEv AddTcp, RequestEv AddLocal, RequestEv AddTcp,
      RequestEv (AddNextHopToChannels \<lparr>ti_type = Tcp, ti_key = 0\<rparr> [(1, 5)]),
      RequestEv (AddNextHopToChannels \<lparr>ti_type = Local, ti_key = 0\<rparr> [(1, 0)]),
      RequestEv (AddNextHopToChannels \<lparr>ti_type = Tcp, ti_key = 1\<rparr> [(1, 7)])]"

definition hub_state :: broadcaster where
  "hub_state = fst (bc_run (\<lambda>_. False) hub_setup broadcaster_new)"

definition hub_packet :: in_packet where
  "hub_packet =
     \<lparr>ip_transport = \<lparr>ti_type = Tcp, ti_key = 0\<rparr>, ip_channel_id = 1,
      ip_packet = encode_packet (\<lparr>tp_payload_length = 1, tp_infra_id = 0, tp_plane_id = 7, tp_topic = 3,
                                  tp_source = \<lparr>endpoint = 42\<rparr>\<rparr>, [9])\<rparr>"

section \<open>Lemmas\<close>

lemma slot_contains_remove:
  "slot_contains k (bc_slots ty (remove_transport_slot t st)) \<Longrightarrow> slot_contains k (bc_slots ty st)"
  by (cases ty; cases "ti_type t") (auto simp: remove_transport_slot_def slot_remove_def slot_contains_def)

lemma broadcast_targets:
  "ob \<in> set (snd (broadcast closed ip hops st)) \<Longrightarrow>
     out_target ob \<noteq> ip_transport ip \<and> \<not> closed (out_target ob) \<and>
     slot_contains (ti_key (out_target ob)) (bc_slots (ti_type (out_target ob)) st) \<and>
     (\<exists>h\<in>set hops. nh_transport h = out_target ob \<and>
        (\<forall>b. ob = OutBundle (out_target ob) b \<longrightarrow> b = bundle_frame (nh_remote_channel_id h) (ip_packet ip)))"
proof (induction hops arbitrary: st)
  case Nil then show ?case by simp
next
  case (Cons h hs)
  show ?case
    using Cons.prems Cons.IH [of st] Cons.IH [of "remove_transport_slot (nh_transport h) st"]
      slot_contains_remove [of _ _ "nh_transport h" st]
    by (auto simp: Let_def out_target_def split: if_splits prod.splits) 
qed

lemma hops_okD: "hops_ok P nhs \<Longrightarrow> map_of nhs ch = Some hops \<Longrightarrow> h \<in> set hops \<Longrightarrow> P ch h"
  by (auto simp: hops_ok_def)

lemma hops_ok_mono: "hops_ok P nhs \<Longrightarrow> (\<And>ch h. P ch h \<Longrightarrow> Q ch h) \<Longrightarrow> hops_ok Q nhs"
  by (auto simp: hops_ok_def)

lemma hops_ok_push:
  assumes ok: "hops_ok P nhs" and p: "P l \<lparr>nh_remote_channel_id = r, nh_transport = t\<rparr>"
  shows "hops_ok P (push_next_hop t nhs (l, r))"
  unfolding hops_ok_def
proof (intro allI impI)
  fix ch hops h
  assume m: "map_of (push_next_hop t nhs (l, r)) ch = Some hops" and h: "h \<in> set hops"
  show "P ch h"
  proof (cases "ch = l")
    case True
    with m have "hops = (case map_of nhs l of None \<Rightarrow> [] | Some hs \<Rightarrow> hs) @ [\<lparr>nh_remote_channel_id = r, nh_transport = t\<rparr>]"
      by (simp add: push_next_hop_def update_conv')
    with h p ok True show ?thesis by (auto split: option.splits dest: hops_okD)
  next
    case False with m ok h show ?thesis by (simp add: push_next_hop_def update_conv' hops_okD)
  qed
qed

lemma hops_ok_fold_push:
  "hops_ok P nhs \<Longrightarrow> (\<And>l r. (l, r) \<in> set chs \<Longrightarrow> P l \<lparr>nh_remote_channel_id = r, nh_transport = t\<rparr>) \<Longrightarrow>
     hops_ok P (foldl (push_next_hop t) nhs chs)"
proof (induction chs arbitrary: nhs)
  case (Cons c chs)
  then show ?case by (cases c) (simp add: hops_ok_push)
qed simp

lemma hops_ok_retain:
  "hops_ok P nhs \<Longrightarrow>
     hops_ok (\<lambda>ch h. P ch h \<and> (ch \<in> set cs \<longrightarrow> nh_transport h \<noteq> t)) (foldl (retain_channel t) nhs cs)"
proof (induction cs arbitrary: nhs P)
  case Nil then show ?case by (simp add: hops_ok_def)
next
  case (Cons c cs)
  have "hops_ok (\<lambda>ch h. P ch h \<and> (ch = c \<longrightarrow> nh_transport h \<noteq> t)) (retain_channel t nhs c)"
    using Cons.prems by (auto simp: hops_ok_def retain_channel_def update_conv' split: option.splits if_splits)
  from Cons.IH [OF this] show ?case by (auto elim!: hops_ok_mono)
qed

lemma distinct_fold_push: "distinct (map fst nhs) \<Longrightarrow> distinct (map fst (foldl (push_next_hop t) nhs chs))"
  by (induction chs arbitrary: nhs) (auto simp: push_next_hop_def distinct_update split: prod.splits)

lemma distinct_fold_retain: "distinct (map fst nhs) \<Longrightarrow> distinct (map fst (foldl (retain_channel t) nhs cs))"
  by (induction cs arbitrary: nhs) (auto simp: retain_channel_def distinct_update split: option.splits)

lemma bc_inv_alt:
  "bc_inv st \<longleftrightarrow> distinct (map fst (bc_next_hops st)) \<and> distinct (map fst (bc_transport_local_channel_ids st)) \<and>
     hops_ok (recorded (bc_transport_local_channel_ids st)) (bc_next_hops st)"
  unfolding bc_inv_def hops_ok_def
  apply (auto simp: list_all_iff dest: map_of_SomeD)
  apply (drule (1) bspec)
  apply (auto simp: list_all_iff)
  done

lemma bc_set_slots_tables [simp]:
  "bc_next_hops (bc_set_slots ty s st) = bc_next_hops st"
  "bc_transport_local_channel_ids (bc_set_slots ty s st) = bc_transport_local_channel_ids st"
  by (cases ty; simp)+

lemma bc_set_slots_get [simp]: "bc_slots ty (bc_set_slots ty s st) = s"
  by (cases ty; simp)

lemma remove_transport_slot_tables [simp]:
  "bc_next_hops (remove_transport_slot t st) = bc_next_hops st"
  "bc_transport_local_channel_ids (remove_transport_slot t st) = bc_transport_local_channel_ids st"
  by (simp_all add: remove_transport_slot_def)

lemma broadcast_tables:
  "bc_next_hops (fst (broadcast closed ip hops st)) = bc_next_hops st \<and>
   bc_transport_local_channel_ids (fst (broadcast closed ip hops st)) = bc_transport_local_channel_ids st"
  by (induction hops arbitrary: st) (simp_all add: Let_def prod.case_eq_if)

lemma bc_inv_tables:
  "bc_next_hops st' = bc_next_hops st \<Longrightarrow>
   bc_transport_local_channel_ids st' = bc_transport_local_channel_ids st \<Longrightarrow> bc_inv st \<Longrightarrow> bc_inv st'"
  by (simp add: bc_inv_def)

lemma bc_inv_new: "bc_inv broadcaster_new"
  by (simp add: bc_inv_def broadcaster_new_def)

lemma bc_inv_add_transport: "bc_inv st \<Longrightarrow> bc_inv (snd (add_transport ty st))"
  by (rule bc_inv_tables) (simp_all add: add_transport_def split: prod.splits)

lemma bc_inv_handle_in_packet: "bc_inv st \<Longrightarrow> bc_inv (fst (handle_in_packet closed ip st))"
  by (rule bc_inv_tables) (simp_all add: handle_in_packet_def broadcast_tables split: option.splits)

lemma recorded_delete_other:
  "nh_transport h \<noteq> t \<Longrightarrow> recorded (AList.delete t tlc) ch h = recorded tlc ch h"
  by (simp add: recorded_def delete_conv')

lemma bc_inv_remove_transport:
  assumes inv: "bc_inv st"
  shows "bc_inv (remove_transport t st)"
proof (cases "map_of (bc_transport_local_channel_ids st) t")
  case None
  then show ?thesis using inv
    by (auto simp: remove_transport_def Let_def intro: bc_inv_tables)
next
  case (Some cs)
  let ?tlc = "bc_transport_local_channel_ids st"
  have ok: "hops_ok (recorded ?tlc) (bc_next_hops st)" and d: "distinct (map fst (bc_next_hops st))"
    "distinct (map fst ?tlc)" using inv by (simp_all add: bc_inv_alt)
  have "hops_ok (\<lambda>ch h. recorded ?tlc ch h \<and> (ch \<in> set cs \<longrightarrow> nh_transport h \<noteq> t))
          (foldl (retain_channel t) (bc_next_hops st) cs)"
    by (rule hops_ok_retain [OF ok])
  then have "hops_ok (recorded (AList.delete t ?tlc)) (foldl (retain_channel t) (bc_next_hops st) cs)"
    by (rule hops_ok_mono) (use Some in \<open>auto simp: recorded_def delete_conv' split: option.splits if_splits\<close>)
  with d Some show ?thesis
    by (simp add: bc_inv_alt remove_transport_def distinct_fold_retain distinct_delete)
qed

lemma bc_inv_add_next_hop:
  assumes inv: "bc_inv st"
  shows "bc_inv (add_next_hop_to_channels t chs st)"
proof -
  let ?tlc = "bc_transport_local_channel_ids st"
  let ?old = "case map_of ?tlc t of None \<Rightarrow> [] | Some cs \<Rightarrow> cs"
  let ?tlc' = "AList.update t (?old @ map fst chs) ?tlc"
  have ok: "hops_ok (recorded ?tlc) (bc_next_hops st)" and d: "distinct (map fst (bc_next_hops st))"
    "distinct (map fst ?tlc)" using inv by (simp_all add: bc_inv_alt)
  have "hops_ok (recorded ?tlc') (bc_next_hops st)"
    by (rule hops_ok_mono [OF ok]) (auto simp: recorded_def update_conv' split: option.splits if_splits)
  then have "hops_ok (recorded ?tlc') (foldl (push_next_hop t) (bc_next_hops st) chs)"
    by (rule hops_ok_fold_push) (force simp: recorded_def update_conv')
  with d show ?thesis
    by (simp add: bc_inv_alt add_next_hop_to_channels_def Let_def distinct_fold_push distinct_update)
qed

lemma bc_inv_step: "bc_inv st \<Longrightarrow> bc_inv (fst (bc_step closed ev st))"
proof (cases ev)
  case (InPacketEv ip)
  assume "bc_inv st" then show ?thesis
    using bc_inv_handle_in_packet [of st closed ip] InPacketEv by (simp add: prod.case_eq_if)
next
  case (RequestEv r)
  assume inv: "bc_inv st"
  then show ?thesis using RequestEv
    by (cases r) (simp_all add: bc_inv_add_transport bc_inv_remove_transport bc_inv_add_next_hop prod.case_eq_if)
qed

lemma bc_reach_inv: "bc_reach st \<Longrightarrow> bc_inv st"
  by (induction rule: bc_reach.induct) (simp_all add: bc_inv_new bc_inv_step)


lemma bc_run_reach: "bc_reach st \<Longrightarrow> bc_reach (fst (bc_run closed evs st))"
proof (induction evs arbitrary: st)
  case (Cons ev evs)
  have "bc_reach (fst (bc_step closed ev st))" by (rule bc_reach_step [OF Cons.prems])
  from Cons.IH [OF this] show ?case by (simp add: prod.case_eq_if)
qed simp

section \<open>Properties\<close>

text \<open>
  Claim C19. The broadcaster never sends a bundle back to the transport it came from, never
  to a transport whose sink is closed, and only to transports live in their slot map.
\<close>
theorem broadcast_no_echo:
  "ob \<in> set (snd (handle_in_packet closed ip st)) \<Longrightarrow>
     out_target ob \<noteq> ip_transport ip \<and> \<not> closed (out_target ob) \<and>
     slot_contains (ti_key (out_target ob)) (bc_slots (ti_type (out_target ob)) st)"
  using broadcast_targets [of ob closed ip _ st]
  by (auto simp: handle_in_packet_def split: option.splits)

theorem broadcast_no_echo_witness:
  "OutBundle \<lparr>ti_type = Tcp, ti_key = 1\<rparr> (bundle_frame 7 (ip_packet hub_packet))
     \<in> set (snd (handle_in_packet (\<lambda>_. False) hub_packet hub_state)) \<and>
   \<lparr>ti_type = Tcp, ti_key = 1\<rparr> \<noteq> ip_transport hub_packet"
proof -
  have "OutBundle \<lparr>ti_type = Tcp, ti_key = 1\<rparr> (bundle_frame 7 (ip_packet hub_packet))
     \<in> set (snd (handle_in_packet (\<lambda>_. False) hub_packet hub_state))" by code_simp
  with broadcast_no_echo show ?thesis by (fastforce simp: out_target_def)
qed

text \<open>
  Claim C18. On every reachable broadcaster, once a transport is removed no channel keeps a
  next hop to it: every next hop is recorded under its transport's local channels, which
  remove_transport walks.
\<close>
theorem remove_transport_clears:
  "bc_reach st \<Longrightarrow> map_of (bc_next_hops (remove_transport t st)) ch = Some hops \<Longrightarrow> h \<in> set hops \<Longrightarrow>
     nh_transport h \<noteq> t"
proof -
  assume r: "bc_reach st" and m: "map_of (bc_next_hops (remove_transport t st)) ch = Some hops"
    and h: "h \<in> set hops"
  from bc_reach_inv [OF r] have ok: "hops_ok (recorded (bc_transport_local_channel_ids st)) (bc_next_hops st)"
    by (simp add: bc_inv_alt)
  show ?thesis
  proof (cases "map_of (bc_transport_local_channel_ids st) t")
    case None
    with ok m h show ?thesis
      by (auto simp: remove_transport_def recorded_def dest: hops_okD split: option.splits)
  next
    case (Some cs)
    with m have "map_of (foldl (retain_channel t) (bc_next_hops st) cs) ch = Some hops"
      by (simp add: remove_transport_def)
    with hops_ok_retain [OF ok, of cs t] h Some show ?thesis
      by (auto simp: recorded_def dest: hops_okD)
  qed
qed

theorem remove_transport_clears_witness:
  "bc_reach hub_state \<and>
   map_of (bc_next_hops (remove_transport \<lparr>ti_type = Local, ti_key = 0\<rparr> hub_state)) 1 =
     Some [\<lparr>nh_remote_channel_id = 5, nh_transport = \<lparr>ti_type = Tcp, ti_key = 0\<rparr>\<rparr>,
           \<lparr>nh_remote_channel_id = 7, nh_transport = \<lparr>ti_type = Tcp, ti_key = 1\<rparr>\<rparr>] \<and>
   \<lparr>ti_type = Tcp, ti_key = 0\<rparr> \<noteq> \<lparr>ti_type = Local, ti_key = 0\<rparr>"
proof -
  have r: "bc_reach hub_state" unfolding hub_state_def by (rule bc_run_reach [OF bc_reach_new])
  have m: "map_of (bc_next_hops (remove_transport \<lparr>ti_type = Local, ti_key = 0\<rparr> hub_state)) 1 =
     Some [\<lparr>nh_remote_channel_id = 5, nh_transport = \<lparr>ti_type = Tcp, ti_key = 0\<rparr>\<rparr>,
           \<lparr>nh_remote_channel_id = 7, nh_transport = \<lparr>ti_type = Tcp, ti_key = 1\<rparr>\<rparr>]" by code_simp
  from remove_transport_clears [OF r m, of "\<lparr>nh_remote_channel_id = 5, nh_transport = \<lparr>ti_type = Tcp, ti_key = 0\<rparr>\<rparr>"]
  show ?thesis using r m by simp
qed

text \<open>
  Claim C20. A bundle the broadcaster writes to a TCP or WebSocket transport decodes, with the
  transport layer's PacketBundle codec, to a header carrying the remote channel id of a
  next hop of the incoming channel for that transport and the payload length modulo 2^16,
  followed by exactly the incoming bundle.
\<close>
theorem bundle_frames_decode:
  "OutBundle t b \<in> set (snd (handle_in_packet closed ip st)) \<Longrightarrow>
     \<exists>hops h. map_of (bc_next_hops st) (ip_channel_id ip) = Some hops \<and> h \<in> set hops \<and> nh_transport h = t \<and>
       decode_packet_bundle b =
         Some (\<lparr>pb_channel_id = nh_remote_channel_id h, pb_length = of_nat (length (ip_packet ip))\<rparr>, ip_packet ip)"
  using broadcast_targets [of "OutBundle t b" closed ip _ st]
  by (fastforce simp: handle_in_packet_def out_target_def bundle_frame_def split: option.splits)

theorem bundle_frames_decode_witness:
  "OutBundle \<lparr>ti_type = Tcp, ti_key = 1\<rparr> (bundle_frame 7 (ip_packet hub_packet))
     \<in> set (snd (handle_in_packet (\<lambda>_. False) hub_packet hub_state)) \<and>
   (\<exists>hops h. map_of (bc_next_hops hub_state) 1 = Some hops \<and> h \<in> set hops \<and>
      nh_transport h = \<lparr>ti_type = Tcp, ti_key = 1\<rparr> \<and>
      decode_packet_bundle (bundle_frame 7 (ip_packet hub_packet)) =
        Some (\<lparr>pb_channel_id = nh_remote_channel_id h, pb_length = 21\<rparr>, ip_packet hub_packet))"
proof -
  have o: "OutBundle \<lparr>ti_type = Tcp, ti_key = 1\<rparr> (bundle_frame 7 (ip_packet hub_packet))
     \<in> set (snd (handle_in_packet (\<lambda>_. False) hub_packet hub_state))" by code_simp
  have l: "of_nat (length (ip_packet hub_packet)) = (21 :: u16)"
    by (simp add: hub_packet_def encode_packet_def wire_simps transmit_packet_base_len_def)
  from bundle_frames_decode [OF o] o l show ?thesis by (simp add: hub_packet_def)
qed

end
