(* ===== verification/Streams.thy ===== *)
theory Streams
  imports Wire Proto
begin

text \<open>
  The stream roles of \<open>std-modrpc\<close> (\<open>role_impls/stream_sender.rs\<close>,
  \<open>stream_receiver.rs\<close>, \<open>multi_stream_sender.rs\<close>, \<open>multi_stream_receiver.rs\<close>).
  A sender numbers its items from 0; a receiver buffers out-of-order items in a
  \<open>BinaryHeap\<close> ordered by sequence number and hands them on in order.

  \<open>BinaryHeap<Reverse<_>>\<close> is a list sorted by sequence number, smallest first:
  \<open>peek\<close> is the head, \<open>pop\<close> the tail, \<open>push\<close> \<open>insort_key\<close> (it refines the
  priority-queue contract: a multiset of keys whose minimum is \<open>peek\<close>).  A
  \<open>localq\<close> channel is a list with its capacity; \<open>try_send\<close> on a full channel fails.
  The \<open>Rc<StreamState>\<close> shared between the broker and a \<open>ReceiveMultiStream\<close> is an
  entry of an explicit store, so that removing the stream from the broker leaves the
  receiver's state alive.  A slice \<open>packet[BASE_LEN..]\<close> of a packet shorter than the
  header panics (\<open>Inl SliceOutOfRange\<close>); an \<open>await\<close> that cannot complete without
  further input is \<open>None\<close>.
\<close>

datatype stream_panic = SliceOutOfRange

section \<open>Senders\<close>

text \<open>\<open>StreamSender\<close> and \<open>SendMultiStream\<close>: every item takes the next sequence
  number, whether or not the event queue accepts it.\<close>

record stream_sender =
  ss_sender_next_seq :: u64

definition stream_sender_new :: stream_sender where
  "stream_sender_new = \<lparr>ss_sender_next_seq = 0\<rparr>"

definition stream_sender_send :: "'t \<Rightarrow> stream_sender \<Rightarrow> 't stream_item_gen \<times> stream_sender" where
  "stream_sender_send payload s =
     (let seq = ss_sender_next_seq s
      in (\<lparr>sig_seq = seq, sig_payload = payload\<rparr>, s\<lparr>ss_sender_next_seq := seq + 1\<rparr>))"

record send_multi_stream =
  sms_stream_id :: multi_stream_id
  sms_next_seq :: u64

definition sender_new_stream :: "multi_stream_id \<Rightarrow> send_multi_stream" where
  "sender_new_stream sid = \<lparr>sms_stream_id = sid, sms_next_seq = 0\<rparr>"

definition sms_emit ::
    "'t option \<Rightarrow> send_multi_stream \<Rightarrow> 't option multi_stream_item_gen \<times> send_multi_stream" where
  "sms_emit payload s =
     (let seq = sms_next_seq s
      in (\<lparr>msig_stream_id = sms_stream_id s, msig_seq = seq, msig_payload = payload\<rparr>,
          s\<lparr>sms_next_seq := seq + 1\<rparr>))"

definition sms_send :: "'t \<Rightarrow> send_multi_stream \<Rightarrow> 't option multi_stream_item_gen \<times> send_multi_stream" where
  "sms_send x = sms_emit (Some x)"

definition sms_end :: "send_multi_stream \<Rightarrow> 't option multi_stream_item_gen \<times> send_multi_stream" where
  "sms_end = sms_emit None"

text \<open>\<open>try_send\<close>: \<open>accepted\<close> is what \<open>EventTx::try_send\<close> returns; the item is
  handed on only when it is \<open>True\<close>, the sequence number is taken either way.\<close>

definition sms_try_send ::
    "bool \<Rightarrow> 't \<Rightarrow> send_multi_stream \<Rightarrow> bool \<times> 't option multi_stream_item_gen list \<times> send_multi_stream" where
  "sms_try_send accepted x s =
     (let (item, s') = sms_emit (Some x) s in (accepted, if accepted then [item] else [], s'))"

text \<open>Sending a list of items and then ending the stream.\<close>

fun sms_send_all :: "'t list \<Rightarrow> send_multi_stream \<Rightarrow> 't option multi_stream_item_gen list \<times> send_multi_stream" where
  "sms_send_all [] s = (let (it, s') = sms_end s in ([it], s'))"
| "sms_send_all (x # xs) s =
     (let (it, s') = sms_send x s; (its, s'') = sms_send_all xs s' in (it # its, s''))"

section \<open>The multi-stream receiver's stream state\<close>

record 'p ordered_item =
  oi_seq :: u64
  oi_shutdown :: bool
  oi_packet :: 'p

definition heap_push :: "'p ordered_item \<Rightarrow> 'p ordered_item list \<Rightarrow> 'p ordered_item list" where
  "heap_push it h = insort_key oi_seq it h"

definition ms_queue_cap :: nat where
  "ms_queue_cap = 1"

record 'p stream_state =
  ss_heap :: "'p ordered_item list"
  ss_first_seq :: u64
  ss_last_seq :: "u64 option"
  ss_received_count :: u64
  ss_next_seq :: "u64 option"
  ss_queue :: "'p list"

definition stream_state_new :: "u64 option \<Rightarrow> 'p stream_state" where
  "stream_state_new n =
     \<lparr>ss_heap = [], ss_first_seq = 0, ss_last_seq = None, ss_received_count = 0,
      ss_next_seq = n, ss_queue = []\<rparr>"

text \<open>The \<open>unwrap_or_else\<close> both methods begin with: the known next sequence number,
  or the given one, which then also becomes \<open>first_seq\<close>.\<close>

definition start_seq :: "u64 \<Rightarrow> 'p stream_state \<Rightarrow> u64 \<times> 'p stream_state" where
  "start_seq seq s =
     (case ss_next_seq s of Some n \<Rightarrow> (n, s) | None \<Rightarrow> (seq, s\<lparr>ss_first_seq := seq\<rparr>))"

definition try_pop :: "'p stream_state \<Rightarrow> 'p option \<times> 'p stream_state" where
  "try_pop s =
     (case ss_heap s of
        [] \<Rightarrow> (None, s)
      | it # rest \<Rightarrow>
          (let (nxt, s1) = start_seq (oi_seq it) s
           in if oi_seq it \<noteq> nxt then (None, s1)
              else (Some (oi_packet it), s1\<lparr>ss_heap := rest, ss_next_seq := Some (nxt + 1)\<rparr>)))"

text \<open>The \<open>while let\<close> loop of \<open>handle_item\<close>.  Its \<open>next_seq\<close> is the local
  copy read before the loop and never advanced inside it.\<close>

fun drain_loop ::
    "u64 \<Rightarrow> 'p ordered_item list \<Rightarrow> 'p list \<Rightarrow> u64 option \<Rightarrow> 'p ordered_item list \<times> 'p list \<times> u64 option" where
  "drain_loop nxt [] q ns = ([], q, ns)"
| "drain_loop nxt (it # rest) q ns =
     (if oi_seq it \<noteq> nxt then (it # rest, q, ns)
      else if ms_queue_cap \<le> length q then (heap_push it rest, q, ns)
      else drain_loop nxt rest (q @ [oi_packet it]) (Some (nxt + 1)))"

definition handle_item :: "u64 \<Rightarrow> bool \<Rightarrow> 'p \<Rightarrow> 'p stream_state \<Rightarrow> bool \<times> 'p stream_state" where
  "handle_item seq shutdown packet s =
     (let (nxt, s1) = start_seq seq s
      in if seq < nxt then (False, s1)
         else
           (let s2 = s1\<lparr>ss_heap := heap_push \<lparr>oi_seq = seq, oi_shutdown = shutdown, oi_packet = packet\<rparr> (ss_heap s1),
                        ss_received_count := ss_received_count s1 + 1,
                        ss_last_seq := (if shutdown then Some seq else ss_last_seq s1)\<rparr>;
                (h, q, ns) = drain_loop nxt (ss_heap s2) (ss_queue s2) (ss_next_seq s2);
                s3 = s2\<lparr>ss_heap := h, ss_queue := q, ss_next_seq := ns\<rparr>
            in ((case ss_last_seq s3 of
                   Some l \<Rightarrow> l - ss_first_seq s3 + 1 = ss_received_count s3
                 | None \<Rightarrow> False), s3)))"

text \<open>\<open>ReceiveMultiStream::try_next_packet\<close> (and \<open>next_packet\<close>, which awaits the
  channel when this gives \<open>None\<close>): the channel first, then the heap.\<close>

definition ss_try_next_packet :: "'p stream_state \<Rightarrow> 'p option \<times> 'p stream_state" where
  "ss_try_next_packet s =
     (case ss_queue s of p # q \<Rightarrow> (Some p, s\<lparr>ss_queue := q\<rparr>) | [] \<Rightarrow> try_pop s)"

section \<open>The broker and the receiving handle\<close>

text \<open>\<open>BrokerState::streams\<close> maps a stream id to an \<open>Rc<StreamState>\<close>; the store
  holds the shared states by reference.\<close>

record 'p ms_broker =
  mb_streams :: "(u32 \<times> nat) list"
  mb_store :: "(nat \<times> 'p stream_state) list"
  mb_next_ref :: nat

definition ms_broker_new :: "'p ms_broker" where
  "ms_broker_new = \<lparr>mb_streams = [], mb_store = [], mb_next_ref = 0\<rparr>"

record receive_multi_stream =
  rms_stream_id :: multi_stream_id
  rms_state :: nat

definition new_stream ::
    "multi_stream_id \<Rightarrow> u64 option \<Rightarrow> 'p ms_broker \<Rightarrow> receive_multi_stream \<times> 'p ms_broker" where
  "new_stream sid ns b =
     (let r = mb_next_ref b
      in (\<lparr>rms_stream_id = sid, rms_state = r\<rparr>,
          b\<lparr>mb_streams := AList.update (msid_id sid) r (mb_streams b),
            mb_store := AList.update r (stream_state_new ns) (mb_store b),
            mb_next_ref := Suc r\<rparr>))"

text \<open>The inline handler \<open>build\<close> subscribes for the \<open>item\<close> event.  \<open>tb\<close> is the
  base length of the payload type and \<open>decP\<close> decodes the lazy \<open>Option<T>\<close> payload;
  a field that does not decode drops the packet, as does an unknown stream id.\<close>

definition ms_item_handler ::
    "nat \<Rightarrow> (bytes \<Rightarrow> ('l option \<times> bytes) option) \<Rightarrow> bytes \<Rightarrow> bytes ms_broker \<Rightarrow> stream_panic + bytes ms_broker" where
  "ms_item_handler tb decP packet b =
     (if length packet < transmit_packet_base_len then Inl SliceOutOfRange
      else
        (case decode_multi_stream_item_lazy tb (drop transmit_packet_base_len packet) of
           None \<Rightarrow> Inr b
         | Some (item, _) \<Rightarrow>
             (case (multi_stream_item_lazy_seq item,
                    Option.bind (multi_stream_item_lazy_stream_id item) multi_stream_id_lazy_id,
                    multi_stream_item_lazy_payload decP item) of
                (Some seq, Some sid, Some payload) \<Rightarrow>
                  (case map_of (mb_streams b) sid of
                     None \<Rightarrow> Inr b
                   | Some r \<Rightarrow>
                       (case map_of (mb_store b) r of
                          None \<Rightarrow> Inr b
                        | Some st \<Rightarrow>
                            (let (done, st') = handle_item seq (Option.is_none payload) packet st;
                                 b' = b\<lparr>mb_store := AList.update r st' (mb_store b)\<rparr>
                             in Inr (if done then b'\<lparr>mb_streams := AList.delete sid (mb_streams b')\<rparr>
                                     else b'))))
              | _ \<Rightarrow> Inr b)))"

text \<open>The receiving side works on its own state through the shared reference.\<close>

definition rx_try_next_packet ::
    "receive_multi_stream \<Rightarrow> 'p ms_broker \<Rightarrow> 'p option \<times> 'p ms_broker" where
  "rx_try_next_packet rx b =
     (case map_of (mb_store b) (rms_state rx) of
        None \<Rightarrow> (None, b)
      | Some st \<Rightarrow>
          (let (x, st') = ss_try_next_packet st
           in (x, b\<lparr>mb_store := AList.update (rms_state rx) st' (mb_store b)\<rparr>)))"

datatype rx_next_error = RxShutdown | RxDecodeItem

text \<open>\<open>ReceiveMultiStream::next\<close>: \<open>decP\<close> is the payload decoder followed by
  \<open>lazy_to_owned\<close> (either failing is \<open>DecodeItem\<close>).\<close>

definition ms_decode_item ::
    "nat \<Rightarrow> (bytes \<Rightarrow> ('t option \<times> bytes) option) \<Rightarrow> bytes \<Rightarrow> stream_panic + rx_next_error + 't option" where
  "ms_decode_item tb decP packet =
     (if length packet < transmit_packet_base_len then Inl SliceOutOfRange
      else (case decode_multi_stream_item_lazy tb (drop transmit_packet_base_len packet) of
              None \<Rightarrow> Inr (Inl RxDecodeItem)
            | Some (item, _) \<Rightarrow>
                (case multi_stream_item_lazy_payload decP item of
                   None \<Rightarrow> Inr (Inl RxDecodeItem)
                 | Some x \<Rightarrow> Inr (Inr x))))"

definition ms_next ::
    "nat \<Rightarrow> (bytes \<Rightarrow> ('t option \<times> bytes) option) \<Rightarrow> bytes stream_state
     \<Rightarrow> ((stream_panic + rx_next_error + 't option) \<times> bytes stream_state) option" where
  "ms_next tb decP st =
     (case ss_try_next_packet st of
        (None, _) \<Rightarrow> None
      | (Some packet, st') \<Rightarrow> Some (ms_decode_item tb decP packet, st'))"

partial_function (option) ms_collect ::
    "nat \<Rightarrow> (bytes \<Rightarrow> ('t option \<times> bytes) option) \<Rightarrow> 't list \<Rightarrow> bytes stream_state
     \<Rightarrow> ((stream_panic + rx_next_error + 't list) \<times> bytes stream_state) option" where
  "ms_collect tb decP acc st =
     (case ms_next tb decP st of
        None \<Rightarrow> None
      | Some (Inl p, st') \<Rightarrow> Some (Inl p, st')
      | Some (Inr (Inl e), st') \<Rightarrow> Some (Inr (Inl e), st')
      | Some (Inr (Inr None), st') \<Rightarrow> Some (Inr (Inr acc), st')
      | Some (Inr (Inr (Some x)), st') \<Rightarrow> ms_collect tb decP (acc @ [x]) st')"

declare ms_collect.simps [code]

datatype 'e try_collect_error = TcDecodeError | TcSenderError 'e | TcShutdown

definition try_collect_error_of :: "rx_next_error \<Rightarrow> 'e try_collect_error" where
  "try_collect_error_of e = (case e of RxDecodeItem \<Rightarrow> TcDecodeError | RxShutdown \<Rightarrow> TcShutdown)"

text \<open>\<open>try_collect\<close> on a stream of \<open>Result<O, E>\<close>, written \<open>'e + 'o\<close>.\<close>

partial_function (option) ms_try_collect ::
    "nat \<Rightarrow> (bytes \<Rightarrow> (('e + 'o) option \<times> bytes) option) \<Rightarrow> 'o list \<Rightarrow> bytes stream_state
     \<Rightarrow> ((stream_panic + 'e try_collect_error + 'o list) \<times> bytes stream_state) option" where
  "ms_try_collect tb decP acc st =
     (case ms_next tb decP st of
        None \<Rightarrow> None
      | Some (Inl p, st') \<Rightarrow> Some (Inl p, st')
      | Some (Inr (Inl e), st') \<Rightarrow> Some (Inr (Inl (try_collect_error_of e)), st')
      | Some (Inr (Inr None), st') \<Rightarrow> Some (Inr (Inr acc), st')
      | Some (Inr (Inr (Some (Inl e))), st') \<Rightarrow> Some (Inr (Inl (TcSenderError e)), st')
      | Some (Inr (Inr (Some (Inr x))), st') \<Rightarrow> ms_try_collect tb decP (acc @ [x]) st')"

declare ms_try_collect.simps [code]

text \<open>The callback readers: \<open>f\<close> receives what the Rust closure receives
  (\<open>DecodeResult\<close> is \<open>decode_error + _\<close>); \<open>with_next\<close> and \<open>with_next_sync\<close> await
  the next packet (\<open>None\<close> while there is none) and give the closure's result.\<close>

datatype decode_error = DecodeError

definition ms_with_try_next ::
    "nat \<Rightarrow> (bytes \<Rightarrow> ('l option \<times> bytes) option) \<Rightarrow> ((decode_error + 'l option) option \<Rightarrow> 'r)
     \<Rightarrow> bytes stream_state \<Rightarrow> (stream_panic + 'r) \<times> bytes stream_state" where
  "ms_with_try_next tb decLT f st =
     (case ss_try_next_packet st of
        (None, st') \<Rightarrow> (Inr (f None), st')
      | (Some packet, st') \<Rightarrow>
          ((case ms_decode_item tb decLT packet of
              Inl p \<Rightarrow> Inl p
            | Inr (Inl _) \<Rightarrow> Inr (f (Some (Inl DecodeError)))
            | Inr (Inr x) \<Rightarrow> Inr (f (Some (Inr x)))), st'))"

definition ms_with_next ::
    "nat \<Rightarrow> (bytes \<Rightarrow> ('l option \<times> bytes) option) \<Rightarrow> (decode_error + 'l option \<Rightarrow> 'r)
     \<Rightarrow> bytes stream_state \<Rightarrow> ((stream_panic + 'r option) \<times> bytes stream_state) option" where
  "ms_with_next tb decLT f st =
     (case ss_try_next_packet st of
        (None, _) \<Rightarrow> None
      | (Some packet, st') \<Rightarrow>
          Some ((case ms_decode_item tb decLT packet of
                   Inl p \<Rightarrow> Inl p
                 | Inr (Inl _) \<Rightarrow> Inr (Some (f (Inl DecodeError)))
                 | Inr (Inr x) \<Rightarrow> Inr (Some (f (Inr x)))), st'))"

definition ms_with_next_sync ::
    "nat \<Rightarrow> (bytes \<Rightarrow> ('l option \<times> bytes) option) \<Rightarrow> (decode_error + 'l \<Rightarrow> 'r)
     \<Rightarrow> bytes stream_state \<Rightarrow> ((stream_panic + 'r option) \<times> bytes stream_state) option" where
  "ms_with_next_sync tb decLT f st =
     (case ss_try_next_packet st of
        (None, _) \<Rightarrow> None
      | (Some packet, st') \<Rightarrow>
          Some ((case ms_decode_item tb decLT packet of
                   Inl p \<Rightarrow> Inl p
                 | Inr (Inl _) \<Rightarrow> Inr (Some (f (Inl DecodeError)))
                 | Inr (Inr None) \<Rightarrow> Inr None
                 | Inr (Inr (Some x)) \<Rightarrow> Inr (Some (f (Inr x)))), st'))"

section \<open>The single-stream receiver\<close>

text \<open>\<open>StreamReceiverBuilder::build\<close>: the inline handler pushes every item on the
  heap and forwards the run of items numbered from 0 into a channel of capacity 64
  (\<open>let _ = try_send\<close> drops an item the full channel refuses); a spawned task reads the
  channel, decodes the header and the item and calls the user's handler.  The handler
  reads the item from the start of the packet.\<close>

record 'p sr_item =
  sri_seq :: u64
  sri_packet :: 'p

record sr_state =
  srs_heap :: "bytes sr_item list"
  srs_queue :: "bytes list"

definition sr_state_new :: sr_state where
  "sr_state_new = \<lparr>srs_heap = [], srs_queue = []\<rparr>"

definition sr_queue_cap :: nat where
  "sr_queue_cap = 64"

fun sr_drain :: "u64 \<Rightarrow> bytes sr_item list \<Rightarrow> bytes list \<Rightarrow> bytes sr_item list \<times> bytes list" where
  "sr_drain nxt [] q = ([], q)"
| "sr_drain nxt (it # rest) q =
     (if sri_seq it \<noteq> nxt then (it # rest, q)
      else sr_drain (nxt + 1) rest (if length q < sr_queue_cap then q @ [sri_packet it] else q))"

definition sr_item_handler :: "nat \<Rightarrow> bytes \<Rightarrow> sr_state \<Rightarrow> sr_state" where
  "sr_item_handler tb packet s =
     (case decode_stream_item_lazy tb packet of
        None \<Rightarrow> s
      | Some (item, _) \<Rightarrow>
          (case stream_item_lazy_seq item of
             None \<Rightarrow> s
           | Some seq \<Rightarrow>
               (let (h, q) = sr_drain 0 (insort_key sri_seq \<lparr>sri_seq = seq, sri_packet = packet\<rparr> (srs_heap s))
                                     (srs_queue s)
                in \<lparr>srs_heap = h, srs_queue = q\<rparr>)))"

text \<open>One turn of the spawned task: \<open>None\<close> while the channel is empty, otherwise the
  call of the user's handler it makes (if the packet decodes) and the new state.\<close>

definition sr_task_step ::
    "nat \<Rightarrow> (bytes \<Rightarrow> ('l \<times> bytes) option) \<Rightarrow> sr_state \<Rightarrow> ((endpoint_addr \<times> 'l) option \<times> sr_state) option" where
  "sr_task_step tb decLT s =
     (case srs_queue s of
        [] \<Rightarrow> None
      | packet # q \<Rightarrow>
          (let s' = s\<lparr>srs_queue := q\<rparr>
           in Some (case decode_transmit_packet packet of
                      None \<Rightarrow> (None, s')
                    | Some (hdr, _) \<Rightarrow>
                        (case decode_stream_item_lazy tb (drop transmit_packet_base_len packet) of
                           None \<Rightarrow> (None, s')
                         | Some (item, _) \<Rightarrow>
                             (case stream_item_lazy_payload decLT item of
                                None \<Rightarrow> (None, s')
                              | Some payload \<Rightarrow> (Some (tp_source hdr, payload), s'))))))"

section \<open>Specification and scenarios\<close>

definition ms_item :: "nat \<Rightarrow> (nat \<Rightarrow> 'p) \<Rightarrow> nat \<Rightarrow> 'p ordered_item" where
  "ms_item n pk i = \<lparr>oi_seq = of_nat i, oi_shutdown = (i = n), oi_packet = pk i\<rparr>"

definition ms_inv :: "nat \<Rightarrow> nat \<Rightarrow> (nat \<Rightarrow> 'p) \<Rightarrow> nat set \<Rightarrow> 'p list \<Rightarrow> 'p stream_state \<Rightarrow> nat \<Rightarrow> bool" where
  "ms_inv k0 n pk A D s k \<longleftrightarrow>
     k0 \<le> k \<and> {k0..<k} \<subseteq> A \<and> A \<subseteq> {k0..n} \<and>
     ss_next_seq s = Some (of_nat k) \<and> D @ ss_queue s = map pk [k0..<k] \<and>
     length (ss_queue s) \<le> ms_queue_cap \<and>
     ss_heap s = map (ms_item n pk) (sorted_list_of_set (A - {..<k})) \<and>
     ss_first_seq s = 0 \<and> ss_received_count s = of_nat (card A) \<and>
     ss_last_seq s = (if n \<in> A then Some (of_nat n) else None)"

inductive ms_reach :: "nat \<Rightarrow> nat \<Rightarrow> (nat \<Rightarrow> 'p) \<Rightarrow> nat set \<Rightarrow> 'p list \<Rightarrow> 'p stream_state \<Rightarrow> bool"
  for k0 n pk where
  ms_reach_new: "ms_reach k0 n pk {} [] (stream_state_new (Some (of_nat k0)))"
| ms_reach_arrive: "\<lbrakk>ms_reach k0 n pk A D s; i \<notin> A; k0 \<le> i; i \<le> n;
    handle_item (of_nat i) (i = n) (pk i) s = (d, s')\<rbrakk> \<Longrightarrow> ms_reach k0 n pk (insert i A) D s'"
| ms_reach_take: "\<lbrakk>ms_reach k0 n pk A D s; ss_try_next_packet s = (x, s')\<rbrakk>
    \<Longrightarrow> ms_reach k0 n pk A (D @ (case x of None \<Rightarrow> [] | Some p \<Rightarrow> [p])) s'"

datatype 'p ss_event = Arrive u64 bool 'p | Take

fun ss_run :: "'p ss_event list \<Rightarrow> 'p stream_state \<Rightarrow> 'p list \<times> 'p stream_state" where
  "ss_run [] s = ([], s)"
| "ss_run (Arrive seq sh p # es) s = ss_run es (snd (handle_item seq sh p s))"
| "ss_run (Take # es) s =
     (let (x, s') = ss_try_next_packet s; (ds, s'') = ss_run es s'
      in ((case x of None \<Rightarrow> [] | Some p \<Rightarrow> [p]) @ ds, s''))"

definition ss_stuck :: "'p stream_state \<Rightarrow> bool" where
  "ss_stuck s \<longleftrightarrow> ss_queue s = [] \<and> sorted (map oi_seq (ss_heap s)) \<and>
     (case (ss_heap s, ss_next_seq s) of (it # _, Some n) \<Rightarrow> oi_seq it < n | _ \<Rightarrow> False)"

definition ms_demo_pk :: "nat \<Rightarrow> nat" where
  "ms_demo_pk i = i + 10"

definition dup_trace :: "nat ss_event list" where
  "dup_trace = [Arrive 1 False 11, Arrive 1 False 11, Arrive 0 False 10, Take, Take, Take]"

definition sr_inv :: "sr_state \<Rightarrow> bool" where
  "sr_inv s \<longleftrightarrow> srs_queue s = [] \<and> (\<forall>it\<in>set (srs_heap s). sri_seq it \<noteq> 0)"

definition demo_opt_dec :: "bytes \<Rightarrow> (u8 option \<times> bytes) option" where
  "demo_opt_dec bs =
     (case bs of [] \<Rightarrow> None
      | t # r \<Rightarrow> if t = 0 then Some (None, r)
                else (case r of [] \<Rightarrow> None | b # r' \<Rightarrow> Some (Some b, r')))"

definition demo_packet :: "u64 \<Rightarrow> bytes \<Rightarrow> bytes" where
  "demo_packet seq payload =
     replicate 20 0 @ encode_multi_stream_id \<lparr>msid_owner = 0, msid_id = 7\<rparr> @ encode_u64 seq @ payload"

definition demo_pk :: "nat \<Rightarrow> bytes" where
  "demo_pk i = (if i = 0 then demo_packet 0 [1, 42] else demo_packet 1 [0])"

definition ms_two_arrivals :: "(nat \<Rightarrow> 'p) \<Rightarrow> 'p stream_state" where
  "ms_two_arrivals pk = snd (handle_item (of_nat 0) (0 = (1::nat)) (pk 0)
                      (snd (handle_item (of_nat 1) (1 = (1::nat)) (pk 1)
                        (stream_state_new (Some (of_nat 0))))))"

definition sr_demo_header :: transmit_packet where
  "sr_demo_header = \<lparr>tp_payload_length = 9, tp_infra_id = 0, tp_plane_id = 1, tp_topic = 2,
                      tp_source = \<lparr>endpoint = 3\<rparr>\<rparr>"

definition sr_demo_packets :: "bytes list" where
  "sr_demo_packets = [encode_transmit_packet sr_demo_header @ encode_u64 0 @ [5]]"

section \<open>Lemmas\<close>

lemma insort_ms_item:
  assumes "n < 2 ^ 64" "i \<le> n" "\<forall>j\<in>set xs. j \<le> n"
  shows "heap_push (ms_item n pk i) (map (ms_item n pk) xs) = map (ms_item n pk) (insort i xs)"
  using assms(3)
proof (induction xs)
  case Nil
  then show ?case by (simp add: heap_push_def)
next
  case (Cons j xs)
  have "(of_nat i :: u64) \<le> of_nat j \<longleftrightarrow> i \<le> j"
    using Cons.prems assms(1,2) by (intro of_nat_u64_le) auto
  with Cons show ?case by (auto simp: heap_push_def ms_item_def)
qed

lemma drain_loop_items:
  assumes n: "n < 2 ^ 64 - 1" and fin: "finite B" and B: "B \<subseteq> {k..n}"
  shows "drain_loop (of_nat k) (map (ms_item n pk) (sorted_list_of_set B)) q (Some (of_nat k)) =
    (if k \<in> B \<and> length q < ms_queue_cap
     then (map (ms_item n pk) (sorted_list_of_set (B - {k})), q @ [pk k], Some (of_nat (Suc k)))
     else (map (ms_item n pk) (sorted_list_of_set B), q, Some (of_nat k)))"
proof (cases "B = {}")
  case True
  then show ?thesis by simp
next
  case False
  define m where "m = Min B"
  have mB: "m \<in> B" and mle: "\<forall>j\<in>B. m \<le> j"
    using False fin by (auto simp: m_def)
  have sl: "sorted_list_of_set B = m # sorted_list_of_set (B - {m})"
    using sorted_list_of_set_nonempty [OF fin False] by (simp add: m_def)
  have bnd: "\<forall>j\<in>B. j < 2 ^ 64"
    using B n by auto
  show ?thesis
  proof (cases "m = k")
    case False
    then have "(of_nat m :: u64) \<noteq> of_nat k"
      using mB bnd B n by (subst of_nat_u64_eq) auto
    moreover have "k \<notin> B"
      using mle mB B False by force
    ultimately show ?thesis
      by (simp add: sl ms_item_def)
  next
    case True
    have rest: "\<forall>j\<in>set (sorted_list_of_set (B - {k})). k < j"
      using B fin True mle by auto
    have push: "heap_push (ms_item n pk k) (map (ms_item n pk) (sorted_list_of_set (B - {k}))) =
        map (ms_item n pk) (sorted_list_of_set B)"
    proof -
      have "\<forall>j\<in>set (sorted_list_of_set (B - {k})). j \<le> n"
        using B fin by auto
      then have "heap_push (ms_item n pk k) (map (ms_item n pk) (sorted_list_of_set (B - {k}))) =
          map (ms_item n pk) (insort k (sorted_list_of_set (B - {k})))"
        using n mB True B by (intro insort_ms_item) auto
      also have "insort k (sorted_list_of_set (B - {k})) = sorted_list_of_set B"
        using rest sl True by (simp add: insort_is_Cons less_imp_le)
      finally show ?thesis .
    qed
    have stop: "drain_loop (of_nat k) (map (ms_item n pk) (sorted_list_of_set (B - {k}))) q' ns' =
        (map (ms_item n pk) (sorted_list_of_set (B - {k})), q', ns')" for q' ns'
    proof (cases "sorted_list_of_set (B - {k})")
      case Nil
      then show ?thesis by simp
    next
      case (Cons j js)
      have "j \<in> B - {k}"
        using Cons fin by (metis finite_Diff list.set_intros(1) set_sorted_list_of_set)
      then have "k < j" "j \<le> n"
        using rest B Cons by auto
      then have "(of_nat j :: u64) \<noteq> of_nat k"
        using n by (subst of_nat_u64_eq) auto
      with Cons show ?thesis by (simp add: ms_item_def)
    qed
    have inc: "(of_nat k :: u64) + 1 = of_nat (Suc k)" by simp
    show ?thesis
      using True push stop mB by (auto simp: sl ms_item_def inc simp del: of_nat_Suc)
  qed
qed

lemma try_pop_items:
  assumes n: "n < 2 ^ 64 - 1" and fin: "finite B" and B: "B \<subseteq> {k..n}"
    and h: "ss_heap s = map (ms_item n pk) (sorted_list_of_set B)"
    and ns: "ss_next_seq s = Some (of_nat k)"
  shows "try_pop s =
    (if k \<in> B
     then (Some (pk k), s\<lparr>ss_heap := map (ms_item n pk) (sorted_list_of_set (B - {k})),
                          ss_next_seq := Some (of_nat (Suc k))\<rparr>)
     else (None, s))"
proof (cases "B = {}")
  case True
  then show ?thesis using h by (simp add: try_pop_def)
next
  case False
  define m where "m = Min B"
  have mB: "m \<in> B" and mle: "\<forall>j\<in>B. m \<le> j"
    using False fin by (auto simp: m_def)
  have sl: "sorted_list_of_set B = m # sorted_list_of_set (B - {m})"
    using sorted_list_of_set_nonempty [OF fin False] by (simp add: m_def)
  have eq: "(of_nat m :: u64) = of_nat k \<longleftrightarrow> m = k"
    using mB B n by (intro of_nat_u64_eq) auto
  have "k \<in> B \<longleftrightarrow> m = k"
    using mle mB B by force
  then show ?thesis
    using h ns eq by (auto simp: try_pop_def start_seq_def sl ms_item_def)
qed

lemma ms_inv_new: "ms_inv k0 n pk {} [] (stream_state_new (Some (of_nat k0))) k0"
  by (simp add: ms_inv_def stream_state_new_def)

lemma ms_inv_bounds:
  assumes "ms_inv k0 n pk A D s k"
  shows "finite A" "A - {..<k} \<subseteq> {k..n}"
proof -
  have sub: "A \<subseteq> {k0..n}"
    using assms by (auto simp: ms_inv_def)
  show "finite A" using sub finite_subset by blast
  show "A - {..<k} \<subseteq> {k..n}" using sub by auto
qed

lemma ms_inv_take:
  assumes inv: "ms_inv k0 n pk A D s k" and n: "n < 2 ^ 64 - 1"
    and step: "ss_try_next_packet s = (x, s')"
  shows "\<exists>k'. ms_inv k0 n pk A (D @ (case x of None \<Rightarrow> [] | Some p \<Rightarrow> [p])) s' k'"
proof (cases "ss_queue s")
  case (Cons p q)
  then have "x = Some p" "s' = s\<lparr>ss_queue := q\<rparr>"
    using step by (auto simp: ss_try_next_packet_def)
  then have "ms_inv k0 n pk A (D @ [p]) s' k"
    using inv Cons by (simp add: ms_inv_def)
  then show ?thesis using \<open>x = Some p\<close> by auto
next
  case Nil
  note b = ms_inv_bounds [OF inv]
  have tp: "try_pop s = (x, s')"
    using step Nil by (simp add: ss_try_next_packet_def)
  show ?thesis
  proof (cases "k \<in> A")
    case True
    have "A - {..<k} - {k} = A - {..<Suc k}" by auto
    then have "x = Some (pk k) \<and> s' = s\<lparr>ss_heap := map (ms_item n pk) (sorted_list_of_set (A - {..<Suc k})),
                          ss_next_seq := Some (of_nat (Suc k))\<rparr>"
      using tp True try_pop_items [OF n _ b(2), of s pk] inv b(1)
      by (simp add: ms_inv_def)
    moreover have "{k0..<Suc k} \<subseteq> A" using True inv by (auto simp: ms_inv_def less_Suc_eq)
    ultimately have "ms_inv k0 n pk A (D @ [pk k]) s' (Suc k)"
      using inv Nil by (simp add: ms_inv_def)
    then show ?thesis using \<open>x = Some (pk k) \<and> _\<close> by auto
  next
    case False
    then have "x = None \<and> s' = s"
      using tp try_pop_items [OF n _ b(2), of s pk] inv b(1)
      by (simp add: ms_inv_def)
    then show ?thesis using inv by auto
  qed
qed

lemma card_all_arrived:
  assumes "A \<subseteq> {k0..n}" "n \<in> A"
  shows "card A = Suc n \<longleftrightarrow> k0 = 0 \<and> A = {0..n}"
proof
  assume c: "card A = Suc n"
  have "card A \<le> card {k0..n}"
    using assms(1) by (intro card_mono) auto
  then have k0: "k0 = 0"
    using c assms by auto
  then have "A = {0..n}"
    using assms(1) c by (intro card_subset_eq) auto
  with k0 show "k0 = 0 \<and> A = {0..n}" by simp
qed simp

lemma handle_item_eq:
  assumes ns: "ss_next_seq s = Some nxt" and ge: "\<not> seq < nxt"
    and dl: "drain_loop nxt (heap_push \<lparr>oi_seq = seq, oi_shutdown = sh, oi_packet = p\<rparr> (ss_heap s))
               (ss_queue s) (Some nxt) = (h, q, ns')"
    and step: "handle_item seq sh p s = (d, s')"
  shows "ss_heap s' = h \<and> ss_queue s' = q \<and> ss_next_seq s' = ns' \<and>
    ss_received_count s' = ss_received_count s + 1 \<and> ss_first_seq s' = ss_first_seq s \<and>
    ss_last_seq s' = (if sh then Some seq else ss_last_seq s) \<and>
    (d \<longleftrightarrow> (case ss_last_seq s' of
             Some l \<Rightarrow> l - ss_first_seq s + 1 = ss_received_count s + 1
           | None \<Rightarrow> False))"
proof -
  have "handle_item seq sh p s =
    ((case (if sh then Some seq else ss_last_seq s) of
        Some l \<Rightarrow> l - ss_first_seq s + 1 = ss_received_count s + 1
      | None \<Rightarrow> False),
     s\<lparr>ss_received_count := ss_received_count s + 1,
       ss_last_seq := (if sh then Some seq else ss_last_seq s),
       ss_heap := h, ss_queue := q, ss_next_seq := ns'\<rparr>)"
    using ns ge dl by (simp add: handle_item_def start_seq_def Let_def cong: option.case_cong)
  then show ?thesis using step by auto
qed

lemma ms_inv_arrive:
  assumes inv: "ms_inv k0 n pk A D s k" and n: "n < 2 ^ 64 - 1"
    and i: "i \<notin> A" "k0 \<le> i" "i \<le> n"
    and step: "handle_item (of_nat i) (i = n) (pk i) s = (d, s')"
  shows "(\<exists>k'. ms_inv k0 n pk (insert i A) D s' k') \<and> (d \<longleftrightarrow> k0 = 0 \<and> insert i A = {0..n})"
proof -
  note b = ms_inv_bounds [OF inv]
  have ki: "k \<le> i"
  proof (rule ccontr)
    assume "\<not> k \<le> i"
    then have "i \<in> {k0..<k}" using i by auto
    then show False using inv i by (auto simp: ms_inv_def)
  qed
  have nlt: "\<not> (of_nat i :: u64) < of_nat k"
    using ki i n by (subst of_nat_u64_less) auto
  define B' where "B' = insert i A - {..<k}"
  have B'eq: "B' = insert i (A - {..<k})" using ki by (auto simp: B'_def)
  have finB': "finite B'" and subB': "B' \<subseteq> {k..n}"
    using b ki i by (auto simp: B'_def)
  have push: "heap_push (ms_item n pk i) (ss_heap s) = map (ms_item n pk) (sorted_list_of_set B')"
  proof -
    have "\<forall>j\<in>set (sorted_list_of_set (A - {..<k})). j \<le> n"
      using b by auto
    then have "heap_push (ms_item n pk i) (ss_heap s) =
        map (ms_item n pk) (insort i (sorted_list_of_set (A - {..<k})))"
      using inv n i by (simp add: ms_inv_def insort_ms_item)
    then show ?thesis
      using b i by (simp add: B'eq sorted_list_of_set_insert)
  qed
  obtain h q ns' where dl: "drain_loop (of_nat k) (heap_push (ms_item n pk i) (ss_heap s))
      (ss_queue s) (Some (of_nat k)) = (h, q, ns')"
    by (cases "drain_loop (of_nat k) (heap_push (ms_item n pk i) (ss_heap s)) (ss_queue s) (Some (of_nat k))") auto
  have ns: "ss_next_seq s = Some (of_nat k)" using inv by (simp add: ms_inv_def)
  have hi: "ss_heap s' = h \<and> ss_queue s' = q \<and> ss_next_seq s' = ns' \<and>
    ss_received_count s' = ss_received_count s + 1 \<and> ss_first_seq s' = ss_first_seq s \<and>
    ss_last_seq s' = (if i = n then Some (of_nat i) else ss_last_seq s) \<and>
    (d \<longleftrightarrow> (case ss_last_seq s' of
             Some l \<Rightarrow> l - ss_first_seq s + 1 = ss_received_count s + 1
           | None \<Rightarrow> False))"
    using handle_item_eq [OF ns nlt _ step] dl by (simp add: ms_item_def)
  have dl': "(h, q, ns') =
    (if k \<in> B' \<and> length (ss_queue s) < ms_queue_cap
     then (map (ms_item n pk) (sorted_list_of_set (B' - {k})), ss_queue s @ [pk k], Some (of_nat (Suc k)))
     else (map (ms_item n pk) (sorted_list_of_set B'), ss_queue s, Some (of_nat k)))"
    using dl drain_loop_items [OF n finB' subB', of pk "ss_queue s"] push by simp
  have card: "card (insert i A) = Suc (card A)" using b i by simp
  have last: "(if i = n then Some (of_nat i) else ss_last_seq s) =
      (if n \<in> insert i A then Some (of_nat n :: u64) else None)"
    using inv by (auto simp: ms_inv_def)
  have inv': "\<exists>k'. ms_inv k0 n pk (insert i A) D s' k'"
  proof (cases "k \<in> B' \<and> length (ss_queue s) < ms_queue_cap")
    case True
    then have q0: "ss_queue s = []" by (simp add: ms_queue_cap_def)
    have "B' - {k} = insert i A - {..<Suc k}" by (auto simp: B'_def)
    moreover have "{k0..<Suc k} \<subseteq> insert i A"
      using True inv by (auto simp: ms_inv_def B'_def less_Suc_eq)
    ultimately have "ms_inv k0 n pk (insert i A) D s' (Suc k)"
      using inv True dl' hi step i q0 card last
      by (auto simp: ms_inv_def ms_queue_cap_def Let_def)
    then show ?thesis by blast
  next
    case False
    then have "ms_inv k0 n pk (insert i A) D s' k"
      using inv dl' hi step i card last
      by (auto simp: ms_inv_def B'_def Let_def)
    then show ?thesis by blast
  qed
  have "insert i A \<subseteq> {0..n}" using inv i by (auto simp: ms_inv_def)
  then have cardn: "card (insert i A) \<le> Suc n"
    using card_mono [of "{0..n}" "insert i A"] by simp
  have "d \<longleftrightarrow> n \<in> insert i A \<and> (of_nat n :: u64) + 1 = of_nat (card (insert i A))"
    using hi inv last card by (auto simp: ms_inv_def)
  also have "\<dots> \<longleftrightarrow> n \<in> insert i A \<and> card (insert i A) = Suc n"
  proof -
    have b1: "Suc n < 2 ^ 64" and b2: "card (insert i A) < 2 ^ 64"
      using n cardn by linarith+
    have "(of_nat n :: u64) + 1 = of_nat (Suc n)" by simp
    then show ?thesis
      using of_nat_u64_eq [OF b1 b2] by (simp del: of_nat_Suc) (simp only: eq_commute)
  qed
  also have "\<dots> \<longleftrightarrow> k0 = 0 \<and> insert i A = {0..n}"
    using card_all_arrived [of "insert i A" k0 n] inv i by (auto simp: ms_inv_def)
  finally show ?thesis using inv' by blast
qed

lemma ms_reach_inv:
  assumes "ms_reach k0 n pk A D s" "n < 2 ^ 64 - 1"
  shows "\<exists>k. ms_inv k0 n pk A D s k"
  using assms(1)
proof induction
  case ms_reach_new
  then show ?case using ms_inv_new by blast
next
  case (ms_reach_arrive A D s i d s')
  then show ?case using ms_inv_arrive [OF _ assms(2)] by blast
next
  case (ms_reach_take A D s x s')
  then show ?case using ms_inv_take [OF _ assms(2)] by blast
qed

lemma ms_inv_delivered:
  assumes "ms_inv k0 n pk A D s k"
  shows "\<exists>j. D = map pk [k0..<j] \<and> {k0..<j} \<subseteq> A"
proof -
  have e: "D @ ss_queue s = map pk [k0..<k]" and sub: "{k0..<k} \<subseteq> A" and k0: "k0 \<le> k"
    using assms by (auto simp: ms_inv_def)
  have "D = take (length D) (map pk [k0..<k])" using e by (metis append_eq_conv_conj)
  also have "\<dots> = map pk [k0..<k0 + length D]"
  proof -
    have "length D \<le> k - k0" using arg_cong [OF e, of length] by simp
    then show ?thesis using k0 by (simp add: take_map take_upt)
  qed
  moreover have "{k0..<k0 + length D} \<subseteq> A"
  proof (rule subset_trans [OF _ sub])
    show "{k0..<k0 + length D} \<subseteq> {k0..<k}"
      using arg_cong [OF e, of length] k0 by auto
  qed
  ultimately show ?thesis by (intro exI [of _ "k0 + length D"]) simp
qed

text \<open>
  Claim C21. Whatever order the items of a multi-stream arrive in and however the receiver's
  reads interleave with them, the receiver obtains exactly the packets of the items from the
  start sequence number on, in sequence order, with no gap, repetition or reordering, and only
  items that have arrived.
\<close>

theorem ms_delivers_in_order:
  assumes "ms_reach k0 n pk A D s" "n < 2 ^ 64 - 1"
  shows "\<exists>j. D = map pk [k0..<j] \<and> {k0..<j} \<subseteq> A"
  using ms_reach_inv [OF assms] ms_inv_delivered by blast

text \<open>
  Claim C23. handle_item reports a stream finished exactly when it was created with next_seq
  = Some 0 and the arriving item completes the set 0..n; a stream created with another
  known start is never reported finished, so the broker never removes it.
\<close>

theorem ms_done_iff_complete:
  assumes "ms_reach k0 n pk A D s" "n < 2 ^ 64 - 1" "i \<notin> A" "k0 \<le> i" "i \<le> n"
  shows "fst (handle_item (of_nat i) (i = n) (pk i) s) \<longleftrightarrow> k0 = 0 \<and> insert i A = {0..n}"
proof -
  obtain k where "ms_inv k0 n pk A D s k" using ms_reach_inv [OF assms(1,2)] by blast
  then show ?thesis
    using ms_inv_arrive [OF _ assms(2-5), of pk D s k "fst (handle_item (of_nat i) (i = n) (pk i) s)"
          "snd (handle_item (of_nat i) (i = n) (pk i) s)"] by simp
qed

lemma ms_inv_next_packet:
  assumes inv: "ms_inv k0 n pk A D s k" and n: "n < 2 ^ 64 - 1" and j: "k0 + length D \<in> A"
  shows "fst (ss_try_next_packet s) = Some (pk (k0 + length D))"
proof (cases "ss_queue s")
  case (Cons p q)
  have e: "D @ p # q = map pk [k0..<k]" "k0 \<le> k" using inv Cons by (auto simp: ms_inv_def)
  have "length D + Suc (length q) = k - k0" using arg_cong [OF e(1), of length] by simp
  then have "k0 + length D < k" using e(2) by linarith
  then have "map pk [k0..<k] ! length D = pk (k0 + length D)" by simp
  then have "p = pk (k0 + length D)" using e(1) by (metis nth_append_length)
  then show ?thesis using Cons by (simp add: ss_try_next_packet_def)
next
  case Nil
  note b = ms_inv_bounds [OF inv]
  have "D = map pk [k0..<k]" "k0 \<le> k" using inv Nil by (auto simp: ms_inv_def)
  then have k: "k0 + length D = k" by simp
  then have "k \<in> A - {..<k}" using j by simp
  then show ?thesis
    using Nil k try_pop_items [OF n b(1)[THEN finite_Diff] b(2), of s pk] inv
    by (simp add: ss_try_next_packet_def ms_inv_def)
qed

lemma ms_collect_rest:
  assumes inv: "ms_inv 0 n pk {0..n} D s k" and n: "n < 2 ^ 64 - 1"
    and len: "length D \<le> n" and xs: "length xs = n"
    and dec: "\<forall>i<n. ms_decode_item tb decP (pk i) = Inr (Inr (Some (xs ! i)))"
    and decn: "ms_decode_item tb decP (pk n) = Inr (Inr None)"
  shows "\<exists>s'. ms_collect tb decP acc s = Some (Inr (Inr (acc @ drop (length D) xs)), s')"
  using inv len
proof (induction "n - length D" arbitrary: D s k acc)
  case 0
  then have D: "length D = n" by simp
  obtain s' where t: "ss_try_next_packet s = (Some (pk n), s')"
    using ms_inv_next_packet [OF "0.prems"(1) n] D
    by (cases "ss_try_next_packet s") auto
  then show ?case using D xs decn by (simp add: ms_collect.simps ms_next_def)
next
  case (Suc m)
  define j where "j = length D"
  have jn: "j < n" using Suc.hyps by (simp add: j_def)
  obtain s' where t: "ss_try_next_packet s = (Some (pk j), s')"
    using ms_inv_next_packet [OF Suc.prems(1) n] jn
    by (cases "ss_try_next_packet s") (auto simp: j_def)
  obtain k' where inv': "ms_inv 0 n pk {0..n} (D @ [pk j]) s' k'"
    using ms_inv_take [OF Suc.prems(1) n t] by auto
  have "m = n - length (D @ [pk j])" using Suc.hyps by (simp add: j_def)
  then obtain s'' where
    "ms_collect tb decP (acc @ [xs ! j]) s' = Some (Inr (Inr ((acc @ [xs ! j]) @ drop (Suc j) xs)), s'')"
    using Suc.hyps(1) [OF _ inv', of "acc @ [xs ! j]"] jn by (auto simp: j_def simp del: append_assoc)
  moreover have "drop j xs = xs ! j # drop (Suc j) xs"
    using jn xs by (simp add: Cons_nth_drop_Suc)
  ultimately show ?case
    using t dec jn by (simp add: ms_collect.simps ms_next_def j_def)
qed

text \<open>
  Claim C22. Once every item 0..n of a stream has arrived, in any order, collect returns
  (without waiting for further input) the payloads the receiver has not read yet, in order.
\<close>

theorem ms_collect_complete:
  assumes "ms_reach 0 n pk {0..n} D s" "n < 2 ^ 64 - 1" "length D \<le> n" "length xs = n"
    and "\<forall>i<n. ms_decode_item tb decP (pk i) = Inr (Inr (Some (xs ! i)))"
    and "ms_decode_item tb decP (pk n) = Inr (Inr None)"
  shows "\<exists>s'. ms_collect tb decP [] s = Some (Inr (Inr (drop (length D) xs)), s')"
  using ms_reach_inv [OF assms(1,2)] ms_collect_rest [OF _ assms(2-6), where acc = "[]"] by auto

lemma stuck_take: "ss_stuck s \<Longrightarrow> ss_try_next_packet s = (None, s)"
  by (auto simp: ss_stuck_def ss_try_next_packet_def try_pop_def start_seq_def
           split: list.splits option.splits)

lemma stuck_arrive:
  assumes st: "ss_stuck s"
  shows "ss_stuck (snd (handle_item seq sh p s))"
proof -
  obtain it rest nxt where h: "ss_heap s = it # rest" and ns: "ss_next_seq s = Some nxt"
    and lt: "oi_seq it < nxt" and q: "ss_queue s = []" and so: "sorted (map oi_seq (it # rest))"
    using st by (auto simp: ss_stuck_def split: list.splits option.splits)
  show ?thesis
  proof (cases "seq < nxt")
    case True
    then show ?thesis using st ns by (simp add: handle_item_def start_seq_def)
  next
    case False
    define new where "new = \<lparr>oi_seq = seq, oi_shutdown = sh, oi_packet = p\<rparr>"
    have "oi_seq it < seq" using False lt by (meson leI less_le_trans)
    then have push: "heap_push new (it # rest) = it # insort_key oi_seq new rest"
      by (simp add: heap_push_def new_def not_le [symmetric])
    have so': "sorted (map oi_seq (it # insort_key oi_seq new rest))"
      using so push sorted_insort_key [of oi_seq new "it # rest"] by (simp add: heap_push_def)
    have dl: "drain_loop nxt (heap_push new (it # rest)) [] (Some nxt) = (heap_push new (it # rest), [], Some nxt)"
    proof -
      have "oi_seq it \<noteq> nxt" using lt by simp
      then show ?thesis by (simp add: push)
    qed
    obtain d s' where hi: "handle_item seq sh p s = (d, s')" by (cases "handle_item seq sh p s")
    then have "ss_heap s' = heap_push new (it # rest) \<and> ss_queue s' = [] \<and> ss_next_seq s' = Some nxt"
      using handle_item_eq [OF ns False _ hi] dl h q by (simp add: new_def)
    then show ?thesis using hi push so' lt by (simp add: ss_stuck_def)
  qed
qed

text \<open>
  Claim C24. A stream state whose heap holds an item below the next expected sequence
  number (what a duplicated item leaves behind) never delivers another packet, whatever
  arrives and however often the receiver reads.
\<close>

theorem ms_duplicate_stalls:
  assumes "ss_stuck s"
  shows "fst (ss_run es s) = []"
  using assms
proof (induction es arbitrary: s)
  case Nil
  then show ?case by simp
next
  case (Cons e es)
  then show ?case
    by (cases e) (simp_all add: stuck_arrive stuck_take)
qed

lemma dup_trace_run:
  "ss_run dup_trace (stream_state_new (Some 0)) =
     ([10, 11], snd (ss_run dup_trace (stream_state_new (Some 0)))) \<and>
   ss_stuck (snd (ss_run dup_trace (stream_state_new (Some 0))))"
  by (simp add: dup_trace_def stream_state_new_def handle_item_def start_seq_def heap_push_def
                ms_queue_cap_def ss_try_next_packet_def try_pop_def ss_stuck_def)

theorem ms_duplicate_stalls_witness:
  "ss_stuck (snd (ss_run dup_trace (stream_state_new (Some 0)))) \<and>
   fst (ss_run [Arrive 2 True 12, Take, Take] (snd (ss_run dup_trace (stream_state_new (Some 0))))) = []"
  using dup_trace_run ms_duplicate_stalls by blast

lemma header_seq_nonzero:
  assumes "tp_payload_length h \<noteq> 0"
  shows "\<exists>w. stream_item_lazy_seq (encode_transmit_packet h @ body) = Some w \<and> w \<noteq> 0"
proof -
  define a where "a = tp_payload_length h"
  define rest where "rest = encode_u16 (tp_infra_id h) @ encode_u32 (tp_plane_id h) @
                             encode_u32 (tp_topic h) @ encode_endpoint_addr (tp_source h) @ body"
  have pk: "encode_transmit_packet h @ body = encode_u16 a @ rest"
    by (simp add: encode_transmit_packet_def a_def rest_def)
  have lr: "6 \<le> length rest" by (simp add: rest_def encode_endpoint_addr_def)
  define v where "v = le_value (take 8 (encode_u16 a @ rest))"
  have v: "v = unat a + 65536 * le_value (take 6 rest)"
    by (simp add: v_def le_value_append encode_u16_def word_bytes_def le_value_le_bytes
                  unat_lt_byte_pow [where w = a and n = 2, simplified])
  have "v < 2 ^ 64"
    using le_value_bound [of "take 8 (encode_u16 a @ rest)"] lr by (simp add: v_def)
  moreover have "0 < v" using assms by (simp add: v a_def unat_gt_0)
  ultimately have "(of_nat v :: u64) \<noteq> 0"
    using of_nat_u64_eq [of v 0] by simp
  moreover have "8 \<le> length (encode_u16 a @ rest)" using lr by simp
  ultimately show ?thesis
    by (simp add: pk stream_item_lazy_seq_def decode_u64_def decode_word_def v_def)
qed

lemma sr_inv_handler:
  assumes inv: "sr_inv s" and p: "\<exists>h body. packet = encode_transmit_packet h @ body \<and> tp_payload_length h \<noteq> 0"
  shows "sr_inv (sr_item_handler tb packet s)"
proof -
  obtain w where w: "stream_item_lazy_seq packet = Some w" "w \<noteq> 0"
    using p header_seq_nonzero by blast
  define h' where "h' = insort_key sri_seq \<lparr>sri_seq = w, sri_packet = packet\<rparr> (srs_heap s)"
  have all: "\<forall>it\<in>set h'. sri_seq it \<noteq> 0"
    using inv w by (auto simp: h'_def sr_inv_def set_insort_key)
  have "sr_drain 0 h' [] = (h', [])"
    using all by (cases h') auto
  then show ?thesis
    using inv w all
    by (simp add: sr_item_handler_def decode_stream_item_lazy_def h'_def sr_inv_def)
qed

text \<open>
  Claim C25. StreamReceiver reads the sequence number from the start of the packet, inside
  the TransmitPacket header, so for packets with a non-empty payload the run starting at 0
  is never found and the user's handler is never called.
\<close>

theorem stream_receiver_never_delivers:
  assumes "list_all (\<lambda>p. \<exists>h body. p = encode_transmit_packet h @ body \<and> tp_payload_length h \<noteq> 0) ps"
  shows "sr_task_step tb decLT (fold (sr_item_handler tb) ps sr_state_new) = None"
proof -
  have gen: "sr_inv (fold (sr_item_handler tb) ps s)" if "sr_inv s" for s
    using assms that
  proof (induction ps arbitrary: s)
    case Nil
    then show ?case by simp
  next
    case (Cons p ps)
    then show ?case by (simp add: sr_inv_handler)
  qed
  have "sr_inv (fold (sr_item_handler tb) ps sr_state_new)"
    by (rule gen) (simp add: sr_inv_def sr_state_new_def)
  then show ?thesis by (simp add: sr_inv_def sr_task_step_def)
qed

lemma ms_reach_arrive_snd:
  "ms_reach k0 n pk A D s \<Longrightarrow> i \<notin> A \<Longrightarrow> k0 \<le> i \<Longrightarrow> i \<le> n \<Longrightarrow>
    ms_reach k0 n pk (insert i A) D (snd (handle_item (of_nat i) (i = n) (pk i) s))"
  by (rule ms_reach_arrive [where d = "fst (handle_item (of_nat i) (i = n) (pk i) s)"]) simp_all

lemma ms_reach_take_snd:
  "ms_reach k0 n pk A D s \<Longrightarrow>
    ms_reach k0 n pk A (D @ (case fst (ss_try_next_packet s) of None \<Rightarrow> [] | Some p \<Rightarrow> [p]))
      (snd (ss_try_next_packet s))"
  by (erule ms_reach_take) (rule prod.collapse [symmetric])

lemma ms_one_reach:
  "ms_reach 0 1 pk {1} [] (snd (handle_item (of_nat 1) (1 = (1::nat)) (pk 1)
                        (stream_state_new (Some (of_nat 0)))))"
  using ms_reach_arrive_snd [OF ms_reach_new, of 1 0 1 pk] by simp

lemma ms_two_reach: "ms_reach 0 1 pk {0, 1} [] (ms_two_arrivals pk)"
  using ms_reach_arrive_snd [OF ms_one_reach, of 0] unfolding ms_two_arrivals_def
  by (simp add: insert_commute)

lemma ms_demo_take: "fst (ss_try_next_packet (ms_two_arrivals ms_demo_pk)) = Some 10"
  by (simp add: ms_two_arrivals_def ms_demo_pk_def stream_state_new_def handle_item_def start_seq_def
                heap_push_def ms_queue_cap_def ss_try_next_packet_def)

theorem ms_delivers_in_order_witness:
  "ms_reach 0 1 ms_demo_pk {0, 1} [10] (snd (ss_try_next_packet (ms_two_arrivals ms_demo_pk))) \<and>
   (\<exists>j. [10] = map ms_demo_pk [0..<j] \<and> {0..<j} \<subseteq> {0, 1::nat})"
proof -
  have r: "ms_reach 0 1 ms_demo_pk {0, 1} [10] (snd (ss_try_next_packet (ms_two_arrivals ms_demo_pk)))"
    using ms_reach_take_snd [OF ms_two_reach [of ms_demo_pk]] ms_demo_take by simp
  have "(1::nat) < 2 ^ 64 - 1" by simp
  from ms_delivers_in_order [OF r this] r show ?thesis by blast
qed

theorem ms_done_iff_complete_witness:
  "ms_reach 0 1 ms_demo_pk {1} [] (snd (handle_item (of_nat 1) (1 = (1::nat)) (ms_demo_pk 1)
                        (stream_state_new (Some (of_nat 0))))) \<and>
   fst (handle_item (of_nat 0) (0 = (1::nat)) (ms_demo_pk 0)
         (snd (handle_item (of_nat 1) (1 = (1::nat)) (ms_demo_pk 1) (stream_state_new (Some (of_nat 0))))))"
proof -
  have "(1::nat) < 2 ^ 64 - 1" by simp
  moreover have "insert 0 {1::nat} = {0..1}" by auto
  ultimately show ?thesis
    using ms_done_iff_complete [OF ms_one_reach [of ms_demo_pk], of 0] ms_one_reach [of ms_demo_pk] by simp
qed

lemma demo_decode:
  "ms_decode_item tb demo_opt_dec (demo_pk 0) = Inr (Inr (Some 42))"
  "ms_decode_item tb demo_opt_dec (demo_pk 1) = Inr (Inr None)"
  by (simp_all add: ms_decode_item_def demo_pk_def demo_packet_def decode_multi_stream_item_lazy_def
                    multi_stream_item_lazy_payload_def demo_opt_dec_def transmit_packet_base_len_def
                    encode_multi_stream_id_def)

theorem ms_collect_complete_witness:
  "ms_reach 0 1 demo_pk {0..1} [] (ms_two_arrivals demo_pk) \<and>
   (\<exists>s'. ms_collect 0 demo_opt_dec [] (ms_two_arrivals demo_pk) = Some (Inr (Inr [42]), s'))"
proof -
  have r: "ms_reach 0 1 demo_pk {0..1} [] (ms_two_arrivals demo_pk)"
    using ms_two_reach [of demo_pk] by (simp add: atLeast0_atMost_Suc insert_commute)
  have "\<forall>i<1. ms_decode_item 0 demo_opt_dec (demo_pk i) = Inr (Inr (Some ([42] ! i)))"
    using demo_decode(1) by simp
  then show ?thesis
    using ms_collect_complete [OF r _ _ _ _ demo_decode(2), of "[42]"] r by simp
qed

theorem stream_receiver_never_delivers_witness:
  "list_all (\<lambda>p. \<exists>h body. p = encode_transmit_packet h @ body \<and> tp_payload_length h \<noteq> 0) sr_demo_packets \<and>
   sr_task_step 0 (\<lambda>bs. Some (bs, [])) (fold (sr_item_handler 0) sr_demo_packets sr_state_new) = None"
proof -
  have h: "list_all (\<lambda>p. \<exists>h body. p = encode_transmit_packet h @ body \<and> tp_payload_length h \<noteq> 0) sr_demo_packets"
    by (auto simp: sr_demo_packets_def sr_demo_header_def)
  then show ?thesis using stream_receiver_never_delivers [OF h] by blast
qed

lemma ms_start_one_never_done:
  "let (d1, s1) = handle_item 2 True (12::nat) (stream_state_new (Some 1));
       (d2, s2) = handle_item 1 False 11 s1
   in \<not> d1 \<and> \<not> d2 \<and> ss_queue s2 = [11]"
  by (simp add: handle_item_def start_seq_def stream_state_new_def heap_push_def ms_queue_cap_def)

end
