(* ===== verification/Roles.thy ===== *)
theory Roles
  imports Streams "HOL-Library.Multiset"
begin

text \<open>
  The remaining roles of \<open>std-modrpc\<close>: the property owner and observer
  (\<open>role_impls/property_owner.rs\<close>, \<open>property_observer.rs\<close>) and the byte stream
  (\<open>byte_stream_sender.rs\<close>, \<open>byte_stream_receiver.rs\<close>), over the typed event
  endpoints of \<open>role_setup.rs\<close> they use (\<open>EventTx::send\<close> and
  \<open>EventRxBuilder::inline\<close>).

  A packet is its bytes (\<open>bab::Packet\<close>): \<open>advance n\<close> drops \<open>n\<close> bytes and
  \<open>set_len n\<close> keeps the first \<open>n\<close>; a slice or a read past the end of a packet
  panics (\<open>Inl SliceOutOfRange\<close>).  The byte stream's blob table is an association list
  (a \<open>HashMap<u64, Packet>\<close>), its cursors are \<open>u64\<close> words (arithmetic wraps, as in
  a release build).  A loop that does not return is \<open>None\<close>.
\<close>

section \<open>Typed event endpoints\<close>

text \<open>\<open>EventTx\<close> with the source address of its \<open>PacketSender\<close>: \<open>send\<close> is
  \<open>PacketSender::send\<close>, a \<open>send_raw\<close> of the encoded payload.\<close>

record event_tx =
  etx_source :: endpoint_addr
  etx_plane_id :: u32
  etx_topic :: u32

definition event_tx_send :: "('t \<Rightarrow> bytes) \<Rightarrow> event_tx \<Rightarrow> 't \<Rightarrow> bytes" where
  "event_tx_send encT tx payload =
     send_raw_bytes (etx_source tx) (etx_plane_id tx) (etx_topic tx) (encT payload)"

text \<open>\<open>EventRxBuilder::inline\<close>: decode the payload after the header and call the
  handler; a payload that does not decode drops the packet.\<close>

definition event_rx_inline ::
    "(bytes \<Rightarrow> ('t \<times> bytes) option) \<Rightarrow> ('t \<Rightarrow> 's \<Rightarrow> 's) \<Rightarrow> bytes \<Rightarrow> 's \<Rightarrow> stream_panic + 's" where
  "event_rx_inline decT handler packet s =
     (if length packet < transmit_packet_base_len then Inl SliceOutOfRange
      else (case decT (drop transmit_packet_base_len packet) of
              None \<Rightarrow> Inr s
            | Some (v, _) \<Rightarrow> Inr (handler v s)))"

section \<open>Properties\<close>

record 't property_owner =
  po_value :: 't

definition property_owner_new :: "'t property_init_state \<Rightarrow> 't property_owner" where
  "property_owner_new init = \<lparr>po_value = pis_value init\<rparr>"

text \<open>\<open>PropertyOwner::update\<close> sends the update and then stores the value.\<close>

definition po_update ::
    "('t \<Rightarrow> bytes) \<Rightarrow> event_tx \<Rightarrow> 't \<Rightarrow> 't property_owner \<Rightarrow> bytes \<times> 't property_owner" where
  "po_update encT tx v s =
     (event_tx_send (encode_property_update_gen encT) tx \<lparr>pug_new_value = v\<rparr>, s\<lparr>po_value := v\<rparr>)"

definition po_with_value :: "('t \<Rightarrow> 'r) \<Rightarrow> 't property_owner \<Rightarrow> 'r" where
  "po_with_value f s = f (po_value s)"

text \<open>The owner's own subscription to \<open>update\<close> ignores every update.\<close>

definition po_update_handler :: "'t property_update \<Rightarrow> 't property_owner \<Rightarrow> 't property_owner" where
  "po_update_handler u s = s"

record 't property_observer =
  pob_value :: 't

definition property_observer_new :: "'t property_init_state \<Rightarrow> 't property_observer" where
  "property_observer_new init = \<lparr>pob_value = pis_value init\<rparr>"

definition pob_update_handler :: "'t property_update \<Rightarrow> 't property_observer \<Rightarrow> 't property_observer" where
  "pob_update_handler u s = s\<lparr>pob_value := pu_new_value u\<rparr>"

definition pob_receive ::
    "(bytes \<Rightarrow> ('t \<times> bytes) option) \<Rightarrow> bytes \<Rightarrow> 't property_observer \<Rightarrow> stream_panic + 't property_observer" where
  "pob_receive decT = event_rx_inline (decode_property_update decT) pob_update_handler"

definition po_receive ::
    "(bytes \<Rightarrow> ('t \<times> bytes) option) \<Rightarrow> bytes \<Rightarrow> 't property_owner \<Rightarrow> stream_panic + 't property_owner" where
  "po_receive decT = event_rx_inline (decode_property_update decT) po_update_handler"

section \<open>Byte streams\<close>

record bs_sender =
  bss_send_cursor :: u64

definition bs_sender_new :: bs_sender where
  "bs_sender_new = \<lparr>bss_send_cursor = 0\<rparr>"

text \<open>\<open>ByteStreamSender::send\<close>: the blob's start index, the packet (start index, then
  the bytes) and the new state.\<close>

definition bs_send :: "event_tx \<Rightarrow> bytes \<Rightarrow> bs_sender \<Rightarrow> u64 \<times> bytes \<times> bs_sender" where
  "bs_send tx bytes s =
     (let start_index = bss_send_cursor s
      in (start_index,
          send_raw_bytes (etx_source tx) (etx_plane_id tx) (etx_topic tx) (encode_u64 start_index @ bytes),
          s\<lparr>bss_send_cursor := start_index + of_nat (length bytes)\<rparr>))"

record bs_receiver =
  bsr_blobs :: "(u64 \<times> bytes) list"
  bsr_current_blob_start :: u64
  bsr_consume_cursor :: u64

definition bs_receiver_new :: bs_receiver where
  "bs_receiver_new = \<lparr>bsr_blobs = [], bsr_current_blob_start = 0, bsr_consume_cursor = 0\<rparr>"

text \<open>The inline \<open>blob\<close> handler of \<open>ByteStreamReceiverBuilder::build\<close>.  It checks for
  8 bytes but then skips the 20-byte header before reading the start index.\<close>

definition bs_blob_handler :: "bytes \<Rightarrow> bs_receiver \<Rightarrow> stream_panic + bs_receiver" where
  "bs_blob_handler packet s =
     (if length packet < 8 then Inr s
      else (case decode_u64 (drop transmit_packet_base_len packet) of
              None \<Rightarrow> Inl SliceOutOfRange
            | Some (start_index, blob) \<Rightarrow>
                (let s1 = (if start_index < bsr_current_blob_start s
                           then s\<lparr>bsr_current_blob_start := start_index\<rparr> else s)
                 in Inr (s1\<lparr>bsr_blobs := (case map_of (bsr_blobs s1) start_index of
                                             None \<Rightarrow> AList.update start_index blob (bsr_blobs s1)
                                           | Some _ \<Rightarrow> bsr_blobs s1)\<rparr>))))"

definition bs_cursor :: "bs_receiver \<Rightarrow> u64" where
  "bs_cursor s = bsr_consume_cursor s"

definition bs_peek :: "bs_receiver \<Rightarrow> bytes option" where
  "bs_peek s =
     (let start = bsr_current_blob_start s; cursor = bsr_consume_cursor s
      in if cursor < start then None
         else (case map_of (bsr_blobs s) start of
                 None \<Rightarrow> None
               | Some blob \<Rightarrow> Some (drop (unat (cursor - start)) blob)))"

definition bs_consume :: "u64 \<Rightarrow> bs_receiver \<Rightarrow> bytes option \<times> bs_receiver" where
  "bs_consume cnt s =
     (let start = bsr_current_blob_start s; cursor = bsr_consume_cursor s;
          offset_in_blob = cursor - start
      in if cursor < start then (None, s)
         else (case map_of (bsr_blobs s) start of
                 None \<Rightarrow> (None, s)
               | Some blob \<Rightarrow>
                   (let s1 = (if of_nat (length blob) - offset_in_blob \<le> cnt
                              then s\<lparr>bsr_blobs := AList.delete start (bsr_blobs s),
                                     bsr_current_blob_start := start + of_nat (length blob)\<rparr>
                              else s);
                        b = take (unat cnt) (drop (unat offset_in_blob) blob)
                    in (Some b, s1\<lparr>bsr_consume_cursor := cursor + of_nat (length b)\<rparr>))))"

text \<open>The \<open>loop\<close> of \<open>try_peek_ahead\<close>: the outer option is whether it returns.\<close>

partial_function (option) bs_peek_loop ::
    "(u64 \<times> bytes) list \<Rightarrow> u64 \<Rightarrow> u64 \<Rightarrow> u64 \<Rightarrow> bytes option option" where
  "bs_peek_loop blobs read_start read_len cursor =
     (case map_of blobs cursor of
        None \<Rightarrow> Some None
      | Some blob \<Rightarrow>
          (let len = of_nat (length blob)
           in if read_start < cursor + len \<or> (cursor + len = read_start \<and> read_len = 0)
              then Some (Some (take (unat read_len) (drop (unat (read_start - cursor)) blob)))
              else bs_peek_loop blobs read_start read_len (cursor + len)))"

declare bs_peek_loop.simps [code]

definition bs_try_peek_ahead :: "u64 \<Rightarrow> u64 \<Rightarrow> bs_receiver \<Rightarrow> bytes option option" where
  "bs_try_peek_ahead read_start read_len s =
     (if read_start < bsr_consume_cursor s then Some None
      else if read_start < bsr_current_blob_start s then Some None
      else bs_peek_loop (bsr_blobs s) read_start read_len (bsr_current_blob_start s))"

section \<open>Specification and scenarios\<close>

text \<open>Handling a sequence of packets, stopping at the first panic.\<close>

fun fold_sum :: "('a \<Rightarrow> 's \<Rightarrow> 'e + 's) \<Rightarrow> 'a list \<Rightarrow> 's \<Rightarrow> 'e + 's" where
  "fold_sum h [] s = Inr s"
| "fold_sum h (x # xs) s = (case h x s of Inl e \<Rightarrow> Inl e | Inr s' \<Rightarrow> fold_sum h xs s')"

fun po_updates ::
    "('t \<Rightarrow> bytes) \<Rightarrow> event_tx \<Rightarrow> 't list \<Rightarrow> 't property_owner \<Rightarrow> bytes list \<times> 't property_owner" where
  "po_updates encT tx [] s = ([], s)"
| "po_updates encT tx (v # vs) s =
     (let (p, s') = po_update encT tx v s; (ps, s'') = po_updates encT tx vs s' in (p # ps, s''))"

fun bs_send_all :: "event_tx \<Rightarrow> bytes list \<Rightarrow> bs_sender \<Rightarrow> bytes list \<times> bs_sender" where
  "bs_send_all tx [] s = ([], s)"
| "bs_send_all tx (c # cs) s =
     (let (_, p, s') = bs_send tx c s; (ps, s'') = bs_send_all tx cs s' in (p # ps, s''))"

fun bs_consume_n :: "u64 \<Rightarrow> nat \<Rightarrow> bs_receiver \<Rightarrow> bytes option list \<times> bs_receiver" where
  "bs_consume_n cnt 0 s = ([], s)"
| "bs_consume_n cnt (Suc n) s =
     (let (x, s') = bs_consume cnt s; (xs, s'') = bs_consume_n cnt n s' in (x # xs, s''))"

text \<open>The blobs a sender starting at byte \<open>o\<close> produces for the chunks \<open>cs\<close>, and
  their packets.\<close>

fun bs_chunks :: "nat \<Rightarrow> bytes list \<Rightarrow> (u64 \<times> bytes) list" where
  "bs_chunks off [] = []"
| "bs_chunks off (c # cs) = (of_nat off, c) # bs_chunks (off + length c) cs"

definition bs_chunk_packet :: "event_tx \<Rightarrow> u64 \<times> bytes \<Rightarrow> bytes" where
  "bs_chunk_packet tx kc =
     send_raw_bytes (etx_source tx) (etx_plane_id tx) (etx_topic tx) (encode_u64 (fst kc) @ snd kc)"

definition bs_arrived :: "event_tx \<Rightarrow> (u64 \<times> bytes) list \<Rightarrow> bytes list \<Rightarrow> u64 set" where
  "bs_arrived tx chunks ps = {k. \<exists>c. (k, c) \<in> set chunks \<and> bs_chunk_packet tx (k, c) \<in> set ps}"

definition bs_demo_tx :: event_tx where
  "bs_demo_tx = \<lparr>etx_source = \<lparr>endpoint = 1\<rparr>, etx_plane_id = 2, etx_topic = 3\<rparr>"

section \<open>Lemmas\<close>

lemma bs_peek_loop_empty_blob:
  assumes blob: "map_of blobs c = Some []" and le: "c \<le> read_start"
    and ne: "c = read_start \<longrightarrow> read_len \<noteq> 0"
  shows "bs_peek_loop blobs read_start read_len c = None"
proof (induction rule: bs_peek_loop.fixp_induct)
  case 1 show ?case
    using option_admissible_None_at [of "(((blobs, read_start), read_len), c)"] by simp
next
  case 2 show ?case by simp
next
  case (3 f)
  have "\<not> read_start < c" using le by simp
  then show ?case using 3 blob ne by auto
qed

lemma drop_send_raw_bytes [simp]:
  "drop transmit_packet_base_len (send_raw_bytes src pl t payload) = payload"
  by (simp add: send_raw_bytes_def)

lemma bs_send_all_chunks:
  "bss_send_cursor s = of_nat off \<Longrightarrow> fst (bs_send_all tx cs s) = map (bs_chunk_packet tx) (bs_chunks off cs)"
proof (induction cs arbitrary: off s)
  case Nil
  then show ?case by simp
next
  case (Cons c cs)
  have "bss_send_cursor (s\<lparr>bss_send_cursor := bss_send_cursor s + of_nat (length c)\<rparr>) = of_nat (off + length c)"
    using Cons.prems by simp
  then show ?case
    using Cons.IH Cons.prems by (simp add: bs_send_def bs_chunk_packet_def prod.case_eq_if Let_def)
qed

lemma bs_chunks_snd: "map snd (bs_chunks off cs) = cs"
  by (induction cs arbitrary: off) simp_all

lemma bs_chunks_keys:
  "(k, c) \<in> set (bs_chunks off cs) \<Longrightarrow> \<exists>off'. k = of_nat off' \<and> off \<le> off' \<and> off' + length c \<le> off + sum_list (map length cs)"
proof (induction cs arbitrary: off)
  case Nil
  then show ?case by simp
next
  case (Cons c' cs)
  then show ?case by fastforce
qed

lemma bs_chunks_distinct:
  assumes "\<forall>c\<in>set cs. c \<noteq> []" "off + sum_list (map length cs) < 2 ^ 64"
  shows "distinct (map fst (bs_chunks off cs))"
  using assms
proof (induction cs arbitrary: off)
  case Nil
  then show ?case by simp
next
  case (Cons c cs)
  have "(of_nat off :: u64) \<noteq> k" if kc: "(k, c') \<in> set (bs_chunks (off + length c) cs)" for k c'
  proof -
    obtain off' where off': "k = of_nat off'" "off + length c \<le> off'"
        "off' + length c' \<le> off + length c + sum_list (map length cs)"
      using bs_chunks_keys [OF kc] by auto
    have "c' \<in> set cs"
      using kc bs_chunks_snd [of "off + length c" cs] by (metis image_eqI list.set_map snd_conv)
    then have "0 < length c'" and "0 < length c" using Cons.prems by auto
    moreover have "off + length c + sum_list (map length cs) < 2 ^ 64" using Cons.prems(2) by simp
    ultimately have "off < off'" "off' < 2 ^ 64" using off' by linarith+
    then show ?thesis using off' Cons.prems(2) of_nat_u64_eq [of off off'] by auto
  qed
  then have "of_nat off \<notin> set (map fst (bs_chunks (off + length c) cs))" by fastforce
  moreover have "distinct (map fst (bs_chunks (off + length c) cs))"
    using Cons by (intro Cons.IH) (auto simp: add.assoc)
  ultimately show ?case by simp
qed

lemma bs_chunk_packet_decode:
  "decode_u64 (drop transmit_packet_base_len (bs_chunk_packet tx kc)) = Some (fst kc, snd kc)"
  by (simp add: bs_chunk_packet_def)

lemma bs_chunk_packet_inj:
  "bs_chunk_packet tx kc = bs_chunk_packet tx kc' \<Longrightarrow> kc = kc'"
  using bs_chunk_packet_decode [of tx kc] bs_chunk_packet_decode [of tx kc'] by (cases kc, cases kc') simp

lemma bs_blob_handler_fresh:
  assumes "bsr_current_blob_start r = 0" "map_of (bsr_blobs r) k = None"
  shows "bs_blob_handler (bs_chunk_packet tx (k, c)) r = Inr (r\<lparr>bsr_blobs := AList.update k c (bsr_blobs r)\<rparr>)"
proof -
  have "8 \<le> length (bs_chunk_packet tx (k, c))"
    by (simp add: bs_chunk_packet_def send_raw_bytes_def)
  then show ?thesis
    using assms bs_chunk_packet_decode [of tx "(k, c)"] by (simp add: bs_blob_handler_def)
qed

lemma bs_arrivals:
  assumes dk: "distinct (map fst chunks)"
    and r: "bsr_current_blob_start r = 0" "bsr_consume_cursor r = 0"
      "map_of (bsr_blobs r) = map_of chunks |` bs_arrived tx chunks pre"
    and ps: "distinct (pre @ ps)" "set ps \<subseteq> bs_chunk_packet tx ` set chunks"
  shows "\<exists>r'. fold_sum bs_blob_handler ps r = Inr r' \<and> bsr_current_blob_start r' = 0 \<and>
    bsr_consume_cursor r' = 0 \<and> map_of (bsr_blobs r') = map_of chunks |` bs_arrived tx chunks (pre @ ps)"
  using r ps
proof (induction ps arbitrary: pre r)
  case Nil
  then show ?case by simp
next
  case (Cons p ps)
  obtain k c where kc: "(k, c) \<in> set chunks" and p: "p = bs_chunk_packet tx (k, c)"
    using Cons.prems(5) by auto
  have mk: "map_of chunks k = Some c" using kc dk by simp
  have notin: "k \<notin> bs_arrived tx chunks pre"
  proof
    assume "k \<in> bs_arrived tx chunks pre"
    then obtain c' where "(k, c') \<in> set chunks" "bs_chunk_packet tx (k, c') \<in> set pre"
      by (auto simp: bs_arrived_def)
    moreover have "c' = c" using calculation(1) kc dk by (metis map_of_is_SomeI option.inject)
    ultimately show False using Cons.prems(4) p by auto
  qed
  then have none: "map_of (bsr_blobs r) k = None" using Cons.prems(3) by simp
  have arr: "bs_arrived tx chunks (pre @ [p]) = insert k (bs_arrived tx chunks pre)"
    using kc p bs_chunk_packet_inj [of tx] by (auto simp: bs_arrived_def)
  define r1 where "r1 = r\<lparr>bsr_blobs := AList.update k c (bsr_blobs r)\<rparr>"
  have h: "bs_blob_handler p r = Inr r1"
    using bs_blob_handler_fresh [OF Cons.prems(1) none] p by (simp add: r1_def)
  have m1: "map_of (bsr_blobs r1) = map_of chunks |` bs_arrived tx chunks (pre @ [p])"
    using Cons.prems(3) mk by (auto simp: r1_def arr update_conv' restrict_map_def fun_eq_iff)
  obtain r' where "fold_sum bs_blob_handler ps r1 = Inr r' \<and> bsr_current_blob_start r' = 0 \<and>
      bsr_consume_cursor r' = 0 \<and> map_of (bsr_blobs r') = map_of chunks |` bs_arrived tx chunks ((pre @ [p]) @ ps)"
    using Cons.IH [of r1 "pre @ [p]"] Cons.prems m1 by (auto simp: r1_def)
  then show ?case using h by auto
qed

lemma bs_consume_chunks:
  assumes "\<forall>c\<in>set cs. c \<noteq> [] \<and> length c \<le> unat cnt" "off + sum_list (map length cs) < 2 ^ 64"
    and "map_of (bsr_blobs r) = map_of (bs_chunks off cs)"
    and "bsr_current_blob_start r = of_nat off" "bsr_consume_cursor r = of_nat off"
  shows "fst (bs_consume_n cnt (length cs) r) = map Some cs"
  using assms
proof (induction cs arbitrary: off r)
  case Nil
  then show ?case by simp
next
  case (Cons c cs)
  have lc: "length c < 2 ^ 64" "length c \<le> unat cnt" using Cons.prems(1,2) by auto
  have le: "(of_nat (length c) :: u64) \<le> cnt"
    using lc by (simp add: word_le_nat_alt)
  have blob: "map_of (bsr_blobs r) (of_nat off) = Some c" using Cons.prems(3) by simp
  define r1 where "r1 = r\<lparr>bsr_blobs := AList.delete (of_nat off) (bsr_blobs r),
                         bsr_current_blob_start := of_nat off + of_nat (length c),
                         bsr_consume_cursor := of_nat off + of_nat (length c)\<rparr>"
  have take: "take (unat cnt) c = c" using lc by simp
  have step: "bs_consume cnt r = (Some c, r1)"
    using Cons.prems(4,5) blob le take by (simp add: bs_consume_def Let_def r1_def)
  have dist: "distinct (map fst (bs_chunks off (c # cs)))"
    using Cons.prems(1,2) by (intro bs_chunks_distinct) auto
  have m1: "map_of (bsr_blobs r1) = map_of (bs_chunks (off + length c) cs)"
  proof -
    have "of_nat off \<notin> fst ` set (bs_chunks (off + length c) cs)" using dist by simp
    then have "map_of (bs_chunks (off + length c) cs) (of_nat off) = None"
      by (simp add: map_of_eq_None_iff)
    then show ?thesis
      using Cons.prems(3) by (auto simp: r1_def delete_conv' fun_eq_iff)
  qed
  have "fst (bs_consume_n cnt (length cs) r1) = map Some cs"
    using Cons.IH [of "off + length c" r1] Cons.prems m1 by (auto simp: r1_def add.assoc)
  then show ?case using step by (simp add: prod.case_eq_if)
qed

text \<open>
  Claim C26. Whatever order the blobs of a byte stream arrive in, a receiver that consumes
  with a count at least the longest chunk gets back exactly the chunks the sender sent, in
  order, when every chunk is non-empty and the stream is shorter than 2^64 bytes.
\<close>

theorem bs_stream_roundtrip:
  assumes "\<forall>c\<in>set cs. c \<noteq> [] \<and> length c \<le> unat cnt" "sum_list (map length cs) < 2 ^ 64"
    and "mset ps = mset (fst (bs_send_all tx cs bs_sender_new))"
  shows "\<exists>r. fold_sum bs_blob_handler ps bs_receiver_new = Inr r \<and>
    fst (bs_consume_n cnt (length cs) r) = map Some cs"
proof -
  define chunks where "chunks = bs_chunks 0 cs"
  have pk: "fst (bs_send_all tx cs bs_sender_new) = map (bs_chunk_packet tx) chunks"
    by (simp add: chunks_def bs_send_all_chunks bs_sender_new_def)
  have dk: "distinct (map fst chunks)"
    using assms(1,2) by (simp add: chunks_def bs_chunks_distinct)
  have dp: "distinct (map (bs_chunk_packet tx) chunks)"
    using dk bs_chunk_packet_inj [of tx] by (simp add: distinct_map inj_on_def distinct_map [of fst])
  have ps: "distinct ps" "set ps = bs_chunk_packet tx ` set chunks"
    using assms(3) pk dp by (metis mset_eq_imp_distinct_iff, metis mset_eq_setD set_map)
  obtain r where r: "fold_sum bs_blob_handler ps bs_receiver_new = Inr r" "bsr_current_blob_start r = 0"
      "bsr_consume_cursor r = 0" "map_of (bsr_blobs r) = map_of chunks |` bs_arrived tx chunks ([] @ ps)"
    using bs_arrivals [OF dk, where r = bs_receiver_new and pre = "[]" and ps = ps and tx = tx] ps by (auto simp: bs_receiver_new_def bs_arrived_def)
  have "bs_arrived tx chunks ps = fst ` set chunks"
    using ps by (force simp: bs_arrived_def)
  then have "map_of (bsr_blobs r) = map_of chunks"
    using r(4) by (auto simp: restrict_map_def fun_eq_iff map_of_eq_None_iff [symmetric])
  then have "fst (bs_consume_n cnt (length cs) r) = map Some cs"
    using bs_consume_chunks [OF assms(1), of 0 r] assms(2) r(2,3) by (simp add: chunks_def)
  then show ?thesis using r(1) by blast
qed

text \<open>
  Claim C27. An empty send takes no room in the stream: its blob and the next one share a
  start index, or_insert keeps the empty blob and drops the next, try_peek_ahead then loops
  for ever on the empty blob, and consume hands out the empty blob and then nothing.
\<close>

theorem bs_empty_send_shadows:
  "let (_, p1, s1) = bs_send tx [] bs_sender_new; (_, p2, _) = bs_send tx b s1
   in \<exists>r. fold_sum bs_blob_handler [p1, p2] bs_receiver_new = Inr r \<and> bsr_blobs r = [(0, [])] \<and>
          bs_try_peek_ahead 0 1 r = None \<and>
          fst (bs_consume 8 r) = Some [] \<and> fst (bs_consume 8 (snd (bs_consume 8 r))) = None"
proof -
  define r where "r = bs_receiver_new\<lparr>bsr_blobs := [(0::u64, [])]\<rparr>"
  have h: "fold_sum bs_blob_handler [bs_chunk_packet tx (0, []), bs_chunk_packet tx (0, b)] bs_receiver_new = Inr r"
  proof -
    have "bs_blob_handler (bs_chunk_packet tx (0, [])) bs_receiver_new = Inr r"
      using bs_blob_handler_fresh [of bs_receiver_new 0 tx "[]"] by (simp add: bs_receiver_new_def r_def)
    moreover have "bs_blob_handler (bs_chunk_packet tx (0, b)) r = Inr r"
    proof -
      have "8 \<le> length (bs_chunk_packet tx (0, b))" by (simp add: bs_chunk_packet_def send_raw_bytes_def)
      then show ?thesis using bs_chunk_packet_decode [of tx "(0, b)"]
        by (simp add: bs_blob_handler_def r_def bs_receiver_new_def)
    qed
    ultimately show ?thesis by simp
  qed
  have peek: "bs_try_peek_ahead 0 1 r = None"
    using bs_peek_loop_empty_blob [of "[(0, [])]" 0 0 1]
    by (simp add: bs_try_peek_ahead_def r_def bs_receiver_new_def)
  have c1: "bs_consume 8 r = (Some [], r\<lparr>bsr_blobs := []\<rparr>)"
    by (simp add: bs_consume_def r_def bs_receiver_new_def)
  have c2: "fst (bs_consume 8 (r\<lparr>bsr_blobs := []\<rparr>)) = None"
    by (simp add: bs_consume_def r_def bs_receiver_new_def)
  show ?thesis
    using h peek c1 c2
    by (simp add: bs_send_def bs_sender_new_def bs_chunk_packet_def r_def bs_receiver_new_def)
qed

theorem bs_short_blob_panics:
  assumes "8 \<le> length packet" "length packet < transmit_packet_base_len + 8"
  shows "bs_blob_handler packet s = Inl SliceOutOfRange"
  using assms by (simp add: bs_blob_handler_def decode_u64_def decode_word_def)

theorem bs_short_blob_panics_witness:
  "8 \<le> length (replicate 10 (0::u8)) \<and> length (replicate 10 (0::u8)) < transmit_packet_base_len + 8 \<and>
   bs_blob_handler (replicate 10 0) bs_receiver_new = Inl SliceOutOfRange"
  using bs_short_blob_panics [of "replicate 10 0" bs_receiver_new] by (simp add: transmit_packet_base_len_def)

theorem bs_stream_roundtrip_witness:
  "length [1, 2::u8] \<le> unat (8::u64) \<and> length [3::u8] \<le> unat (8::u64) \<and> sum_list (map length [[1, 2], [3::u8]]) < 2 ^ 64 \<and>
   mset (rev (fst (bs_send_all bs_demo_tx [[1, 2], [3]] bs_sender_new))) = mset (fst (bs_send_all bs_demo_tx [[1, 2], [3]] bs_sender_new)) \<and>
   (\<exists>r. fold_sum bs_blob_handler (rev (fst (bs_send_all bs_demo_tx [[1, 2], [3]] bs_sender_new))) bs_receiver_new = Inr r \<and>
        fst (bs_consume_n 8 (length [[1, 2], [3::u8]]) r) = map Some [[1, 2], [3]])"
proof -
  have h: "\<forall>c\<in>set [[1, 2], [3::u8]]. c \<noteq> [] \<and> length c \<le> unat (8::u64)" by simp
  have m: "mset (rev (fst (bs_send_all bs_demo_tx [[1, 2], [3]] bs_sender_new))) = mset (fst (bs_send_all bs_demo_tx [[1, 2], [3]] bs_sender_new))"
    by simp
  show ?thesis using bs_stream_roundtrip [OF h _ m] h m by simp
qed

lemma pob_receive_update:
  assumes "codec_exact encT decT"
  shows "pob_receive decT (fst (po_update encT tx v ow)) ob = Inr (ob\<lparr>pob_value := v\<rparr>)"
proof -
  have "decT (encT v) = Some (v, [])" using codec_exact_enc [OF assms, of v "[]"] by simp
  then show ?thesis
    by (simp add: pob_receive_def event_rx_inline_def po_update_def event_tx_send_def send_raw_bytes_def
                  encode_property_update_gen_def decode_property_update_def pob_update_handler_def)
qed

lemma po_receive_ignores:
  "transmit_packet_base_len \<le> length packet \<Longrightarrow> po_receive decT packet ow = Inr ow"
  by (simp add: po_receive_def event_rx_inline_def po_update_handler_def split: option.split prod.split)

text \<open>
  Claim C28. For an exact value codec, an observer that receives the owner's update packets
  in order holds the owner's value after every sequence of updates.
\<close>

theorem property_observer_tracks_owner:
  assumes "codec_exact encT decT"
  shows "\<exists>ob. fold_sum (pob_receive decT) (fst (po_updates encT tx vs (property_owner_new init)))
                (property_observer_new init) = Inr ob \<and>
              pob_value ob = po_value (snd (po_updates encT tx vs (property_owner_new init)))"
proof -
  have "pob_value ob = po_value ow \<Longrightarrow> \<exists>ob'. fold_sum (pob_receive decT) (fst (po_updates encT tx vs ow)) ob = Inr ob' \<and>
          pob_value ob' = po_value (snd (po_updates encT tx vs ow))" for ow ob
  proof (induction vs arbitrary: ow ob)
    case Nil
    then show ?case by simp
  next
    case (Cons v vs)
    have "pob_value (ob\<lparr>pob_value := v\<rparr>) = po_value (snd (po_update encT tx v ow))"
      by (simp add: po_update_def)
    then show ?case
      using Cons.IH [of "ob\<lparr>pob_value := v\<rparr>" "snd (po_update encT tx v ow)"] pob_receive_update [OF assms]
      by (simp add: prod.case_eq_if Let_def)
  qed
  then show ?thesis by (simp add: property_owner_new_def property_observer_new_def)
qed

theorem property_observer_tracks_owner_witness:
  "codec_exact encode_u64 decode_u64 \<and>
   (\<exists>ob. fold_sum (pob_receive decode_u64) (fst (po_updates encode_u64 bs_demo_tx [5, 7] (property_owner_new \<lparr>pis_value = 1\<rparr>)))
          (property_observer_new \<lparr>pis_value = 1\<rparr>) = Inr ob \<and>
        pob_value ob = po_value (snd (po_updates encode_u64 bs_demo_tx [5, 7] (property_owner_new \<lparr>pis_value = 1\<rparr>))))"
  using property_observer_tracks_owner [OF codec_exact_u64] codec_exact_u64 by blast

end
