(* ===== verification/RoleSetup.thy ===== *)
theory RoleSetup
  imports PacketProcessor ContextMap Roles
begin

unbundle bit_operations_syntax

text \<open>
  Role and worker setup (\<open>crates/modrpc/src/role_setup.rs\<close>, the setup methods of
  \<open>worker.rs\<close> and \<open>RuntimeHandle::run_on_all_other_workers\<close> of \<open>rt.rs\<close>): how a
  role's event endpoints become nodes of the workers' packet processors, and how
  \<open>add_topic_subscription\<close> makes every other worker redirect a topic to the subscribing
  worker.

  The runtime state is the shared \<open>globals\<close> context map (\<open>Arc<Mutex<ContextMap>>\<close>,
  here with keys \<open>(class name, key)\<close> and the \<open>u64\<close> worker mask of
  \<open>TopicSubscriptions\<close> as values) and the packet processor of every worker, indexed by
  worker id.  User closures and queues are named by numbers, as in \<open>PacketProcessor\<close>.
  \<open>add_node\<close>'s \<open>locked\<close> argument says whether the worker is inside a dispatch
  (the handler table's write lock is taken); setup run through \<open>run_once\<close> is not.
  \<open>1 << worker_id\<close> on a \<open>u64\<close> is written with release semantics, where the shift
  amount is taken modulo 64 (a debug build panics instead).
\<close>

section \<open>RoleSetup\<close>

record role_setup =
  rs_plane_id :: u32
  rs_role_id :: u64
  rs_endpoint_addr :: endpoint_addr
  rs_worker_id :: worker_id
  rs_object_path :: "string list"

definition role_setup_new ::
    "string \<Rightarrow> worker_id \<Rightarrow> u32 \<Rightarrow> u64 \<Rightarrow> endpoint_addr \<Rightarrow> role_setup" where
  "role_setup_new root_object_name w plane_id role_id endpoint_addr =
     \<lparr>rs_plane_id = plane_id, rs_role_id = role_id, rs_endpoint_addr = endpoint_addr,
      rs_worker_id = w, rs_object_path = [root_object_name]\<rparr>"

definition push_object_path :: "string \<Rightarrow> role_setup \<Rightarrow> role_setup" where
  "push_object_path name s = s\<lparr>rs_object_path := rs_object_path s @ [name]\<rparr>"

definition pop_object_path :: "role_setup \<Rightarrow> role_setup" where
  "pop_object_path s = s\<lparr>rs_object_path := butlast (rs_object_path s)\<rparr>"

definition get_object_path :: "role_setup \<Rightarrow> string \<Rightarrow> string" where
  "get_object_path s end_name = concat (map (\<lambda>n. n @ ''.'') (rs_object_path s)) @ end_name"

text \<open>\<open>RoleSetup::event_tx\<close>: the role's packet sender writes the role's endpoint
  address as the source.\<close>

definition setup_event_tx :: "role_setup \<Rightarrow> u32 \<Rightarrow> event_tx" where
  "setup_event_tx s topic =
     \<lparr>etx_source = rs_endpoint_addr s, etx_plane_id = rs_plane_id s, etx_topic = topic\<rparr>"

record event_rx_builder =
  erb_topic :: u32
  erb_object_path :: string

definition setup_event_rx :: "role_setup \<Rightarrow> string \<Rightarrow> u32 \<Rightarrow> event_rx_builder" where
  "setup_event_rx s name topic = \<lparr>erb_topic = topic, erb_object_path = get_object_path s name\<rparr>"

section \<open>Workers and the runtime\<close>

record rt_state =
  rt_globals :: "(string \<times> topic_key, u64, modrpc_context_tag) context_map"
  rt_pps :: "packet_processor list"

text \<open>A packet-processor operation on the worker with the given id.\<close>

definition on_worker ::
    "worker_id \<Rightarrow> (packet_processor \<Rightarrow> pp_error + packet_processor) \<Rightarrow> rt_state \<Rightarrow> pp_error + rt_state" where
  "on_worker w f st =
     (if unat w < length (rt_pps st)
      then (case f (rt_pps st ! unat w) of
              Inl e \<Rightarrow> Inl e
            | Inr pp \<Rightarrow> Inr (st\<lparr>rt_pps := (rt_pps st)[unat w := pp]\<rparr>))
      else Inr st)"

definition wc_add_handler ::
    "bool \<Rightarrow> worker_id \<Rightarrow> string \<Rightarrow> u8 \<Rightarrow> u32 \<Rightarrow> u32 \<Rightarrow> nat \<Rightarrow> rt_state \<Rightarrow> pp_error + rt_state" where
  "wc_add_handler locked w name filt plane topic h = on_worker w (add_node locked name filt plane topic (Inline h))"

definition wc_add_local_queue ::
    "bool \<Rightarrow> worker_id \<Rightarrow> string \<Rightarrow> u8 \<Rightarrow> u32 \<Rightarrow> u32 \<Rightarrow> nat \<Rightarrow> rt_state \<Rightarrow> pp_error + rt_state" where
  "wc_add_local_queue locked w name filt plane topic q = on_worker w (add_node locked name filt plane topic (LocalQueue q))"

definition wc_route_to_local_queue ::
    "bool \<Rightarrow> worker_id \<Rightarrow> string \<Rightarrow> u8 \<Rightarrow> u32 \<Rightarrow> u32 \<Rightarrow> nat \<Rightarrow> rt_state \<Rightarrow> pp_error + rt_state" where
  "wc_route_to_local_queue locked w name filt plane topic h =
     on_worker w (add_node locked name filt plane topic (RouteToLocalQueue h))"

definition wc_add_redirect_to_worker ::
    "bool \<Rightarrow> worker_id \<Rightarrow> string \<Rightarrow> u8 \<Rightarrow> u32 \<Rightarrow> u32 \<Rightarrow> worker_id \<Rightarrow> rt_state \<Rightarrow> pp_error + rt_state" where
  "wc_add_redirect_to_worker locked w name filt plane topic to =
     on_worker w (add_node locked name filt plane topic (ToWorker to))"

definition wc_route_to_worker ::
    "bool \<Rightarrow> worker_id \<Rightarrow> string \<Rightarrow> u8 \<Rightarrow> u32 \<Rightarrow> u32 \<Rightarrow> nat \<Rightarrow> rt_state \<Rightarrow> pp_error + rt_state" where
  "wc_route_to_worker locked w name filt plane topic h =
     on_worker w (add_node locked name filt plane topic (RouteToWorker h))"

text \<open>\<open>run_on_all_other_workers\<close>: run the command on every worker handle in order,
  skipping the calling worker.\<close>

definition run_on_all_other_workers ::
    "worker_id \<Rightarrow> (worker_id \<Rightarrow> rt_state \<Rightarrow> pp_error + rt_state) \<Rightarrow> rt_state \<Rightarrow> pp_error + rt_state" where
  "run_on_all_other_workers w f st =
     fold_sum (\<lambda>i. f (of_nat i)) (filter (\<lambda>i. i \<noteq> unat w) [0..<length (rt_pps st)]) st"

section \<open>Topic subscriptions\<close>

definition topic_subscriptions_new :: "unit \<Rightarrow> u64" where
  "topic_subscriptions_new _ = 0"

definition local_worker_mask :: "worker_id \<Rightarrow> u64" where
  "local_worker_mask w = push_bit (unat w mod 64) 1"

definition topic_subscription_update :: "worker_id \<Rightarrow> u64 \<Rightarrow> u64 \<times> bool" where
  "topic_subscription_update w wmask =
     (if wmask AND local_worker_mask w \<noteq> 0 then (wmask, False)
      else (wmask OR local_worker_mask w, True))"

definition add_topic_subscription ::
    "worker_id \<Rightarrow> string \<Rightarrow> u32 \<Rightarrow> u32 \<Rightarrow> rt_state \<Rightarrow> pp_error + rt_state" where
  "add_topic_subscription w object_path plane topic st =
     (let (needs_handler, g) =
          with_inner topic_subscriptions_new (Worker w) (''TopicSubscriptions'', (plane, topic)) ()
            (topic_subscription_update w) (rt_globals st);
          st1 = st\<lparr>rt_globals := g\<rparr>
      in if needs_handler
         then run_on_all_other_workers w
                (\<lambda>i. wc_add_redirect_to_worker False i object_path PACKET_PROCESSOR_SOURCE_NEW plane topic w) st1
         else Inr st1)"

section \<open>Router setups\<close>

record inline_rx_router_setup =
  irs_setup :: role_setup
  irs_object_path :: string
  irs_topic :: u32
  irs_handler :: nat

definition erb_inline_untyped :: "event_rx_builder \<Rightarrow> role_setup \<Rightarrow> nat \<Rightarrow> inline_rx_router_setup" where
  "erb_inline_untyped b s h =
     \<lparr>irs_setup = s, irs_object_path = erb_object_path b, irs_topic = erb_topic b, irs_handler = h\<rparr>"

definition irs_subscribe :: "bool \<Rightarrow> inline_rx_router_setup \<Rightarrow> rt_state \<Rightarrow> pp_error + rt_state" where
  "irs_subscribe locked r st =
     (let s = irs_setup r
      in case wc_add_handler locked (rs_worker_id s) (irs_object_path r) PACKET_PROCESSOR_SOURCE_ANY
                (rs_plane_id s) (irs_topic r) (irs_handler r) st of
           Inl e \<Rightarrow> Inl e
         | Inr st1 \<Rightarrow> add_topic_subscription (rs_worker_id s) (irs_object_path r) (rs_plane_id s) (irs_topic r) st1)"

definition irs_local :: "bool \<Rightarrow> inline_rx_router_setup \<Rightarrow> rt_state \<Rightarrow> pp_error + rt_state" where
  "irs_local locked r st =
     (let s = irs_setup r
      in wc_add_handler locked (rs_worker_id s) (irs_object_path r) PACKET_PROCESSOR_SOURCE_ANY
           (rs_plane_id s) (irs_topic r) (irs_handler r) st)"

definition irs_from_inter_worker :: "bool \<Rightarrow> inline_rx_router_setup \<Rightarrow> rt_state \<Rightarrow> pp_error + rt_state" where
  "irs_from_inter_worker locked r st =
     (let s = irs_setup r
      in wc_add_handler locked (rs_worker_id s) (irs_object_path r) PACKET_PROCESSOR_SOURCE_INTER_WORKER
           (rs_plane_id s) (irs_topic r) (irs_handler r) st)"

record queued_rx_router_setup =
  qrs_setup :: role_setup
  qrs_object_path :: string
  qrs_topic :: u32
  qrs_queue :: nat

text \<open>\<open>queued\<close> also spawns the task that drains the queue (\<open>handle_events_step\<close>).\<close>

definition erb_queued :: "event_rx_builder \<Rightarrow> role_setup \<Rightarrow> nat \<Rightarrow> queued_rx_router_setup" where
  "erb_queued b s q =
     \<lparr>qrs_setup = s, qrs_object_path = erb_object_path b, qrs_topic = erb_topic b, qrs_queue = q\<rparr>"

definition qrs_subscribe :: "bool \<Rightarrow> queued_rx_router_setup \<Rightarrow> rt_state \<Rightarrow> pp_error + rt_state" where
  "qrs_subscribe locked r st =
     (let s = qrs_setup r
      in case wc_add_local_queue locked (rs_worker_id s) (qrs_object_path r) PACKET_PROCESSOR_SOURCE_ANY
                (rs_plane_id s) (qrs_topic r) (qrs_queue r) st of
           Inl e \<Rightarrow> Inl e
         | Inr st1 \<Rightarrow> add_topic_subscription (rs_worker_id s) (qrs_object_path r) (rs_plane_id s) (qrs_topic r) st1)"

definition qrs_local :: "bool \<Rightarrow> queued_rx_router_setup \<Rightarrow> rt_state \<Rightarrow> pp_error + rt_state" where
  "qrs_local locked r st =
     (let s = qrs_setup r
      in wc_add_local_queue locked (rs_worker_id s) (qrs_object_path r) PACKET_PROCESSOR_SOURCE_ANY
           (rs_plane_id s) (qrs_topic r) (qrs_queue r) st)"

text \<open>One turn of \<open>handle_events_async\<close> and \<open>handle_untyped_async\<close>: the packet
  received from the queue, and the handler call it makes (\<open>None\<close> when the header or
  the payload does not decode).\<close>

definition handle_events_step ::
    "(bytes \<Rightarrow> ('l \<times> bytes) option) \<Rightarrow> bytes \<Rightarrow> (endpoint_addr \<times> 'l) option" where
  "handle_events_step decLT payload_buf =
     (case decode_transmit_packet payload_buf of
        None \<Rightarrow> None
      | Some (header, _) \<Rightarrow>
          (case decLT (drop (length (encode_transmit_packet header)) payload_buf) of
             None \<Rightarrow> None
           | Some (payload, _) \<Rightarrow> Some (tp_source header, payload)))"

definition handle_untyped_step :: "bytes \<Rightarrow> (endpoint_addr \<times> bytes) option" where
  "handle_untyped_step packet =
     (case decode_transmit_packet packet of
        None \<Rightarrow> None
      | Some (header, _) \<Rightarrow> Some (tp_source header, packet))"

section \<open>Scenario\<close>

definition demo_rt :: rt_state where
  "demo_rt = \<lparr>rt_globals = new_inner, rt_pps = replicate 65 (pp_empty 65)\<rparr>"

section \<open>Lemmas\<close>

lemma with_inner_result:
  assumes "cm_wf cm" "with_inner new tag k p f cm = (u, cm')"
  shows "cm_wf cm' \<and> u = snd (f (case cm_abs cm k of None \<Rightarrow> new p | Some w \<Rightarrow> w)) \<and>
         cm_abs cm' k = Some (fst (f (case cm_abs cm k of None \<Rightarrow> new p | Some w \<Rightarrow> w)))"
  using with_inner_fn_correct [of cm tag k "new p" f u cm'] assms
  by (auto simp: with_inner_def with_spec_def prod.case_eq_if)

lemma on_worker_globals:
  "on_worker w f st = Inr st' \<Longrightarrow> rt_globals st' = rt_globals st"
  by (auto simp: on_worker_def split: if_splits sum.splits)

lemma fold_sum_globals:
  "(\<And>i s s'. f i s = Inr s' \<Longrightarrow> rt_globals s' = rt_globals s) \<Longrightarrow>
   fold_sum f xs st = Inr st' \<Longrightarrow> rt_globals st' = rt_globals st"
  by (induction xs arbitrary: st) (fastforce split: sum.splits)+

lemma local_worker_mask_nonzero: "local_worker_mask w \<noteq> 0"
proof -
  have "bit (local_worker_mask w) (unat w mod 64)"
    by (simp add: local_worker_mask_def bit_push_bit_iff bit_exp_iff)
  then show ?thesis by auto
qed

lemma or_and_self: "(x OR m) AND m = (m :: 'a::len word)"
  by (simp add: bit_eq_iff bit_and_iff bit_or_iff)

lemma add_topic_subscription_globals:
  assumes "cm_wf (rt_globals st)" "add_topic_subscription w path plane topic st = Inr st1"
  shows "cm_wf (rt_globals st1) \<and>
    (\<exists>m. cm_abs (rt_globals st1) (''TopicSubscriptions'', (plane, topic)) = Some m \<and>
         m AND local_worker_mask w \<noteq> 0)"
proof -
  obtain u g where wi: "with_inner topic_subscriptions_new (Worker w) (''TopicSubscriptions'', (plane, topic)) ()
            (topic_subscription_update w) (rt_globals st) = (u, g)"
    by (cases "with_inner topic_subscriptions_new (Worker w) (''TopicSubscriptions'', (plane, topic)) ()
            (topic_subscription_update w) (rt_globals st)")
  note r = with_inner_result [OF assms(1) wi]
  have g: "rt_globals st1 = g"
  proof (cases u)
    case True
    then have "run_on_all_other_workers w
        (\<lambda>i. wc_add_redirect_to_worker False i path PACKET_PROCESSOR_SOURCE_NEW plane topic w)
        (st\<lparr>rt_globals := g\<rparr>) = Inr st1"
      using assms(2) wi by (simp add: add_topic_subscription_def)
    then have "rt_globals st1 = rt_globals (st\<lparr>rt_globals := g\<rparr>)"
      unfolding run_on_all_other_workers_def
      by (rule fold_sum_globals [rotated]) (auto simp: wc_add_redirect_to_worker_def dest: on_worker_globals)
    then show ?thesis by simp
  next
    case False
    then show ?thesis using assms(2) wi by (auto simp: add_topic_subscription_def)
  qed
  define m0 where "m0 = (case cm_abs (rt_globals st) (''TopicSubscriptions'', (plane, topic)) of
                           None \<Rightarrow> topic_subscriptions_new () | Some w \<Rightarrow> w)"
  have "fst (topic_subscription_update w m0) AND local_worker_mask w \<noteq> 0"
    using local_worker_mask_nonzero [of w] or_and_self [of m0 "local_worker_mask w"]
    by (simp add: topic_subscription_update_def)
  then show ?thesis using r g by (auto simp: m0_def)
qed

text \<open>
  Claim C29. add_topic_subscription keeps one u64 mask of subscribed workers per topic and
  tests bit worker_id with 1 << worker_id, whose shift is taken modulo 64: once a worker has
  subscribed, a worker whose id is equal modulo 64 finds its bit set and installs no redirect
  on any other worker, so it never receives the topic's packets from them.
\<close>

theorem subscription_mask_aliases:
  assumes "cm_wf (rt_globals st)" "add_topic_subscription w path plane topic st = Inr st1"
    and "unat w' mod 64 = unat w mod 64"
  shows "\<exists>g. add_topic_subscription w' path' plane topic st1 = Inr (st1\<lparr>rt_globals := g\<rparr>)"
proof -
  obtain m where wf: "cm_wf (rt_globals st1)"
      and m: "cm_abs (rt_globals st1) (''TopicSubscriptions'', (plane, topic)) = Some m"
      and bit: "m AND local_worker_mask w \<noteq> 0"
    using add_topic_subscription_globals [OF assms(1,2)] by blast
  have lm: "local_worker_mask w' = local_worker_mask w"
    using assms(3) by (simp add: local_worker_mask_def)
  obtain u g where wi: "with_inner topic_subscriptions_new (Worker w') (''TopicSubscriptions'', (plane, topic)) ()
            (topic_subscription_update w') (rt_globals st1) = (u, g)"
    by (cases "with_inner topic_subscriptions_new (Worker w') (''TopicSubscriptions'', (plane, topic)) ()
            (topic_subscription_update w') (rt_globals st1)")
  have "\<not> u" using with_inner_result [OF wf wi] m bit lm by (simp add: topic_subscription_update_def)
  then show ?thesis using wi by (intro exI [of _ g]) (simp add: add_topic_subscription_def)
qed

lemma demo_rt_sub0: "\<not> isl (add_topic_subscription 0 ''a.item'' 1 2 demo_rt)"
  by code_simp

theorem subscription_mask_aliases_witness:
  "cm_wf (rt_globals demo_rt) \<and>
   add_topic_subscription 0 ''a.item'' 1 2 demo_rt = Inr (projr (add_topic_subscription 0 ''a.item'' 1 2 demo_rt)) \<and>
   unat (64::u16) mod 64 = unat (0::u16) mod 64 \<and>
   (\<exists>g. add_topic_subscription 64 ''b.item'' 1 2 (projr (add_topic_subscription 0 ''a.item'' 1 2 demo_rt)) =
        Inr ((projr (add_topic_subscription 0 ''a.item'' 1 2 demo_rt))\<lparr>rt_globals := g\<rparr>))"
proof -
  have wf: "cm_wf (rt_globals demo_rt)" by (simp add: demo_rt_def new_inner_wf)
  have eq: "add_topic_subscription 0 ''a.item'' 1 2 demo_rt = Inr (projr (add_topic_subscription 0 ''a.item'' 1 2 demo_rt))"
    using demo_rt_sub0 by simp
  have m: "unat (64::u16) mod 64 = unat (0::u16) mod 64" by simp
  show ?thesis using subscription_mask_aliases [OF wf eq m] wf eq m by blast
qed

text \<open>
  Claim C30. For an exact payload codec, an event sent with a role's EventTx is delivered by
  the queued receiver task with the role's endpoint address as source and the payload sent.
\<close>

theorem queued_event_roundtrip:
  assumes "codec_exact encT decT"
  shows "handle_events_step decT (event_tx_send encT (setup_event_tx s topic) v) = Some (rs_endpoint_addr s, v)"
proof -
  have "decT (encT v) = Some (v, [])" using codec_exact_enc [OF assms, of v "[]"] by simp
  then show ?thesis
    by (simp add: handle_events_step_def event_tx_send_def send_raw_bytes_def setup_event_tx_def send_raw_header_def)
qed

theorem queued_event_roundtrip_witness:
  "codec_exact encode_u64 decode_u64 \<and>
   handle_events_step decode_u64
     (event_tx_send encode_u64 (setup_event_tx (role_setup_new ''root'' 0 1 2 \<lparr>endpoint = 3\<rparr>) 4) 5) =
   Some (rs_endpoint_addr (role_setup_new ''root'' 0 1 2 \<lparr>endpoint = 3\<rparr>), 5)"
  using queued_event_roundtrip [OF codec_exact_u64] codec_exact_u64 by blast

end
