(* ===== verification/RequestRoles.thy ===== *)
theory RequestRoles
  imports RoleSetup RequestTracker
begin

text \<open>
  The request interface end to end: \<open>InterfaceBuilder\<close> (\<open>crates/modrpc/src/interface_builder.rs\<close>)
  numbering the events of \<open>RequestInterface\<close> (\<open>std-modrpc/rust/src/interface.rs\<close>); the
  \<open>setup_worker\<close> of the request client and server roles (\<open>roles/request_client.rs\<close>,
  \<open>roles/request_server.rs\<close>); and the setup the role implementations
  (\<open>role_impls/request_client.rs\<close>, \<open>role_impls/request_server.rs\<close>) perform on the
  worker's packet processor: \<open>RequestClientBuilder::build\<close> installs two inline handlers
  and a route-to-worker node, \<open>RequestServerBuilder::build\<close> a queued handler behind a
  load balancer (\<open>spawn_load_balancer\<close> of \<open>load_balancer.rs\<close>, its route closure and pull
  task being modelled in \<open>LoadBalancer\<close>).

  Closures are named by numbers as in \<open>PacketProcessor\<close>; what they do is given by
  separate definitions.  An \<open>EventRxBuilder\<close> is \<open>event_rx_builder\<close> of \<open>RoleSetup\<close>, an
  \<open>EventTx\<close> is \<open>event_tx\<close> of \<open>Roles\<close>; one-field stub and hook structs are their field.
\<close>

section \<open>InterfaceBuilder\<close>

record modrpc_interface_event =
  ie_name :: string
  ie_topic :: u32

text \<open>\<open>InterfaceBuilder\<close> is its \<open>next_topic\<close> counter; \<open>+= 1\<close> on the \<open>u32\<close> is written
  with release semantics (wrapping).\<close>

definition interface_builder_new :: u32 where
  "interface_builder_new = 0"

definition ib_event :: "string \<Rightarrow> u32 \<Rightarrow> modrpc_interface_event \<times> u32" where
  "ib_event name next_topic = (\<lparr>ie_name = name, ie_topic = next_topic\<rparr>, next_topic + 1)"

record request_interface =
  ri_request :: modrpc_interface_event
  ri_response :: modrpc_interface_event

definition request_interface_new :: "u32 \<Rightarrow> request_interface \<times> u32" where
  "request_interface_new ib =
     (let (request, ib1) = ib_event ''request'' ib;
          (response, ib2) = ib_event ''response'' ib1
      in (\<lparr>ri_request = request, ri_response = response\<rparr>, ib2))"

section \<open>setup_worker of the request roles\<close>

record request_client_stubs =
  rcs_request :: event_rx_builder
  rcs_response :: event_rx_builder

definition request_client_setup_worker ::
    "request_interface \<Rightarrow> role_setup \<Rightarrow> request_client_stubs \<times> event_tx" where
  "request_client_setup_worker i s =
     (\<lparr>rcs_request = setup_event_rx s (ie_name (ri_request i)) (ie_topic (ri_request i)),
       rcs_response = setup_event_rx s (ie_name (ri_response i)) (ie_topic (ri_response i))\<rparr>,
      setup_event_tx s (ie_topic (ri_request i)))"

definition request_server_setup_worker ::
    "request_interface \<Rightarrow> role_setup \<Rightarrow> event_rx_builder \<times> event_tx" where
  "request_server_setup_worker i s =
     (setup_event_rx s (ie_name (ri_request i)) (ie_topic (ri_request i)),
      setup_event_tx s (ie_topic (ri_response i)))"

section \<open>More of EventRxBuilder and the load balancer's setup\<close>

text \<open>\<open>EventRxBuilder::route_to_worker\<close> routes only novel packets.\<close>

definition erb_route_to_worker ::
    "bool \<Rightarrow> event_rx_builder \<Rightarrow> role_setup \<Rightarrow> nat \<Rightarrow> rt_state \<Rightarrow> pp_error + rt_state" where
  "erb_route_to_worker locked b s h =
     wc_route_to_worker locked (rs_worker_id s) (erb_object_path b) PACKET_PROCESSOR_SOURCE_NEW
       (rs_plane_id s) (erb_topic b) h"

text \<open>The packet-processor part of \<open>spawn_load_balancer\<close>: the route closure
  \<open>h\<close> (\<open>lb_route_closure\<close> of \<open>LoadBalancer\<close>) on novel packets of the topic.  The shared
  queue it reaches through the globals and the pull task are \<open>LoadBalancer\<close>'s.\<close>

definition spawn_load_balancer_setup ::
    "bool \<Rightarrow> role_setup \<Rightarrow> u32 \<Rightarrow> u32 \<Rightarrow> string \<Rightarrow> nat \<Rightarrow> rt_state \<Rightarrow> pp_error + rt_state" where
  "spawn_load_balancer_setup locked s plane_id topic object_path h =
     wc_route_to_local_queue locked (rs_worker_id s) object_path PACKET_PROCESSOR_SOURCE_NEW plane_id topic h"

definition qrs_load_balance ::
    "bool \<Rightarrow> queued_rx_router_setup \<Rightarrow> nat \<Rightarrow> rt_state \<Rightarrow> pp_error + rt_state" where
  "qrs_load_balance locked r h =
     spawn_load_balancer_setup locked (qrs_setup r) (rs_plane_id (qrs_setup r)) (qrs_topic r) (qrs_object_path r) h"

section \<open>RequestClient\<close>

record request_client =
  rc_worker_id :: u16
  rc_request_tx :: event_tx

definition rc_create_handle :: "event_tx \<Rightarrow> role_setup \<Rightarrow> request_client" where
  "rc_create_handle hooks s = \<lparr>rc_worker_id = rs_worker_id s, rc_request_tx = hooks\<rparr>"

text \<open>\<open>RequestClientBuilder::build\<close>: the request topic's inline handler and the response
  topic's inline handler, both local, then the response topic's route to the requesting
  worker; \<open>h_request\<close>, \<open>h_response\<close> and \<open>h_route\<close> name the three closures.\<close>

definition rc_build ::
    "bool \<Rightarrow> request_client_stubs \<Rightarrow> role_setup \<Rightarrow> nat \<Rightarrow> nat \<Rightarrow> nat \<Rightarrow> rt_state \<Rightarrow> pp_error + rt_state" where
  "rc_build locked stubs s h_request h_response h_route st =
     (case irs_local locked (erb_inline_untyped (rcs_request stubs) s h_request) st of
        Inl e \<Rightarrow> Inl e
      | Inr st1 \<Rightarrow>
          (case irs_local locked (erb_inline_untyped (rcs_response stubs) s h_response) st1 of
             Inl e \<Rightarrow> Inl e
           | Inr st2 \<Rightarrow> erb_route_to_worker locked (rcs_response stubs) s h_route st2))"

text \<open>The first two closures of \<open>build\<close>; the third is \<open>response_route\<close> of
  \<open>RequestTracker\<close>.\<close>

definition rc_request_closure ::
    "nat \<Rightarrow> role_setup \<Rightarrow> u32 \<Rightarrow> endpoint_addr \<Rightarrow> packet \<Rightarrow> request_tracker
     \<Rightarrow> rt_error + request_tracker \<times> rt_effect list" where
  "rc_request_closure tb s request_topic source pkt tr =
     handle_request tb (rs_plane_id s) request_topic (endpoint source) pkt tr"

definition rc_response_closure ::
    "nat \<Rightarrow> role_setup \<Rightarrow> packet \<Rightarrow> request_tracker \<Rightarrow> rt_error + request_tracker \<times> rt_effect list" where
  "rc_response_closure tb s pkt tr =
     handle_response tb (rs_plane_id s) (endpoint (rs_endpoint_addr s)) (rs_worker_id s) pkt tr"

text \<open>\<open>RequestClient::subscribe\<close> on worker \<open>w\<close> (the \<open>local_worker_context\<close>): the
  inter-worker subscription to the request topic, under the object path \<open>"todo"\<close> of the
  source, then the tracker callback \<open>cb\<close>.\<close>

definition rc_subscribe ::
    "request_client \<Rightarrow> worker_id \<Rightarrow> nat \<Rightarrow> rt_state \<times> request_tracker \<Rightarrow> pp_error + rt_state \<times> request_tracker" where
  "rc_subscribe c w cb stt =
     (let tx = rc_request_tx c
      in case add_topic_subscription w ''todo'' (etx_plane_id tx) (etx_topic tx) (fst stt) of
           Inl e \<Rightarrow> Inl e
         | Inr st1 \<Rightarrow> Inr (st1, rt_subscribe (etx_plane_id tx) (etx_topic tx) cb (snd stt)))"

text \<open>The task the subscription callback spawns: decode the header and the request's
  payload and call the user's subscription with the source (\<open>None\<close>: a decode failure
  returns early); slicing a packet shorter than a header panics.\<close>

definition rc_subscription_callback ::
    "nat \<Rightarrow> (bytes \<Rightarrow> ('q \<times> bytes) option) \<Rightarrow> packet \<Rightarrow> rt_error + (endpoint_addr \<times> 'q) option" where
  "rc_subscription_callback tb decQ pkt =
     (if length pkt < transmit_packet_base_len then Inl SliceIndexPanic else
      case decode_transmit_packet (take transmit_packet_base_len pkt) of
        None \<Rightarrow> Inr None
      | Some (header, _) \<Rightarrow>
          (case decode_request_lazy tb (drop transmit_packet_base_len pkt) of
             None \<Rightarrow> Inr None
           | Some (request, _) \<Rightarrow>
               (case request_lazy_payload decQ request of
                  None \<Rightarrow> Inr None
                | Some payload \<Rightarrow> Inr (Some (tp_source header, payload)))))"

section \<open>RequestServer\<close>

text \<open>\<open>RequestServerBuilder::build\<close> and \<open>build_replier\<close>: the request topic's queued
  handler (queue \<open>q\<close>) behind a load balancer whose route closure is \<open>h\<close>.\<close>

definition rs_build ::
    "bool \<Rightarrow> event_rx_builder \<Rightarrow> role_setup \<Rightarrow> nat \<Rightarrow> nat \<Rightarrow> rt_state \<Rightarrow> pp_error + rt_state" where
  "rs_build locked request_stub s q h = qrs_load_balance locked (erb_queued request_stub s q) h"

record response_sender =
  rsnd_tx :: event_tx
  rsnd_request_id :: u32
  rsnd_source :: endpoint_addr
  rsnd_requester_worker :: u16

definition response_sender_send :: "('t \<Rightarrow> bytes) \<Rightarrow> response_sender \<Rightarrow> 't \<Rightarrow> bytes" where
  "response_sender_send encT r v =
     event_tx_send (encode_response_gen encT) (rsnd_tx r)
       \<lparr>rsg_request_id = rsnd_request_id r, rsg_requester = endpoint (rsnd_source r),
        rsg_requester_worker = rsnd_requester_worker r, rsg_payload = v\<rparr>"

text \<open>The queued handler of \<open>build_replier\<close>: the \<open>RequestContext\<close> (its reply sender)
  and payload the user's handler is called with.\<close>

definition rs_replier_closure ::
    "(bytes \<Rightarrow> ('q \<times> bytes) option) \<Rightarrow> event_tx \<Rightarrow> endpoint_addr \<Rightarrow> bytes \<Rightarrow> (response_sender \<times> 'q) option" where
  "rs_replier_closure decQ tx source request =
     (case request_lazy_request_id request of
        None \<Rightarrow> None
      | Some request_id \<Rightarrow>
          (case request_lazy_worker request of
             None \<Rightarrow> None
           | Some requester_worker \<Rightarrow>
               (case request_lazy_payload decQ request of
                  None \<Rightarrow> None
                | Some payload \<Rightarrow>
                    Some (\<lparr>rsnd_tx = tx, rsnd_request_id = request_id, rsnd_source = source,
                            rsnd_requester_worker = requester_worker\<rparr>, payload))))"

section \<open>Scenario\<close>

text \<open>The environment of the client's closures on a worker: the tracker handlers send
  nothing through the packet processor, and \<open>h_route\<close> is \<open>response_route\<close> (which cannot
  panic on a packet whose header decoded).\<close>

definition rc_env :: "nat \<Rightarrow> role_setup \<Rightarrow> nat \<Rightarrow> handler_env" where
  "rc_env tb s h_route =
     \<lparr>inline_ops = (\<lambda>h src pkt. []), route_local = (\<lambda>h src pkt. None),
      route_worker = (\<lambda>h src pkt. if h = h_route
         then (case response_route tb (endpoint (rs_endpoint_addr s)) (rs_worker_id s) pkt of
                 Inl _ \<Rightarrow> None | Inr r \<Rightarrow> r)
         else None)\<rparr>"

definition demo_itf :: request_interface where
  "demo_itf = fst (request_interface_new interface_builder_new)"

definition demo_client :: role_setup where
  "demo_client = role_setup_new ''client'' 0 3 1 \<lparr>endpoint = 5\<rparr>"

definition demo_server :: role_setup where
  "demo_server = role_setup_new ''server'' 1 3 2 \<lparr>endpoint = 9\<rparr>"

definition demo_response :: "u32 response" where
  "demo_response = \<lparr>rs_request_id = 0, rs_requester = 5, rs_requester_worker = 1, rs_payload = 7\<rparr>"

definition demo_response_pkt :: bytes where
  "demo_response_pkt = event_tx_send (encode_response encode_u32) (snd (request_server_setup_worker demo_itf demo_server))
     demo_response"

section \<open>Setup on a worker's packet processor\<close>

lemma add_node_fresh:
  assumes "map_of (pp_handlers pp) (plane, topic) = None" "(plane, topic) \<notin> set (pp_existing_topics pp)"
  shows "\<exists>pp'. add_node False name filt plane topic b pp = Inr pp' \<and>
    map_of (pp_handlers pp') = (map_of (pp_handlers pp))((plane, topic) \<mapsto>
      \<lparr>nc_nodes = [\<lparr>source_filter = filt, body = b\<rparr>], nc_tracer = name,
       nc_plane_next_topic = map_of (pp_plane_topic_chain pp) plane\<rparr>) \<and>
    set (pp_existing_topics pp') = insert (plane, topic) (set (pp_existing_topics pp)) \<and>
    pp_mutations pp' = pp_mutations pp \<and> pp_inter_worker_senders pp' = pp_inter_worker_senders pp"
  using assms by (simp add: add_node_def add_node_impl_def update_conv')

lemma add_node_push:
  assumes "map_of (pp_handlers pp) (plane, topic) = Some chain"
  shows "\<exists>pp'. add_node False name filt plane topic b pp = Inr pp' \<and>
    map_of (pp_handlers pp') = (map_of (pp_handlers pp))((plane, topic) \<mapsto>
      chain\<lparr>nc_nodes := \<lparr>source_filter = filt, body = b\<rparr> # nc_nodes chain\<rparr>) \<and>
    set (pp_existing_topics pp') = insert (plane, topic) (set (pp_existing_topics pp)) \<and>
    pp_mutations pp' = pp_mutations pp \<and> pp_inter_worker_senders pp' = pp_inter_worker_senders pp"
  using assms by (simp add: add_node_def add_node_impl_def update_conv')

lemma on_worker_Inr:
  "unat w < length (rt_pps st) \<Longrightarrow> f (rt_pps st ! unat w) = Inr pp' \<Longrightarrow>
   on_worker w f st = Inr (st\<lparr>rt_pps := (rt_pps st)[unat w := pp']\<rparr>)"
  by (simp add: on_worker_def)

lemma rc_build_tables:
  fixes stubs :: request_client_stubs and s :: role_setup and st :: rt_state
    and hq hr hroute :: nat
  defines "w \<equiv> unat (rs_worker_id s)" and "P \<equiv> rs_plane_id s"
    and "tq \<equiv> erb_topic (rcs_request stubs)" and "tr \<equiv> erb_topic (rcs_response stubs)"
  assumes w: "w < length (rt_pps st)"
    and fq: "map_of (pp_handlers (rt_pps st ! w)) (P, tq) = None" "(P, tq) \<notin> set (pp_existing_topics (rt_pps st ! w))"
    and fr: "map_of (pp_handlers (rt_pps st ! w)) (P, tr) = None" "(P, tr) \<notin> set (pp_existing_topics (rt_pps st ! w))"
    and ne: "tq \<noteq> tr"
  shows "\<exists>st' chain. rc_build False stubs s hq hr hroute st = Inr st' \<and> w < length (rt_pps st') \<and>
     map_of (pp_handlers (rt_pps st' ! w)) (P, tr) = Some chain \<and>
     nc_nodes chain = [\<lparr>source_filter = PACKET_PROCESSOR_SOURCE_NEW, body = RouteToWorker hroute\<rparr>,
                       \<lparr>source_filter = PACKET_PROCESSOR_SOURCE_ANY, body = Inline hr\<rparr>] \<and>
     pp_mutations (rt_pps st' ! w) = pp_mutations (rt_pps st ! w) \<and>
     pp_inter_worker_senders (rt_pps st' ! w) = pp_inter_worker_senders (rt_pps st ! w)"
proof -
  obtain pp1 where a1: "add_node False (erb_object_path (rcs_request stubs)) PACKET_PROCESSOR_SOURCE_ANY P tq
        (Inline hq) (rt_pps st ! w) = Inr pp1"
    and m1: "map_of (pp_handlers pp1) = (map_of (pp_handlers (rt_pps st ! w)))((P, tq) \<mapsto>
      \<lparr>nc_nodes = [\<lparr>source_filter = PACKET_PROCESSOR_SOURCE_ANY, body = Inline hq\<rparr>],
       nc_tracer = erb_object_path (rcs_request stubs),
       nc_plane_next_topic = map_of (pp_plane_topic_chain (rt_pps st ! w)) P\<rparr>)"
    and e1: "set (pp_existing_topics pp1) = insert (P, tq) (set (pp_existing_topics (rt_pps st ! w)))"
    and u1: "pp_mutations pp1 = pp_mutations (rt_pps st ! w)"
      "pp_inter_worker_senders pp1 = pp_inter_worker_senders (rt_pps st ! w)"
    using add_node_fresh [OF fq] by blast
  define st1 where "st1 = st\<lparr>rt_pps := (rt_pps st)[w := pp1]\<rparr>"
  have r1: "irs_local False (erb_inline_untyped (rcs_request stubs) s hq) st = Inr st1"
    using w a1 by (simp add: irs_local_def erb_inline_untyped_def wc_add_handler_def on_worker_def
        st1_def w_def P_def tq_def)
  have w1: "w < length (rt_pps st1)" "rt_pps st1 ! w = pp1"
    using w by (simp_all add: st1_def)
  have fr1: "map_of (pp_handlers pp1) (P, tr) = None" "(P, tr) \<notin> set (pp_existing_topics pp1)"
    using m1 e1 fr ne by auto
  obtain pp2 where a2: "add_node False (erb_object_path (rcs_response stubs)) PACKET_PROCESSOR_SOURCE_ANY P tr
        (Inline hr) pp1 = Inr pp2"
    and m2: "map_of (pp_handlers pp2) = (map_of (pp_handlers pp1))((P, tr) \<mapsto>
      \<lparr>nc_nodes = [\<lparr>source_filter = PACKET_PROCESSOR_SOURCE_ANY, body = Inline hr\<rparr>],
       nc_tracer = erb_object_path (rcs_response stubs),
       nc_plane_next_topic = map_of (pp_plane_topic_chain pp1) P\<rparr>)"
    and u2: "pp_mutations pp2 = pp_mutations pp1" "pp_inter_worker_senders pp2 = pp_inter_worker_senders pp1"
    using add_node_fresh [OF fr1] by blast
  define st2 where "st2 = st1\<lparr>rt_pps := (rt_pps st1)[w := pp2]\<rparr>"
  have r2: "irs_local False (erb_inline_untyped (rcs_response stubs) s hr) st1 = Inr st2"
    using w1 a2 by (simp add: irs_local_def erb_inline_untyped_def wc_add_handler_def on_worker_def
        st2_def w_def P_def tr_def)
  have w2: "w < length (rt_pps st2)" "rt_pps st2 ! w = pp2"
    using w1 by (simp_all add: st2_def)
  obtain pp3 where a3: "add_node False (erb_object_path (rcs_response stubs)) PACKET_PROCESSOR_SOURCE_NEW P tr
        (RouteToWorker hroute) pp2 = Inr pp3"
    and m3: "map_of (pp_handlers pp3) (P, tr) = Some
      \<lparr>nc_nodes = [\<lparr>source_filter = PACKET_PROCESSOR_SOURCE_NEW, body = RouteToWorker hroute\<rparr>,
                   \<lparr>source_filter = PACKET_PROCESSOR_SOURCE_ANY, body = Inline hr\<rparr>],
       nc_tracer = erb_object_path (rcs_response stubs),
       nc_plane_next_topic = map_of (pp_plane_topic_chain pp1) P\<rparr>"
    and u3: "pp_mutations pp3 = pp_mutations pp2" "pp_inter_worker_senders pp3 = pp_inter_worker_senders pp2"
  proof -
    let ?c2 = "\<lparr>nc_nodes = [\<lparr>source_filter = PACKET_PROCESSOR_SOURCE_ANY, body = Inline hr\<rparr>],
       nc_tracer = erb_object_path (rcs_response stubs),
       nc_plane_next_topic = map_of (pp_plane_topic_chain pp1) P\<rparr>"
    have c2: "map_of (pp_handlers pp2) (P, tr) = Some ?c2" using m2 by simp
    show ?thesis
      using add_node_push [OF c2, where name = "erb_object_path (rcs_response stubs)"
          and filt = PACKET_PROCESSOR_SOURCE_NEW and b = "RouteToWorker hroute"] that by auto
  qed
  define st3 where "st3 = st2\<lparr>rt_pps := (rt_pps st2)[w := pp3]\<rparr>"
  have r3: "erb_route_to_worker False (rcs_response stubs) s hroute st2 = Inr st3"
    using w2 a3 by (simp add: erb_route_to_worker_def wc_route_to_worker_def on_worker_def
        st3_def w_def P_def tr_def)
  have "rc_build False stubs s hq hr hroute st = Inr st3"
    by (simp add: rc_build_def r1 r2 r3)
  moreover have "w < length (rt_pps st3)" "rt_pps st3 ! w = pp3"
    using w2 by (simp_all add: st3_def)
  ultimately show ?thesis
    using m3 u1 u2 u3 by auto
qed

text \<open>\<open>RequestServerBuilder::build\<close> on a fresh request topic leaves a single node: the
  load balancer's route closure, on novel packets only.\<close>

lemma rs_build_tables:
  assumes w: "unat (rs_worker_id s) < length (rt_pps st)"
    and f: "map_of (pp_handlers (rt_pps st ! unat (rs_worker_id s))) (rs_plane_id s, erb_topic b) = None"
      "(rs_plane_id s, erb_topic b) \<notin> set (pp_existing_topics (rt_pps st ! unat (rs_worker_id s)))"
  shows "\<exists>st'. rs_build False b s q h st = Inr st' \<and>
     map_of (pp_handlers (rt_pps st' ! unat (rs_worker_id s))) (rs_plane_id s, erb_topic b) =
       Some \<lparr>nc_nodes = [\<lparr>source_filter = PACKET_PROCESSOR_SOURCE_NEW, body = RouteToLocalQueue h\<rparr>],
             nc_tracer = erb_object_path b,
             nc_plane_next_topic = map_of (pp_plane_topic_chain (rt_pps st ! unat (rs_worker_id s))) (rs_plane_id s)\<rparr>"
proof -
  obtain pp' where a: "add_node False (erb_object_path b) PACKET_PROCESSOR_SOURCE_NEW (rs_plane_id s) (erb_topic b)
      (RouteToLocalQueue h) (rt_pps st ! unat (rs_worker_id s)) = Inr pp'"
    and m: "map_of (pp_handlers pp') = (map_of (pp_handlers (rt_pps st ! unat (rs_worker_id s))))
      ((rs_plane_id s, erb_topic b) \<mapsto>
       \<lparr>nc_nodes = [\<lparr>source_filter = PACKET_PROCESSOR_SOURCE_NEW, body = RouteToLocalQueue h\<rparr>],
        nc_tracer = erb_object_path b,
        nc_plane_next_topic = map_of (pp_plane_topic_chain (rt_pps st ! unat (rs_worker_id s))) (rs_plane_id s)\<rparr>)"
    using add_node_fresh [OF f] by blast
  show ?thesis
    using w a m
    by (simp add: rs_build_def qrs_load_balance_def spawn_load_balancer_setup_def erb_queued_def
        wc_route_to_local_queue_def on_worker_def)
qed

text \<open>A chain of a route-to-worker node on novel packets over an inline handler,
  as \<open>RequestClientBuilder::build\<close> leaves the response topic.\<close>

lemma route_inline_chain:
  assumes hdr: "decode_transmit_packet pkt = Some (hdr, rest)"
    and ch: "map_of (pp_handlers pp) (tp_plane_id hdr, tp_topic hdr) = Some chain"
      "nc_nodes chain = [\<lparr>source_filter = PACKET_PROCESSOR_SOURCE_NEW, body = RouteToWorker h\<rparr>,
                         \<lparr>source_filter = PACKET_PROCESSOR_SOURCE_ANY, body = Inline h2\<rparr>]"
    and mu: "pp_mutations pp = []" and ops: "inline_ops env h2 (tp_source hdr) pkt = []"
  shows "handle_packet env PACKET_PROCESSOR_SOURCE_NEW pkt pp = Inr (pp,
      (case route_worker env h (tp_source hdr) pkt of
         None \<Rightarrow> []
       | Some w' \<Rightarrow> if unat w' < length (pp_inter_worker_senders pp) \<and> pp_inter_worker_senders pp ! unat w'
                   then [WorkerPush w' pkt] else []) @
      [HandlerCall h2 (tp_plane_id hdr, tp_topic hdr) (tp_source hdr) pkt,
       HandlerReturn h2 (tp_plane_id hdr, tp_topic hdr)])"
    and "handle_packet env PACKET_PROCESSOR_SOURCE_INTER_WORKER pkt pp = Inr (pp,
      [HandlerCall h2 (tp_plane_id hdr, tp_topic hdr) (tp_source hdr) pkt,
       HandlerReturn h2 (tp_plane_id hdr, tp_topic hdr)])"
proof -
  have pp: "pp\<lparr>pp_mutations := []\<rparr> = pp" using mu by simp
  show "handle_packet env PACKET_PROCESSOR_SOURCE_NEW pkt pp = Inr (pp,
      (case route_worker env h (tp_source hdr) pkt of
         None \<Rightarrow> []
       | Some w' \<Rightarrow> if unat w' < length (pp_inter_worker_senders pp) \<and> pp_inter_worker_senders pp ! unat w'
                   then [WorkerPush w' pkt] else []) @
      [HandlerCall h2 (tp_plane_id hdr, tp_topic hdr) (tp_source hdr) pkt,
       HandlerReturn h2 (tp_plane_id hdr, tp_topic hdr)])"
    using hdr ch mu ops
    by (cases "route_worker env h (tp_source hdr) pkt")
       (simp_all add: handle_packet_def to_worker_step_def emit_def pp Let_def
          PACKET_PROCESSOR_SOURCE_NEW_def PACKET_PROCESSOR_SOURCE_ANY_def)
  show "handle_packet env PACKET_PROCESSOR_SOURCE_INTER_WORKER pkt pp = Inr (pp,
      [HandlerCall h2 (tp_plane_id hdr, tp_topic hdr) (tp_source hdr) pkt,
       HandlerReturn h2 (tp_plane_id hdr, tp_topic hdr)])"
    using hdr ch mu ops
    by (simp add: handle_packet_def emit_def pp Let_def PACKET_PROCESSOR_SOURCE_NEW_def
        PACKET_PROCESSOR_SOURCE_ANY_def PACKET_PROCESSOR_SOURCE_INTER_WORKER_def)
qed

lemma request_interface_topics:
  "request_interface_new ib = (i, ib') \<Longrightarrow>
   ie_topic (ri_request i) = ib \<and> ie_topic (ri_response i) = ib + 1 \<and> ib' = ib + 2"
  by (auto simp: request_interface_new_def ib_event_def)

lemma request_client_stub_topics:
  "request_client_setup_worker i s = (stubs, hooks) \<Longrightarrow>
   erb_topic (rcs_request stubs) = ie_topic (ri_request i) \<and>
   erb_topic (rcs_response stubs) = ie_topic (ri_response i) \<and>
   etx_topic hooks = ie_topic (ri_request i) \<and> etx_plane_id hooks = rs_plane_id s"
  by (auto simp: request_client_setup_worker_def setup_event_rx_def setup_event_tx_def)

text \<open>The two roles agree on the interface: the client sends requests on the topic the
  server receives, the server answers on the topic the client receives, and the two
  topics differ.\<close>

lemma request_roles_agree:
  assumes "request_interface_new ib = (i, ib')"
    and "request_client_setup_worker i sc = (stubs, hooks)"
    and "request_server_setup_worker i ss = (request_stub, response_tx)"
  shows "etx_topic hooks = erb_topic request_stub \<and> etx_topic response_tx = erb_topic (rcs_response stubs) \<and>
         erb_topic (rcs_request stubs) \<noteq> erb_topic (rcs_response stubs)"
  using assms request_interface_topics [OF assms(1)]
  by (auto simp: request_client_setup_worker_def request_server_setup_worker_def setup_event_rx_def
      setup_event_tx_def)

text \<open>
  Claim C31. A request client built on a worker whose processor has no chains for the
  interface's topics yet installs them without error; a response the server role sends
  on the same plane, for a request of another worker of the same endpoint, is forwarded
  by that worker to the requesting worker (and also seen by its own inline handler),
  while the forwarded copy, arriving from another worker, is handled inline and not
  routed again.
\<close>
theorem client_response_redirect:
  fixes s s_srv :: role_setup and r :: "'t response"
  defines "w \<equiv> unat (rs_worker_id s)"
  assumes itf: "request_interface_new ib = (i, ib')"
    and cl: "request_client_setup_worker i s = (stubs, hooks)"
    and sv: "request_server_setup_worker i s_srv = (request_stub, response_tx)"
    and plane: "rs_plane_id s_srv = rs_plane_id s"
    and w: "w < length (rt_pps st)" and mu: "pp_mutations (rt_pps st ! w) = []"
    and fq: "map_of (pp_handlers (rt_pps st ! w)) (rs_plane_id s, ie_topic (ri_request i)) = None"
      "(rs_plane_id s, ie_topic (ri_request i)) \<notin> set (pp_existing_topics (rt_pps st ! w))"
    and fr: "map_of (pp_handlers (rt_pps st ! w)) (rs_plane_id s, ie_topic (ri_response i)) = None"
      "(rs_plane_id s, ie_topic (ri_response i)) \<notin> set (pp_existing_topics (rt_pps st ! w))"
    and rq: "rs_requester r = endpoint (rs_endpoint_addr s)" "rs_requester_worker r \<noteq> rs_worker_id s"
    and snd: "unat (rs_requester_worker r) < length (pp_inter_worker_senders (rt_pps st ! w))"
      "pp_inter_worker_senders (rt_pps st ! w) ! unat (rs_requester_worker r)"
    and pkt: "pkt = event_tx_send (encode_response encT) response_tx r"
  shows "\<exists>st'. rc_build False stubs s hq hr hroute st = Inr st' \<and>
     handle_packet (rc_env tb s hroute) PACKET_PROCESSOR_SOURCE_NEW pkt (rt_pps st' ! w) =
       Inr (rt_pps st' ! w,
            [WorkerPush (rs_requester_worker r) pkt,
             HandlerCall hr (rs_plane_id s, ie_topic (ri_response i)) (rs_endpoint_addr s_srv) pkt,
             HandlerReturn hr (rs_plane_id s, ie_topic (ri_response i))]) \<and>
     handle_packet (rc_env tb s hroute) PACKET_PROCESSOR_SOURCE_INTER_WORKER pkt (rt_pps st' ! w) =
       Inr (rt_pps st' ! w,
            [HandlerCall hr (rs_plane_id s, ie_topic (ri_response i)) (rs_endpoint_addr s_srv) pkt,
             HandlerReturn hr (rs_plane_id s, ie_topic (ri_response i))])"
proof -
  have tops: "erb_topic (rcs_request stubs) = ie_topic (ri_request i)"
      "erb_topic (rcs_response stubs) = ie_topic (ri_response i)"
    using request_client_stub_topics [OF cl] by simp_all
  have ne: "erb_topic (rcs_request stubs) \<noteq> erb_topic (rcs_response stubs)"
    using request_interface_topics [OF itf] tops by simp
  obtain st' chain where b: "rc_build False stubs s hq hr hroute st = Inr st'"
    and w': "w < length (rt_pps st')"
    and ch: "map_of (pp_handlers (rt_pps st' ! w)) (rs_plane_id s, ie_topic (ri_response i)) = Some chain"
      "nc_nodes chain = [\<lparr>source_filter = PACKET_PROCESSOR_SOURCE_NEW, body = RouteToWorker hroute\<rparr>,
                         \<lparr>source_filter = PACKET_PROCESSOR_SOURCE_ANY, body = Inline hr\<rparr>]"
    and u: "pp_mutations (rt_pps st' ! w) = pp_mutations (rt_pps st ! w)"
      "pp_inter_worker_senders (rt_pps st' ! w) = pp_inter_worker_senders (rt_pps st ! w)"
    using rc_build_tables [of s st stubs hq hr hroute] w fq fr ne tops unfolding w_def by auto
  define hdr where "hdr = send_raw_header (rs_endpoint_addr s_srv) (rs_plane_id s) (ie_topic (ri_response i))
      (length (encode_response encT r))"
  have pkt': "pkt = encode_transmit_packet hdr @ encode_response encT r @ []"
  proof -
    have "response_tx = setup_event_tx s_srv (ie_topic (ri_response i))"
      using sv by (simp add: request_server_setup_worker_def)
    then show ?thesis
      using plane by (simp add: pkt hdr_def setup_event_tx_def event_tx_send_def send_raw_bytes_def)
  qed
  have dec: "decode_transmit_packet pkt = Some (hdr, encode_response encT r)"
    using pkt' by simp
  have key: "(tp_plane_id hdr, tp_topic hdr) = (rs_plane_id s, ie_topic (ri_response i))"
    "tp_source hdr = rs_endpoint_addr s_srv"
    by (simp_all add: hdr_def send_raw_header_def)
  have route: "route_worker (rc_env tb s hroute) hroute (tp_source hdr) pkt = Some (rs_requester_worker r)"
    using response_route_enc [of "encode_transmit_packet hdr" tb "endpoint (rs_endpoint_addr s)"
        "rs_worker_id s" encT r "[]"] rq
    by (simp only: pkt') (simp add: rc_env_def)
  have ops: "inline_ops (rc_env tb s hroute) hr (tp_source hdr) pkt = []"
    by (simp add: rc_env_def)
  note chain = route_inline_chain [OF dec, of "rt_pps st' ! w" chain hroute hr "rc_env tb s hroute"]
  show ?thesis
    using b chain ch key route ops mu u snd by simp
qed

theorem client_response_redirect_witness:
  "\<exists>st'. rc_build False (fst (request_client_setup_worker demo_itf demo_client)) demo_client 1 2 3 demo_rt = Inr st' \<and>
     handle_packet (rc_env 4 demo_client 3) PACKET_PROCESSOR_SOURCE_NEW demo_response_pkt (rt_pps st' ! 0) =
       Inr (rt_pps st' ! 0, [WorkerPush 1 demo_response_pkt, HandlerCall 2 (3, 1) \<lparr>endpoint = 9\<rparr> demo_response_pkt,
                             HandlerReturn 2 (3, 1)]) \<and>
     handle_packet (rc_env 4 demo_client 3) PACKET_PROCESSOR_SOURCE_INTER_WORKER demo_response_pkt (rt_pps st' ! 0) =
       Inr (rt_pps st' ! 0, [HandlerCall 2 (3, 1) \<lparr>endpoint = 9\<rparr> demo_response_pkt, HandlerReturn 2 (3, 1)])"
proof -
  have itf: "request_interface_new 0 = (demo_itf, 2)"
    by (simp add: demo_itf_def interface_builder_new_def request_interface_new_def ib_event_def)
  have ri: "ie_topic (ri_request demo_itf) = 0" "ie_topic (ri_response demo_itf) = 1"
    by (simp_all add: demo_itf_def interface_builder_new_def request_interface_new_def ib_event_def)
  have cl: "request_client_setup_worker demo_itf demo_client =
      (fst (request_client_setup_worker demo_itf demo_client), snd (request_client_setup_worker demo_itf demo_client))"
    by simp
  have sv: "request_server_setup_worker demo_itf demo_server =
      (fst (request_server_setup_worker demo_itf demo_server), snd (request_server_setup_worker demo_itf demo_server))"
    by simp
  have w0: "unat (rs_worker_id demo_client) = 0"
    by (simp add: demo_client_def role_setup_new_def)
  have pp: "rt_pps demo_rt ! 0 = pp_empty 65" "length (rt_pps demo_rt) = 65"
    by (simp_all add: demo_rt_def)
  have plane: "rs_plane_id demo_server = rs_plane_id demo_client"
    by (simp add: demo_client_def demo_server_def role_setup_new_def)
  have w: "unat (rs_worker_id demo_client) < length (rt_pps demo_rt)"
    and mu: "pp_mutations (rt_pps demo_rt ! unat (rs_worker_id demo_client)) = []"
    and fq: "map_of (pp_handlers (rt_pps demo_rt ! unat (rs_worker_id demo_client)))
               (rs_plane_id demo_client, ie_topic (ri_request demo_itf)) = None"
      "(rs_plane_id demo_client, ie_topic (ri_request demo_itf))
         \<notin> set (pp_existing_topics (rt_pps demo_rt ! unat (rs_worker_id demo_client)))"
    and fr: "map_of (pp_handlers (rt_pps demo_rt ! unat (rs_worker_id demo_client)))
               (rs_plane_id demo_client, ie_topic (ri_response demo_itf)) = None"
      "(rs_plane_id demo_client, ie_topic (ri_response demo_itf))
         \<notin> set (pp_existing_topics (rt_pps demo_rt ! unat (rs_worker_id demo_client)))"
    and snd: "unat (rs_requester_worker demo_response)
                < length (pp_inter_worker_senders (rt_pps demo_rt ! unat (rs_worker_id demo_client)))"
      "pp_inter_worker_senders (rt_pps demo_rt ! unat (rs_worker_id demo_client)) ! unat (rs_requester_worker demo_response)"
    by (simp_all add: w0 pp pp_empty_def demo_response_def)
  have rq: "rs_requester demo_response = endpoint (rs_endpoint_addr demo_client)"
    "rs_requester_worker demo_response \<noteq> rs_worker_id demo_client"
    by (simp_all add: demo_response_def demo_client_def role_setup_new_def)
  have r1: "rs_requester_worker demo_response = 1" "rs_plane_id demo_client = 3"
    "rs_endpoint_addr demo_server = \<lparr>endpoint = 9\<rparr>"
    by (simp_all add: demo_response_def demo_client_def demo_server_def role_setup_new_def)
  from client_response_redirect [OF itf cl sv plane w mu fq fr rq snd refl,
      where hq = 1 and hr = 2 and hroute = 3 and tb = 4 and encT = encode_u32]
  show ?thesis
    unfolding demo_response_pkt_def by (simp only: w0 ri r1)
qed

text \<open>
  Claim C32. The reply a build_replier handler sends through its ResponseSender is, byte for
  byte, the response packet RequestServerBuilder::build sends for the same handler result,
  and the two handlers drop exactly the same requests.
\<close>
theorem replier_matches_build:
  "map_option (\<lambda>(rsnd, payload). response_sender_send encT rsnd (handler source payload))
     (rs_replier_closure decQ tx source request) =
   map_option (event_tx_send (encode_response encT) tx) (server_reply decQ handler source request)"
  by (simp add: rs_replier_closure_def server_reply_def response_sender_send_def event_tx_send_def
      encode_response_gen_def encode_response_def split: option.split)

text \<open>A request the client's call sends reaches a subscriber's task with the
  request's source and payload, for an exact payload codec.\<close>

lemma subscription_sees_request:
  assumes "codec_exact encQ decQ"
  shows "rc_subscription_callback tb decQ (send_raw_bytes src plane topic (encode_request encQ q)) =
           Inr (Some (src, rq_payload q))"
  using assms
  by (simp add: rc_subscription_callback_def send_raw_bytes_def decode_request_lazy_def
      request_lazy_payload_def encode_request_def codec_exact_enc [where r = "[]", simplified]
      length_encode_u32 length_encode_u16 drop_append
      decode_transmit_packet_encode [where rest = "[]", simplified] send_raw_header_def)

end
