(* ===== verification/Runtime.thy ===== *)
theory Runtime
  imports RequestRoles
begin

text \<open>
  The worker runtime (\<open>crates/modrpc/src/rt.rs\<close>, \<open>worker.rs\<close>, \<open>role.rs\<close>): how
  \<open>RuntimeBuilder::start\<close> numbers the workers and gives each its packet processor, how
  a role is started on a group of workers (\<open>start_role\<close>, \<open>on_worker_group\<close>, \<open>local\<close>,
  \<open>run_role_worker\<close>), and the two packet tasks \<open>spawn_worker\<close> runs on every worker,
  composed into a system of workers exchanging packets.

  Threads, executors, shutdown signals and tracing are not modelled; a worker is its id,
  its packet processor and its two receive queues.  \<open>u16\<close> arithmetic (\<open>+=\<close>, \<open>+\<close>,
  \<open>sum\<close>) is written with release semantics, wrapping (a debug build panics instead).
  The panics of the code (\<open>expect\<close>, \<open>unwrap\<close>, \<open>todo!\<close>, a vector index out of range)
  are the values of \<open>rt_panic\<close>.
\<close>

datatype rt_panic =
    IndexOutOfBounds
  | ReceiverAlreadyTaken
  | RoleNameUnwrap
  | MultiChannelTodo
  | NoLocalWorker
  | ProcessorPanic pp_error
  | ContextPanic ctx_error

section \<open>Library helpers\<close>

text \<open>\<open>v[i].take().expect(..)\<close> on a vector of receivers, each present or taken.\<close>

definition vec_take_expect :: "nat \<Rightarrow> bool list \<Rightarrow> rt_panic + bool list" where
  "vec_take_expect i avail =
     (if i < length avail
      then (if avail ! i then Inr (avail[i := False]) else Inl ReceiverAlreadyTaken)
      else Inl IndexOutOfBounds)"

text \<open>\<open>str::rsplit(sep).next()\<close>: the text after the last separator (all of it when
  there is none), and \<open>str::strip_suffix\<close>.\<close>

fun prefix_before :: "string \<Rightarrow> string \<Rightarrow> string" where
  "prefix_before sep [] = []"
| "prefix_before sep (c # cs) =
     (if sep \<noteq> [] \<and> take (length sep) (c # cs) = sep then [] else c # prefix_before sep cs)"

definition rsplit_last :: "string \<Rightarrow> string \<Rightarrow> string" where
  "rsplit_last sep s = rev (prefix_before (rev sep) (rev s))"

definition strip_suffix :: "string \<Rightarrow> string \<Rightarrow> string option" where
  "strip_suffix suf s =
     (if length suf \<le> length s \<and> drop (length s - length suf) s = suf
      then Some (take (length s - length suf) s) else None)"

section \<open>RuntimeBuilder\<close>

record worker_group =
  wg_first_worker_index :: u16
  wg_worker_count :: u16

text \<open>The builder's local worker is its presence: its spawner and queues are created
  as every worker's are.\<close>

record runtime_builder =
  rb_worker_groups :: "worker_group list"
  rb_local_worker :: bool
  rb_next_worker_index :: u16

definition rb_new_no_local :: runtime_builder where
  "rb_new_no_local = \<lparr>rb_worker_groups = [], rb_local_worker = False, rb_next_worker_index = 0\<rparr>"

definition rb_new_with_local :: runtime_builder where
  "rb_new_with_local = \<lparr>rb_worker_groups = [], rb_local_worker = True, rb_next_worker_index = 1\<rparr>"

definition rb_new_worker_group :: "u16 \<Rightarrow> runtime_builder \<Rightarrow> worker_group \<times> runtime_builder" where
  "rb_new_worker_group worker_count b =
     (let g = \<lparr>wg_first_worker_index = rb_next_worker_index b, wg_worker_count = worker_count\<rparr>
      in (g, b\<lparr>rb_worker_groups := rb_worker_groups b @ [g],
               rb_next_worker_index := rb_next_worker_index b + worker_count\<rparr>))"

section \<open>A worker's packet processor\<close>

text \<open>\<open>build_inter_worker_batchers\<close>: a sender (a batcher feeding that worker's
  inter-worker queue) for every worker but the local one; \<open>PacketProcessor::new\<close> starts
  with no handlers.\<close>

definition build_inter_worker_batchers :: "worker_id \<Rightarrow> nat \<Rightarrow> bool list" where
  "build_inter_worker_batchers local_worker_id n = map (\<lambda>i. i \<noteq> unat local_worker_id) [0..<n]"

definition pp_new :: "bool list \<Rightarrow> packet_processor" where
  "pp_new inter_worker_senders =
     \<lparr>pp_handlers = [], pp_existing_topics = [], pp_mutations = [], pp_plane_topic_chain = [],
      pp_inter_worker_senders = inter_worker_senders\<rparr>"

section \<open>RuntimeBuilder::start\<close>

text \<open>The workers in the order \<open>start\<close> starts them: the local worker (id 0), then
  every group's workers \<open>first_worker_index + i\<close>.  Each takes its command receiver and its
  inter-worker receiver out of the vectors of \<open>worker_count\<close> entries and gets a packet
  processor with the inter-worker senders of the \<open>worker_count\<close> workers.\<close>

fun rb_start_workers ::
    "nat \<Rightarrow> worker_id list \<Rightarrow> bool list \<times> bool list \<Rightarrow> rt_panic + (worker_id \<times> packet_processor) list" where
  "rb_start_workers n [] rxs = Inr []"
| "rb_start_workers n (w # ws) (command_rxs, inter_rxs) =
     (case vec_take_expect (unat w) command_rxs of
        Inl e \<Rightarrow> Inl e
      | Inr command_rxs' \<Rightarrow>
          (case vec_take_expect (unat w) inter_rxs of
             Inl e \<Rightarrow> Inl e
           | Inr inter_rxs' \<Rightarrow>
               (case rb_start_workers n ws (command_rxs', inter_rxs') of
                  Inl e \<Rightarrow> Inl e
                | Inr started \<Rightarrow> Inr ((w, pp_new (build_inter_worker_batchers w n)) # started))))"

definition rb_start :: "runtime_builder \<Rightarrow> rt_panic + u16 \<times> (worker_id \<times> packet_processor) list" where
  "rb_start b =
     (let remote_worker_count = sum_list (map wg_worker_count (rb_worker_groups b));
          worker_count = (if rb_local_worker b then 1 + remote_worker_count else remote_worker_count);
          command_rxs = replicate ((if rb_local_worker b then 1 else 0) + unat remote_worker_count) True;
          inter_rxs = replicate (unat worker_count) True;
          workers = (if rb_local_worker b then [0] else []) @
            concat (map (\<lambda>g. map (\<lambda>i. wg_first_worker_index g + of_nat i) [0..<unat (wg_worker_count g)])
                        (rb_worker_groups b))
      in case rb_start_workers (unat worker_count) workers (command_rxs, inter_rxs) of
           Inl e \<Rightarrow> Inl e
         | Inr started \<Rightarrow> Inr (worker_count, started))"

text \<open>The runtime state a start yields: an empty globals map and the started workers'
  processors, indexed by worker id.\<close>

definition rt_of_start :: "(worker_id \<times> packet_processor) list \<Rightarrow> rt_state" where
  "rt_of_start started = \<lparr>rt_globals = new_inner, rt_pps = map snd started\<rparr>"

section \<open>Starting a role\<close>

datatype topic_channels = SingleChannel u32 | MultiChannel

text \<open>\<open>TopicChannels::create_packet_sender\<close>: the transport channel the role's packet
  sender writes to; the multi-channel case is \<open>todo!()\<close>.\<close>

definition create_packet_sender :: "topic_channels \<Rightarrow> rt_panic + u32" where
  "create_packet_sender tc =
     (case tc of SingleChannel channel_id \<Rightarrow> Inr channel_id | MultiChannel \<Rightarrow> Inl MultiChannelTodo)"

text \<open>\<open>run_role_worker\<close>: the role's name is its Rust type name after the last
  \<open>::\<close> without the \<open>Role\<close> suffix (\<open>unwrap\<close> panics when the suffix is missing);
  the interface is numbered by a fresh \<open>InterfaceBuilder\<close>, the role's \<open>setup_worker\<close>
  makes its stubs and hooks from a new \<open>RoleSetup\<close>, and the start function runs on the
  stubs.  The shutdown task it registers first is \<open>role_worker_shutdown\<close>.\<close>

definition run_role_worker ::
    "string \<Rightarrow> (u32 \<Rightarrow> 'i \<times> u32) \<Rightarrow> ('i \<Rightarrow> role_setup \<Rightarrow> 's \<times> 'h)
     \<Rightarrow> ('s \<Rightarrow> role_setup \<Rightarrow> rt_state \<Rightarrow> pp_error + rt_state)
     \<Rightarrow> u32 \<Rightarrow> u64 \<Rightarrow> worker_id \<Rightarrow> endpoint_addr \<Rightarrow> rt_state \<Rightarrow> rt_panic + 'h \<times> rt_state" where
  "run_role_worker type_name interface_new setup_worker start_fn plane_id role_id w endpoint_addr st =
     (let interface = fst (interface_new interface_builder_new)
      in case strip_suffix ''Role'' (rsplit_last ''::'' type_name) of
           None \<Rightarrow> Inl RoleNameUnwrap
         | Some role_name \<Rightarrow>
             (let setup = role_setup_new role_name w plane_id role_id endpoint_addr;
                  (stubs, hooks) = setup_worker interface setup
              in case start_fn stubs setup st of
                   Inl e \<Rightarrow> Inl (ProcessorPanic e)
                 | Inr st' \<Rightarrow> Inr (hooks, st')))"

text \<open>The role's shutdown task on a worker: remove the role's plane from the worker's
  packet processor and drop the worker-local context items tagged with the role.\<close>

definition role_worker_shutdown ::
    "u32 \<Rightarrow> u64 \<Rightarrow> packet_processor \<times> ('k, 'v, modrpc_context_tag) context_map
     \<Rightarrow> rt_panic + packet_processor \<times> ('k, 'v, modrpc_context_tag) context_map \<times> nat list" where
  "role_worker_shutdown plane_id role_id pl =
     (case remove_plane False plane_id (fst pl) of
        Inl e \<Rightarrow> Inl (ProcessorPanic e)
      | Inr pp \<Rightarrow>
          (case shutdown_tag (Role role_id) (snd pl) of
             Inl e \<Rightarrow> Inl (ContextPanic e)
           | Inr (locals, dropped) \<Rightarrow> Inr (pp, locals, dropped)))"

record start_role_handle =
  srh_plane_id :: u32
  srh_endpoint_addr :: endpoint_addr
  srh_topic_channels :: topic_channels
  srh_role_id :: u64
  srh_has_spawned_globals_shutdown :: bool

text \<open>\<open>RuntimeHandle::start_role\<close>: the role id is the next value of the runtime's
  \<open>next_role_id\<close> counter (\<open>fetch_add\<close> wraps).\<close>

definition start_role ::
    "u32 \<Rightarrow> endpoint_addr \<Rightarrow> topic_channels \<Rightarrow> u64 \<Rightarrow> start_role_handle \<times> u64" where
  "start_role plane_id endpoint_addr tc next_role_id =
     (\<lparr>srh_plane_id = plane_id, srh_endpoint_addr = endpoint_addr, srh_topic_channels = tc,
       srh_role_id = next_role_id, srh_has_spawned_globals_shutdown = False\<rparr>, next_role_id + 1)"

text \<open>The role start on one worker, as \<open>on_worker_group\<close> and \<open>local\<close> run it: create
  the packet sender, then \<open>run_role_worker\<close> (here \<open>start\<close>, given the worker, the
  handle's plane, role id and endpoint address).  Both record the workers on which a task
  removing the role's globals at shutdown was spawned.\<close>

type_synonym 'h role_start =
  "u32 \<Rightarrow> u64 \<Rightarrow> worker_id \<Rightarrow> endpoint_addr \<Rightarrow> rt_state \<Rightarrow> rt_panic + 'h \<times> rt_state"

definition start_on_worker ::
    "'h role_start \<Rightarrow> worker_id \<Rightarrow> start_role_handle \<times> rt_state \<times> worker_id list
     \<Rightarrow> rt_panic + 'h \<times> start_role_handle \<times> rt_state \<times> worker_id list" where
  "start_on_worker start w hsg =
     (let (h, st, gs) = hsg; spawn_globals_shutdown = \<not> srh_has_spawned_globals_shutdown h
      in case create_packet_sender (srh_topic_channels h) of
           Inl e \<Rightarrow> Inl e
         | Inr _ \<Rightarrow>
             (case start (srh_plane_id h) (srh_role_id h) w (srh_endpoint_addr h) st of
                Inl e \<Rightarrow> Inl e
              | Inr (hooks, st') \<Rightarrow>
                  Inr (hooks, h\<lparr>srh_has_spawned_globals_shutdown := True\<rparr>, st',
                       if spawn_globals_shutdown then gs @ [w] else gs)))"

text \<open>\<open>StartRoleHandle::on_worker_group\<close>: the group's workers \<open>start..end\<close> in order,
  \<open>end = start + worker_count\<close> on \<open>u16\<close>; indexing the runtime's worker handles
  panics past the last worker.\<close>

definition on_worker_group ::
    "'h role_start \<Rightarrow> worker_group \<Rightarrow> start_role_handle \<times> rt_state \<times> worker_id list
     \<Rightarrow> rt_panic + start_role_handle \<times> rt_state \<times> worker_id list" where
  "on_worker_group start g hsg =
     (let start_worker = wg_first_worker_index g;
          end_worker = start_worker + wg_worker_count g
      in fold_sum (\<lambda>i x. if length (rt_pps (fst (snd x))) \<le> i then Inl IndexOutOfBounds
                         else map_sum id snd (start_on_worker start (of_nat i) x))
           [unat start_worker..<unat end_worker] hsg)"

text \<open>\<open>StartRoleHandle::local\<close> on the current thread's worker (a panic if it is not
  a worker); it returns the role's hooks.\<close>

definition srh_local ::
    "worker_id option \<Rightarrow> 'h role_start \<Rightarrow> start_role_handle \<times> rt_state \<times> worker_id list
     \<Rightarrow> rt_panic + 'h \<times> start_role_handle \<times> rt_state \<times> worker_id list" where
  "srh_local local_worker start hsg =
     (case local_worker of
        None \<Rightarrow> Inl NoLocalWorker
      | Some w \<Rightarrow> start_on_worker start w hsg)"

section \<open>The workers' packet tasks\<close>

text \<open>\<open>run_burstq_batcher\<close>: one turn moves the first packet and every packet queued
  behind it, in order, into the shared queue as one batch (\<open>None\<close>: it waits).\<close>

definition run_burstq_batcher :: "bytes list \<times> bytes list \<Rightarrow> (bytes list \<times> bytes list) option" where
  "run_burstq_batcher q =
     (case q of
        ([], _) \<Rightarrow> None
      | (first_packet # rest, shared) \<Rightarrow> Some ([], shared @ first_packet # rest))"

text \<open>The system of workers: the runtime state, each worker's \<open>local_packet_rx\<close>
  (packets its processor requeued or a transport injected, handled as new) and
  \<open>inter_rx\<close> (packets other workers forwarded), and what the handlers observed: the
  packets pushed to local queues and the inline handler calls, with the worker they ran
  on.  A packet a processor forwards to another worker goes through a batcher into that
  worker's \<open>inter_rx\<close>; \<open>run_burstq_batcher\<close> keeps the order, so the forwarding is an
  append.\<close>

record worker_sys =
  ws_rt :: rt_state
  ws_local_rx :: "bytes list list"
  ws_inter_rx :: "bytes list list"
  ws_queued :: "(worker_id \<times> nat \<times> bytes) list"
  ws_calls :: "(worker_id \<times> nat \<times> topic_key \<times> endpoint_addr \<times> bytes) list"

fun deliver_effect :: "worker_id \<Rightarrow> pp_effect \<Rightarrow> worker_sys \<Rightarrow> worker_sys" where
  "deliver_effect w (WorkerPush w' p) ws =
     ws\<lparr>ws_inter_rx := (ws_inter_rx ws)[unat w' := ws_inter_rx ws ! unat w' @ [p]]\<rparr>"
| "deliver_effect w (Requeue p) ws =
     ws\<lparr>ws_local_rx := (ws_local_rx ws)[unat w := ws_local_rx ws ! unat w @ [p]]\<rparr>"
| "deliver_effect w (QueuePush q p) ws = ws\<lparr>ws_queued := ws_queued ws @ [(w, q, p)]\<rparr>"
| "deliver_effect w (HandlerCall h k src p) ws = ws\<lparr>ws_calls := ws_calls ws @ [(w, h, k, src, p)]\<rparr>"
| "deliver_effect w (HandlerReturn h k) ws = ws"

datatype worker_task = LocalRx | InterWorkerRx

text \<open>One turn of the \<open>local-rx\<close> or \<open>inter-worker-rx\<close> task of \<open>spawn_worker\<close> on
  worker \<open>w\<close>: take the next packet of its queue and run the worker's processor on it
  with source \<open>NEW\<close> or \<open>INTER_WORKER\<close>; \<open>None\<close> while the queue is empty.\<close>

definition worker_task_step ::
    "(worker_id \<Rightarrow> handler_env) \<Rightarrow> worker_id \<Rightarrow> worker_task \<Rightarrow> worker_sys \<Rightarrow> (rt_panic + worker_sys) option" where
  "worker_task_step envs w t ws =
     (let rx = (case t of LocalRx \<Rightarrow> ws_local_rx ws | InterWorkerRx \<Rightarrow> ws_inter_rx ws);
          src = (case t of LocalRx \<Rightarrow> PACKET_PROCESSOR_SOURCE_NEW
                         | InterWorkerRx \<Rightarrow> PACKET_PROCESSOR_SOURCE_INTER_WORKER)
      in if length rx \<le> unat w then None else
         case rx ! unat w of
           [] \<Rightarrow> None
         | packet # rest \<Rightarrow>
             (let ws1 = (case t of LocalRx \<Rightarrow> ws\<lparr>ws_local_rx := (ws_local_rx ws)[unat w := rest]\<rparr>
                                 | InterWorkerRx \<Rightarrow> ws\<lparr>ws_inter_rx := (ws_inter_rx ws)[unat w := rest]\<rparr>)
              in case handle_packet (envs w) src packet (rt_pps (ws_rt ws) ! unat w) of
                   Inl e \<Rightarrow> Some (Inl (ProcessorPanic e))
                 | Inr (pp', effs) \<Rightarrow>
                     Some (Inr (fold (deliver_effect w) effs
                       (ws1\<lparr>ws_rt := (ws_rt ws1)\<lparr>rt_pps := (rt_pps (ws_rt ws1))[unat w := pp']\<rparr>\<rparr>)))))"

text \<open>A schedule is the order in which the workers' tasks take turns; a turn whose
  queue is empty waits and changes nothing.\<close>

fun ws_run :: "(worker_id \<Rightarrow> handler_env) \<Rightarrow> (worker_id \<times> worker_task) list \<Rightarrow> worker_sys \<Rightarrow> rt_panic + worker_sys" where
  "ws_run envs [] ws = Inr ws"
| "ws_run envs ((w, t) # sched) ws =
     (case worker_task_step envs w t ws of
        None \<Rightarrow> ws_run envs sched ws
      | Some (Inl e) \<Rightarrow> Inl e
      | Some (Inr ws') \<Rightarrow> ws_run envs sched ws')"

section \<open>Builders and runs\<close>

text \<open>A builder as the application makes it: with or without a local worker, then one
  worker group per count.\<close>

definition rb_with_groups :: "bool \<Rightarrow> u16 list \<Rightarrow> runtime_builder" where
  "rb_with_groups with_local counts =
     fold (\<lambda>n b. snd (rb_new_worker_group n b)) counts
       (if with_local then rb_new_with_local else rb_new_no_local)"

fun groups_from :: "u16 \<Rightarrow> u16 list \<Rightarrow> worker_group list" where
  "groups_from k [] = []"
| "groups_from k (n # ns) = \<lparr>wg_first_worker_index = k, wg_worker_count = n\<rparr> # groups_from (k + n) ns"

text \<open>The workers \<open>on_worker_group\<close> visits, in order.\<close>

definition group_workers :: "worker_group \<Rightarrow> worker_id list" where
  "group_workers g =
     map of_nat [unat (wg_first_worker_index g)..<unat (wg_first_worker_index g + wg_worker_count g)]"

text \<open>A role started with \<open>on_worker_group\<close> on a list of groups, then possibly
  with \<open>local\<close> (which consumes the handle).\<close>

definition srh_run ::
    "'h role_start \<Rightarrow> worker_group list \<Rightarrow> worker_id option option \<Rightarrow> start_role_handle \<times> rt_state \<times> worker_id list
     \<Rightarrow> rt_panic + start_role_handle \<times> rt_state \<times> worker_id list" where
  "srh_run start groups local_call x =
     (case fold_sum (on_worker_group start) groups x of
        Inl e \<Rightarrow> Inl e
      | Inr x' \<Rightarrow> (case local_call of None \<Rightarrow> Inr x' | Some lw \<Rightarrow> map_sum id snd (srh_local lw start x')))"

text \<open>A worker's processor after \<open>RequestClientBuilder::build\<close> on a new processor:
  the request topic's inline handler and the response topic's route and inline handler,
  the response chain stacked on the request chain of the plane.\<close>

definition client_pp ::
    "bool list \<Rightarrow> u32 \<Rightarrow> request_client_stubs \<Rightarrow> nat \<Rightarrow> nat \<Rightarrow> nat \<Rightarrow> packet_processor" where
  "client_pp senders plane_id stubs h_request h_response h_route =
     (let tq = erb_topic (rcs_request stubs); tr = erb_topic (rcs_response stubs) in
      \<lparr>pp_handlers =
         [((plane_id, tq), \<lparr>nc_nodes = [\<lparr>source_filter = PACKET_PROCESSOR_SOURCE_ANY, body = Inline h_request\<rparr>],
                            nc_tracer = erb_object_path (rcs_request stubs), nc_plane_next_topic = None\<rparr>),
          ((plane_id, tr), \<lparr>nc_nodes = [\<lparr>source_filter = PACKET_PROCESSOR_SOURCE_NEW, body = RouteToWorker h_route\<rparr>,
                                         \<lparr>source_filter = PACKET_PROCESSOR_SOURCE_ANY, body = Inline h_response\<rparr>],
                            nc_tracer = erb_object_path (rcs_response stubs), nc_plane_next_topic = Some tq\<rparr>)],
       pp_existing_topics = [(plane_id, tr), (plane_id, tq)], pp_mutations = [],
       pp_plane_topic_chain = [(plane_id, tr)], pp_inter_worker_senders = senders\<rparr>)"

text \<open>The request client role as an application starts it: its start function builds
  the client (\<open>RequestClientBuilder::build\<close>) with the three closures numbered
  \<open>h_request\<close>, \<open>h_response\<close>, \<open>h_route\<close>.\<close>

definition request_client_start :: "nat \<Rightarrow> nat \<Rightarrow> nat \<Rightarrow> event_tx role_start" where
  "request_client_start h_request h_response h_route plane_id role_id w endpoint_addr st =
     run_role_worker ''std_modrpc::RequestClientRole'' request_interface_new request_client_setup_worker
       (\<lambda>stubs setup. rc_build False stubs setup h_request h_response h_route)
       plane_id role_id w endpoint_addr st"

definition client_stubs :: request_client_stubs where
  "client_stubs =
     fst (request_client_setup_worker (fst (request_interface_new interface_builder_new))
            (role_setup_new ''RequestClient'' 0 0 0 \<lparr>endpoint = 0\<rparr>))"

text \<open>The environment of the client's closures on every worker.\<close>

definition client_envs :: "nat \<Rightarrow> u32 \<Rightarrow> u64 \<Rightarrow> endpoint_addr \<Rightarrow> nat \<Rightarrow> worker_id \<Rightarrow> handler_env" where
  "client_envs tb plane_id role_id endpoint_addr h_route w =
     rc_env tb (role_setup_new ''RequestClient'' w plane_id role_id endpoint_addr) h_route"

text \<open>The processors of \<open>n\<close> workers on which the client was built on those in \<open>D\<close>.\<close>

definition clients_on :: "nat \<Rightarrow> u32 \<Rightarrow> nat \<Rightarrow> nat \<Rightarrow> nat \<Rightarrow> nat set \<Rightarrow> packet_processor list" where
  "clients_on n plane_id hq hr hroute D =
     map (\<lambda>i. if i \<in> D then client_pp (map (\<lambda>j. j \<noteq> i) [0..<n]) plane_id client_stubs hq hr hroute
              else pp_new (map (\<lambda>j. j \<noteq> i) [0..<n])) [0..<n]"

text \<open>The system right after start: one packet waiting in worker \<open>a\<close>'s local queue.\<close>

definition ws_init :: "nat \<Rightarrow> rt_state \<Rightarrow> nat \<Rightarrow> bytes \<Rightarrow> worker_sys" where
  "ws_init n st a packet =
     \<lparr>ws_rt = st, ws_local_rx = (replicate n [])[a := [packet]], ws_inter_rx = replicate n [],
      ws_queued = [], ws_calls = []\<rparr>"

text \<open>An application's start of a request client: a runtime with a local worker and one
  group of \<open>c\<close> remote workers, a role handle from \<open>start_role\<close> on a single channel,
  the role started on the group and then locally on worker 0.\<close>

definition client_runtime ::
    "u16 \<Rightarrow> u32 \<Rightarrow> endpoint_addr \<Rightarrow> u32 \<Rightarrow> u64 \<Rightarrow> nat \<Rightarrow> nat \<Rightarrow> nat
     \<Rightarrow> rt_panic + start_role_handle \<times> rt_state \<times> worker_id list" where
  "client_runtime c plane_id endpoint_addr ch next_role_id hq hr hroute =
     (let b = rb_with_groups True [c]
      in case rb_start b of
           Inl e \<Rightarrow> Inl e
         | Inr (_, started) \<Rightarrow>
             srh_run (request_client_start hq hr hroute) (rb_worker_groups b) (Some (Some 0))
               (fst (start_role plane_id endpoint_addr (SingleChannel ch) next_role_id), rt_of_start started, []))"

section \<open>Worker numbering\<close>

lemma fold_new_worker_group:
  "fold (\<lambda>n b. snd (rb_new_worker_group n b)) ns b =
     b\<lparr>rb_worker_groups := rb_worker_groups b @ groups_from (rb_next_worker_index b) ns,
       rb_next_worker_index := rb_next_worker_index b + sum_list ns\<rparr>"
  by (induction ns arbitrary: b) (simp_all add: rb_new_worker_group_def Let_def add.assoc)

lemma sum_list_u16: "sum_list (ns :: u16 list) = of_nat (sum_list (map unat ns))"
  by (induction ns) simp_all

lemma groups_from_counts: "map wg_worker_count (groups_from k ns) = ns"
  by (induction ns arbitrary: k) simp_all

lemma groups_from_workers:
  "unat k + sum_list (map unat ns) < 2 ^ 16 \<Longrightarrow>
   concat (map (\<lambda>g. map (\<lambda>i. wg_first_worker_index g + of_nat i) [0..<unat (wg_worker_count g)])
      (groups_from k ns)) = map of_nat [unat k..<unat k + sum_list (map unat ns)]"
proof (induction ns arbitrary: k)
  case Nil
  then show ?case by simp
next
  case (Cons n ns)
  have kn: "unat (k + n) = unat k + unat n"
    using Cons.prems by (simp add: unat_add_lem [symmetric])
  have "[unat k..<unat k + unat n] = map (\<lambda>i. i + unat k) [0..<unat n]"
    by (simp add: map_add_upt add.commute)
  then have first: "map (\<lambda>i. k + of_nat i) [0..<unat n] = map of_nat [unat k..<unat k + unat n]"
    by (simp add: add.commute)
  have "[unat k..<unat k + unat n + sum_list (map unat ns)] =
        [unat k..<unat k + unat n] @ [unat k + unat n..<unat k + unat n + sum_list (map unat ns)]"
    by (rule upt_add_eq_append) simp
  with Cons.IH [of "k + n"] Cons.prems kn first show ?case
    by (simp add: add.assoc)
qed

lemma unat_of_nat_u16 [simp]: "n < 2 ^ 16 \<Longrightarrow> unat (of_nat n :: u16) = n"
  by (simp add: unat_of_nat)

lemma rb_start_workers_ok:
  assumes "distinct (map unat ws)"
    and "\<forall>w\<in>set ws. unat w < length command_rxs \<and> command_rxs ! unat w \<and>
                      unat w < length inter_rxs \<and> inter_rxs ! unat w"
  shows "rb_start_workers n ws (command_rxs, inter_rxs) =
           Inr (map (\<lambda>w. (w, pp_new (build_inter_worker_batchers w n))) ws)"
  using assms
proof (induction ws arbitrary: command_rxs inter_rxs)
  case Nil
  then show ?case by simp
next
  case (Cons w ws)
  have other: "\<forall>w'\<in>set ws. unat w' \<noteq> unat w"
    using Cons.prems(1) by (auto simp: image_iff)
  have "rb_start_workers n ws (command_rxs[unat w := False], inter_rxs[unat w := False]) =
          Inr (map (\<lambda>w. (w, pp_new (build_inter_worker_batchers w n))) ws)"
    using Cons.prems other by (intro Cons.IH) (auto simp: nth_list_update)
  then show ?case
    using Cons.prems(2) by (simp add: vec_take_expect_def)
qed

lemma build_inter_worker_batchers_of_nat:
  "i < 2 ^ 16 \<Longrightarrow> build_inter_worker_batchers (of_nat i) n = map (\<lambda>j. j \<noteq> i) [0..<n]"
  by (simp add: build_inter_worker_batchers_def)

lemma rb_with_groups_eq:
  "rb_with_groups with_local counts =
     \<lparr>rb_worker_groups = groups_from (if with_local then 1 else 0) counts, rb_local_worker = with_local,
      rb_next_worker_index = (if with_local then 1 else 0) + sum_list counts\<rparr>"
  by (simp add: rb_with_groups_def fold_new_worker_group rb_new_with_local_def rb_new_no_local_def)

text \<open>A runtime built with or without a local worker and any worker groups whose
  total number of workers N fits a u16 starts without panicking, numbers its workers
  0..N-1 in start order (the local worker first), and gives worker i a packet processor
  with no handlers and an inter-worker sender for every worker but i.
\<close>
theorem rb_start_layout:
  fixes counts :: "u16 list" and with_local :: bool
  defines "N \<equiv> (if with_local then 1 else 0) + sum_list (map unat counts)"
  assumes small: "N < 2 ^ 16"
  shows "rb_start (rb_with_groups with_local counts) =
           Inr (of_nat N, map (\<lambda>i. (of_nat i, pp_new (map (\<lambda>j. j \<noteq> i) [0..<N]))) [0..<N])"
proof -
  let ?k = "if with_local then 1 else 0 :: nat"
  let ?S = "sum_list (map unat counts)"
  have S: "unat (sum_list counts) = ?S"
    using small by (simp add: N_def sum_list_u16)
  have wc: "(if with_local then 1 + sum_list counts else sum_list counts) = (of_nat N :: u16)"
    by (simp add: N_def sum_list_u16)
  have k: "unat (if with_local then 1 else 0 :: u16) = ?k"
    by simp
  have workers: "(if with_local then [0 :: u16] else []) @
      concat (map (\<lambda>g. map (\<lambda>i. wg_first_worker_index g + of_nat i) [0..<unat (wg_worker_count g)])
        (groups_from (if with_local then 1 else 0) counts)) = map of_nat [0..<N]"
  proof -
    have "concat (map (\<lambda>g. map (\<lambda>i. wg_first_worker_index g + of_nat i) [0..<unat (wg_worker_count g)])
        (groups_from (if with_local then 1 else 0) counts)) = map of_nat [?k..<?k + ?S]"
      using groups_from_workers [of "if with_local then 1 else 0" counts] small k by (simp add: N_def)
    moreover have "[0..<N] = [0..<?k] @ [?k..<?k + ?S]"
      by (simp add: N_def upt_add_eq_append [of 0 ?k ?S, simplified])
    ultimately show ?thesis
      by (cases with_local) (simp_all add: upt_conv_Cons)
  qed
  have start: "rb_start_workers N (map of_nat [0..<N]) (replicate N True, replicate N True) =
      Inr (map (\<lambda>i. (of_nat i, pp_new (map (\<lambda>j. j \<noteq> i) [0..<N]))) [0..<N])"
  proof -
    have "distinct (map unat (map (of_nat :: nat \<Rightarrow> u16) [0..<N]))"
      using small by (simp add: comp_def map_idI [of "[0..<N]"] distinct_map inj_on_def)
    then show ?thesis
      using small by (simp add: rb_start_workers_ok comp_def build_inter_worker_batchers_of_nat)
  qed
  have len: "?k + unat (sum_list counts) = N"
    using S by (simp add: N_def)
  show ?thesis
    using start small unfolding rb_start_def rb_with_groups_eq
    by (simp add: Let_def groups_from_counts workers wc len N_def [symmetric] del: upt_Suc)
qed

text \<open>
  Claim C34. With a local worker and groups of 65535 remote workers in all (or any total
  that makes the u16 worker_count wrap to 0), RuntimeBuilder::start panics on an index out
  of bounds when the local worker takes its inter-worker receiver, instead of reporting
  the count.
\<close>
theorem rb_start_overflow:
  assumes wrap: "(1 + sum_list (map unat counts)) mod 2 ^ 16 = 0"
  shows "rb_start (rb_with_groups True counts) = Inl IndexOutOfBounds"
proof -
  have "unat (of_nat (1 + sum_list (map unat counts)) :: u16) = 0"
    using wrap by (simp only: unat_of_nat) simp
  then have "(of_nat (1 + sum_list (map unat counts)) :: u16) = 0"
    by (simp only: unat_eq_zero)
  then have wc: "(1 + sum_list counts :: u16) = 0"
    by (simp add: sum_list_u16)
  show ?thesis
    unfolding rb_start_def rb_with_groups_eq
    by (simp add: Let_def wc vec_take_expect_def groups_from_counts)
qed

section \<open>Starting a role on workers\<close>

lemma take1_take1_append [simp]: "take (Suc 0) (take (Suc 0) xs @ ys) = take (Suc 0) (xs @ ys)"
  by (cases xs) auto

lemma start_on_worker_spawned:
  assumes "start_on_worker start w (h, st, gs) = Inr (hooks, h', st', gs')"
    and "srh_has_spawned_globals_shutdown h \<longleftrightarrow> gs \<noteq> []" and "length gs \<le> 1"
  shows "gs' = take 1 (gs @ [w]) \<and> srh_has_spawned_globals_shutdown h' \<and>
         srh_role_id h' = srh_role_id h \<and> srh_plane_id h' = srh_plane_id h \<and>
         srh_endpoint_addr h' = srh_endpoint_addr h \<and> srh_topic_channels h' = srh_topic_channels h"
  using assms
  by (cases gs) (auto simp: start_on_worker_def split: sum.splits if_splits prod.splits)

lemma fold_start_spawned:
  assumes "fold_sum (\<lambda>i x. if length (rt_pps (fst (snd x))) \<le> i then Inl IndexOutOfBounds
                         else map_sum id snd (start_on_worker start (of_nat i) x)) is (h, st, gs) = Inr (h', st', gs')"
    and "srh_has_spawned_globals_shutdown h \<longleftrightarrow> gs \<noteq> []" and "length gs \<le> 1"
  shows "gs' = take 1 (gs @ map of_nat is) \<and>
         (srh_has_spawned_globals_shutdown h' \<longleftrightarrow> gs' \<noteq> []) \<and> length gs' \<le> 1"
  using assms
proof (induction "is" arbitrary: h st gs)
  case Nil
  then show ?case by (cases gs) auto
next
  case (Cons i "is")
  from Cons.prems(1) obtain hooks h1 st1 gs1 where
    step: "start_on_worker start (of_nat i) (h, st, gs) = Inr (hooks, h1, st1, gs1)"
    and rest: "fold_sum (\<lambda>i x. if length (rt_pps (fst (snd x))) \<le> i then Inl IndexOutOfBounds
                         else map_sum id snd (start_on_worker start (of_nat i) x)) is (h1, st1, gs1) = Inr (h', st', gs')"
    by (cases "start_on_worker start (of_nat i) (h, st, gs)") (auto split: if_splits)
  from start_on_worker_spawned [OF step Cons.prems(2,3)]
  have g1: "gs1 = take 1 (gs @ [of_nat i])" "srh_has_spawned_globals_shutdown h1" by auto
  then have inv1: "srh_has_spawned_globals_shutdown h1 \<longleftrightarrow> gs1 \<noteq> []" "length gs1 \<le> 1"
    by auto
  from Cons.IH [OF rest inv1] g1 Cons.prems(3) show ?case
    by (cases gs) auto
qed

lemma on_worker_group_spawned:
  assumes "on_worker_group start g (h, st, gs) = Inr (h', st', gs')"
    and "srh_has_spawned_globals_shutdown h \<longleftrightarrow> gs \<noteq> []" and "length gs \<le> 1"
  shows "gs' = take 1 (gs @ group_workers g) \<and>
         (srh_has_spawned_globals_shutdown h' \<longleftrightarrow> gs' \<noteq> []) \<and> length gs' \<le> 1"
  using fold_start_spawned [of start _ h st gs h' st' gs'] assms
  by (simp add: on_worker_group_def group_workers_def Let_def)

lemma groups_spawned:
  assumes "fold_sum (on_worker_group start) groups (h, st, gs) = Inr (h', st', gs')"
    and "srh_has_spawned_globals_shutdown h \<longleftrightarrow> gs \<noteq> []" and "length gs \<le> 1"
  shows "gs' = take 1 (gs @ concat (map group_workers groups)) \<and>
         (srh_has_spawned_globals_shutdown h' \<longleftrightarrow> gs' \<noteq> []) \<and> length gs' \<le> 1"
  using assms
proof (induction groups arbitrary: h st gs)
  case Nil
  then show ?case by (cases gs) auto
next
  case (Cons g groups)
  from Cons.prems(1) obtain h1 st1 gs1 where
    step: "on_worker_group start g (h, st, gs) = Inr (h1, st1, gs1)"
    and rest: "fold_sum (on_worker_group start) groups (h1, st1, gs1) = Inr (h', st', gs')"
    by (auto split: sum.splits)
  from on_worker_group_spawned [OF step Cons.prems(2,3)]
  have g1: "gs1 = take 1 (gs @ group_workers g)"
    and inv1: "srh_has_spawned_globals_shutdown h1 \<longleftrightarrow> gs1 \<noteq> []" "length gs1 \<le> 1"
    by auto
  from Cons.IH [OF rest inv1] g1 show ?case
    by (simp del: take_append)
qed

text \<open>
  Claim C33. However a role is started, on any sequence of worker groups and then possibly
  locally, the task that drops the role's globals at shutdown is spawned exactly once if
  the role started on any worker, on the first worker it started on, and never otherwise.
\<close>
theorem globals_cleanup_once:
  assumes "start_role plane_id endpoint_addr tc next_role_id = (h0, next_role_id')"
    and "srh_run start groups local_call (h0, st, []) = Inr (h, st', spawned)"
  shows "spawned = take 1 (concat (map group_workers groups) @
                           (case local_call of Some (Some w) \<Rightarrow> [w] | _ \<Rightarrow> [])) \<and>
         (srh_has_spawned_globals_shutdown h \<longleftrightarrow> spawned \<noteq> [])"
proof -
  have h0: "\<not> srh_has_spawned_globals_shutdown h0"
    using assms(1) by (auto simp: start_role_def)
  from assms(2) obtain h1 st1 gs1 where
    groups: "fold_sum (on_worker_group start) groups (h0, st, []) = Inr (h1, st1, gs1)"
    and fin: "(case local_call of None \<Rightarrow> Inr (h1, st1, gs1)
               | Some lw \<Rightarrow> map_sum id snd (srh_local lw start (h1, st1, gs1))) = Inr (h, st', spawned)"
    by (auto simp: srh_run_def split: sum.splits)
  from groups_spawned [OF groups] h0
  have g1: "gs1 = take 1 (concat (map group_workers groups))"
    and inv1: "srh_has_spawned_globals_shutdown h1 \<longleftrightarrow> gs1 \<noteq> []" "length gs1 \<le> 1"
    by auto
  show ?thesis
  proof (cases local_call)
    case None
    then show ?thesis using fin g1 inv1 by simp
  next
    case (Some lw)
    then obtain w hooks where lw: "lw = Some w"
      and step: "start_on_worker start w (h1, st1, gs1) = Inr (hooks, h, st', spawned)"
      using fin by (cases lw; cases "start_on_worker start (the lw) (h1, st1, gs1)")
                   (auto simp: srh_local_def)
    from start_on_worker_spawned [OF step inv1] g1 show ?thesis
      using Some lw by (simp del: take_append)
  qed
qed

section \<open>A request client on every worker\<close>

lemma rc_build_fresh:
  assumes w: "unat (rs_worker_id s) < length (rt_pps st)"
    and pp: "rt_pps st ! unat (rs_worker_id s) = pp_new senders"
    and ne: "erb_topic (rcs_request stubs) \<noteq> erb_topic (rcs_response stubs)"
  shows "rc_build False stubs s hq hr hroute st =
           Inr (st\<lparr>rt_pps := (rt_pps st)[unat (rs_worker_id s) :=
                   client_pp senders (rs_plane_id s) stubs hq hr hroute]\<rparr>)"
  using w pp ne
  by (simp add: rc_build_def irs_local_def erb_inline_untyped_def erb_route_to_worker_def
      wc_add_handler_def wc_route_to_worker_def on_worker_def add_node_def add_node_impl_def
      pp_new_def client_pp_def Let_def)

lemma client_role_name: "strip_suffix ''Role'' (rsplit_last ''::'' ''std_modrpc::RequestClientRole'') = Some ''RequestClient''"
  by (simp add: strip_suffix_def rsplit_last_def)

lemma client_stubs_any:
  "fst (request_client_setup_worker (fst (request_interface_new interface_builder_new))
          (role_setup_new ''RequestClient'' w plane_id role_id endpoint_addr)) = client_stubs"
  by (simp add: client_stubs_def request_client_setup_worker_def setup_event_rx_def get_object_path_def
      role_setup_new_def request_interface_new_def ib_event_def)

lemma client_stubs_topics:
  "erb_topic (rcs_request client_stubs) = 0" "erb_topic (rcs_response client_stubs) = 1"
  by (simp_all add: client_stubs_def request_client_setup_worker_def setup_event_rx_def
      request_interface_new_def ib_event_def interface_builder_new_def)

lemma start_on_worker_client:
  assumes tc: "srh_topic_channels h = SingleChannel ch"
    and i: "i < length (rt_pps st)" "i < 2 ^ 16" and pp: "rt_pps st ! i = pp_new senders"
  shows "\<exists>hooks. start_on_worker (request_client_start hq hr hroute) (of_nat i) (h, st, gs) =
     Inr (hooks, h\<lparr>srh_has_spawned_globals_shutdown := True\<rparr>,
          st\<lparr>rt_pps := (rt_pps st)[i := client_pp senders (srh_plane_id h) client_stubs hq hr hroute]\<rparr>,
          if srh_has_spawned_globals_shutdown h then gs else gs @ [of_nat i])"
proof -
  let ?s = "role_setup_new ''RequestClient'' (of_nat i) (srh_plane_id h) (srh_role_id h) (srh_endpoint_addr h)"
  have rs: "unat (rs_worker_id ?s) = i" "rs_plane_id ?s = srh_plane_id h"
    using i by (simp_all add: role_setup_new_def)
  have b: "rc_build False client_stubs ?s hq hr hroute st =
      Inr (st\<lparr>rt_pps := (rt_pps st)[i := client_pp senders (srh_plane_id h) client_stubs hq hr hroute]\<rparr>)"
    using rc_build_fresh [of ?s st senders client_stubs hq hr hroute] i pp rs client_stubs_topics by simp
  obtain hk where pair: "request_client_setup_worker (fst (request_interface_new interface_builder_new)) ?s =
      (client_stubs, hk)"
    using client_stubs_any by (metis prod.collapse)
  show ?thesis
    using b tc
    by (simp add: start_on_worker_def create_packet_sender_def request_client_start_def run_role_worker_def
        client_role_name Let_def pair)
qed

lemma clients_on_length [simp]: "length (clients_on n plane_id hq hr hroute D) = n"
  by (simp add: clients_on_def)

lemma clients_on_fresh:
  "i < n \<Longrightarrow> i \<notin> D \<Longrightarrow> clients_on n plane_id hq hr hroute D ! i = pp_new (map (\<lambda>j. j \<noteq> i) [0..<n])"
  by (simp add: clients_on_def)

lemma clients_on_update:
  "i < n \<Longrightarrow> (clients_on n plane_id hq hr hroute D)[i := client_pp (map (\<lambda>j. j \<noteq> i) [0..<n]) plane_id
      client_stubs hq hr hroute] = clients_on n plane_id hq hr hroute (insert i D)"
  by (auto simp: clients_on_def list_eq_iff_nth_eq nth_list_update)

lemma fold_start_clients:
  assumes tc: "srh_topic_channels h = SingleChannel ch" and n: "n < 2 ^ 16"
    and pps: "rt_pps st = clients_on n (srh_plane_id h) hq hr hroute D"
    and idx: "distinct idx" "set idx \<subseteq> {..<n}" "set idx \<inter> D = {}"
  shows "\<exists>gs'. fold_sum (\<lambda>i x. if length (rt_pps (fst (snd x))) \<le> i then Inl IndexOutOfBounds
                         else map_sum id snd (start_on_worker (request_client_start hq hr hroute) (of_nat i) x))
           idx (h, st, gs) =
         Inr (h\<lparr>srh_has_spawned_globals_shutdown := srh_has_spawned_globals_shutdown h \<or> idx \<noteq> []\<rparr>,
              st\<lparr>rt_pps := clients_on n (srh_plane_id h) hq hr hroute (D \<union> set idx)\<rparr>, gs')"
  using tc pps idx
proof (induction idx arbitrary: h st gs D)
  case Nil
  then show ?case by simp
next
  case (Cons i idx)
  have i: "i < n" "i \<notin> D" "i < length (rt_pps st)"
    using Cons.prems by auto
  have pp: "rt_pps st ! i = pp_new (map (\<lambda>j. j \<noteq> i) [0..<n])"
    using Cons.prems(2) i by (simp add: clients_on_fresh)
  obtain hooks where step: "start_on_worker (request_client_start hq hr hroute) (of_nat i) (h, st, gs) =
     Inr (hooks, h\<lparr>srh_has_spawned_globals_shutdown := True\<rparr>,
          st\<lparr>rt_pps := (rt_pps st)[i := client_pp (map (\<lambda>j. j \<noteq> i) [0..<n]) (srh_plane_id h) client_stubs hq hr hroute]\<rparr>,
          if srh_has_spawned_globals_shutdown h then gs else gs @ [of_nat i])"
    using start_on_worker_client [OF Cons.prems(1) i(3) _ pp] i n by fastforce
  have upd: "(rt_pps st)[i := client_pp (map (\<lambda>j. j \<noteq> i) [0..<n]) (srh_plane_id h) client_stubs hq hr hroute] =
      clients_on n (srh_plane_id h) hq hr hroute (insert i D)"
    using Cons.prems(2) i by (simp add: clients_on_update)
  let ?h1 = "h\<lparr>srh_has_spawned_globals_shutdown := True\<rparr>"
  have pps1: "rt_pps (st\<lparr>rt_pps := clients_on n (srh_plane_id h) hq hr hroute (insert i D)\<rparr>) =
      clients_on n (srh_plane_id ?h1) hq hr hroute (insert i D)"
    by simp
  from Cons.IH [of ?h1 "st\<lparr>rt_pps := clients_on n (srh_plane_id h) hq hr hroute (insert i D)\<rparr>" "insert i D"
      "if srh_has_spawned_globals_shutdown h then gs else gs @ [of_nat i]"] Cons.prems(1,3,4,5) pps1
  obtain gs' where rest: "fold_sum (\<lambda>i x. if length (rt_pps (fst (snd x))) \<le> i then Inl IndexOutOfBounds
                         else map_sum id snd (start_on_worker (request_client_start hq hr hroute) (of_nat i) x))
           idx (?h1, st\<lparr>rt_pps := clients_on n (srh_plane_id h) hq hr hroute (insert i D)\<rparr>,
               if srh_has_spawned_globals_shutdown h then gs else gs @ [of_nat i]) =
         Inr (?h1\<lparr>srh_has_spawned_globals_shutdown := True\<rparr>,
              st\<lparr>rt_pps := clients_on n (srh_plane_id h) hq hr hroute (insert i D \<union> set idx)\<rparr>, gs')"
    by auto
  show ?case
    using rest step upd i(3) by simp
qed

section \<open>Runs of the worker system\<close>

text \<open>A set of system states closed under every task's turn contains every run from
  it, whatever the schedule.\<close>

lemma ws_run_closed:
  assumes closed: "\<And>S w t. S \<in> Q \<Longrightarrow> worker_task_step envs w t S = None \<or>
                               (\<exists>S'. worker_task_step envs w t S = Some (Inr S') \<and> S' \<in> Q)"
    and "S \<in> Q"
  shows "\<exists>S'. ws_run envs sched S = Inr S' \<and> S' \<in> Q"
  using assms(2)
proof (induction sched arbitrary: S)
  case Nil
  then show ?case by simp
next
  case (Cons wt sched)
  obtain w t where wt: "wt = (w, t)" by fastforce
  from closed [OF Cons.prems, of w t] show ?case
    using Cons.IH [OF Cons.prems] Cons.IH wt by auto
qed

lemma client_pp_chain:
  "map_of (pp_handlers (client_pp senders plane_id client_stubs hq hr hroute)) (plane_id, 1) =
     Some \<lparr>nc_nodes = [\<lparr>source_filter = PACKET_PROCESSOR_SOURCE_NEW, body = RouteToWorker hroute\<rparr>,
                       \<lparr>source_filter = PACKET_PROCESSOR_SOURCE_ANY, body = Inline hr\<rparr>],
           nc_tracer = erb_object_path (rcs_response client_stubs), nc_plane_next_topic = Some 0\<rparr>"
  "pp_mutations (client_pp senders plane_id client_stubs hq hr hroute) = []"
  "pp_inter_worker_senders (client_pp senders plane_id client_stubs hq hr hroute) = senders"
  by (simp_all add: client_pp_def client_stubs_topics)

lemma client_pp_packet:
  assumes pkt: "pkt = send_raw_bytes src plane_id 1 (encode_response encT r)"
  defines "hdr \<equiv> send_raw_header src plane_id 1 (length (encode_response encT r))"
  shows "pkt = encode_transmit_packet hdr @ encode_response encT r @ []"
    and "decode_transmit_packet pkt = Some (hdr, encode_response encT r)"
    and "tp_plane_id hdr = plane_id" "tp_topic hdr = 1" "tp_source hdr = src"
  by (simp_all add: pkt hdr_def send_raw_bytes_def send_raw_header_def)

lemma client_pp_response_new:
  assumes pkt: "pkt = send_raw_bytes src plane_id 1 (encode_response encT r)"
    and rq: "rs_requester r = endpoint (rs_endpoint_addr s)" "rs_requester_worker r \<noteq> rs_worker_id s"
    and snd: "unat (rs_requester_worker r) < length senders" "senders ! unat (rs_requester_worker r)"
  shows "handle_packet (rc_env tb s hroute) PACKET_PROCESSOR_SOURCE_NEW pkt
           (client_pp senders plane_id client_stubs hq hr hroute) =
         Inr (client_pp senders plane_id client_stubs hq hr hroute,
              [WorkerPush (rs_requester_worker r) pkt, HandlerCall hr (plane_id, 1) src pkt,
               HandlerReturn hr (plane_id, 1)])"
proof -
  note p = client_pp_packet [OF pkt]
  have route: "route_worker (rc_env tb s hroute) hroute src pkt = Some (rs_requester_worker r)"
    using response_route_enc [of "encode_transmit_packet (send_raw_header src plane_id 1 (length (encode_response encT r)))"
        tb "endpoint (rs_endpoint_addr s)" "rs_worker_id s" encT r "[]"] rq
    by (simp only: p(1)) (simp add: rc_env_def)
  show ?thesis
    using route_inline_chain(1) [OF p(2), of "client_pp senders plane_id client_stubs hq hr hroute" _ hroute hr
        "rc_env tb s hroute"] route snd
    by (simp add: p(3-5) client_pp_chain rc_env_def)
qed

lemma client_pp_response_inter:
  assumes pkt: "pkt = send_raw_bytes src plane_id 1 (encode_response encT r)"
  shows "handle_packet (rc_env tb s hroute) PACKET_PROCESSOR_SOURCE_INTER_WORKER pkt
           (client_pp senders plane_id client_stubs hq hr hroute) =
         Inr (client_pp senders plane_id client_stubs hq hr hroute,
              [HandlerCall hr (plane_id, 1) src pkt, HandlerReturn hr (plane_id, 1)])"
proof -
  note p = client_pp_packet [OF pkt]
  show ?thesis
    using route_inline_chain(2) [OF p(2), of "client_pp senders plane_id client_stubs hq hr hroute" _ hroute hr
        "rc_env tb s hroute"]
    by (simp add: p(3-5) client_pp_chain rc_env_def)
qed

lemma replicate_update_same [simp]: "(replicate n x)[i := x] = replicate n x"
  by (induction n arbitrary: i) (simp_all split: nat.split)

lemma clients_on_nth:
  "i < n \<Longrightarrow> clients_on n plane_id hq hr hroute {..<n} ! i =
     client_pp (map (\<lambda>j. j \<noteq> i) [0..<n]) plane_id client_stubs hq hr hroute"
  by (simp add: clients_on_def)

lemma client_system_steps:
  fixes a b n tb hq hr hroute :: nat and w :: worker_id and r :: "'t response"
    and plane_id :: u32 and role_id :: u64 and endpoint_addr src :: endpoint_addr
    and st :: rt_state and pkt :: bytes
  defines "envs \<equiv> client_envs tb plane_id role_id endpoint_addr hroute"
    and "S0 \<equiv> ws_init n st a pkt"
    and "ca \<equiv> (of_nat a :: worker_id, hr, (plane_id, 1 :: u32), src, pkt)"
    and "cb \<equiv> (of_nat b :: worker_id, hr, (plane_id, 1 :: u32), src, pkt)"
  assumes n: "n < 2 ^ 16" and ab: "a < n" "b < n" "a \<noteq> b"
    and pps: "rt_pps st = clients_on n plane_id hq hr hroute {..<n}"
    and pkt: "pkt = send_raw_bytes src plane_id 1 (encode_response encT r)"
    and rq: "rs_requester r = endpoint endpoint_addr" "rs_requester_worker r = of_nat b"
  shows "worker_task_step envs w t S0 =
           (if unat w = a \<and> t = LocalRx
            then Some (Inr (S0\<lparr>ws_local_rx := replicate n [], ws_inter_rx := (replicate n [])[b := [pkt]],
                               ws_calls := [ca]\<rparr>)) else None)"
    and "worker_task_step envs w t (S0\<lparr>ws_local_rx := replicate n [], ws_inter_rx := (replicate n [])[b := [pkt]],
                               ws_calls := [ca]\<rparr>) =
           (if unat w = b \<and> t = InterWorkerRx
            then Some (Inr (S0\<lparr>ws_local_rx := replicate n [], ws_inter_rx := replicate n [],
                               ws_calls := [ca, cb]\<rparr>)) else None)"
    and "worker_task_step envs w t (S0\<lparr>ws_local_rx := replicate n [], ws_inter_rx := replicate n [],
                               ws_calls := [ca, cb]\<rparr>) = None"
proof -
  have ua: "unat (of_nat a :: worker_id) = a" and ub: "unat (of_nat b :: worker_id) = b"
    using ab n by simp_all
  let ?pp = "\<lambda>i. client_pp (map (\<lambda>j. j \<noteq> i) [0..<n]) plane_id client_stubs hq hr hroute"
  have pp_at: "rt_pps st ! i = ?pp i" if "i < n" for i
    using that by (simp add: pps clients_on_nth)
  have len: "length (rt_pps st) = n"
    by (simp add: pps clients_on_def)
  have keep: "(rt_pps st)[i := ?pp i] = rt_pps st" if "i < n" for i
    using pp_at [OF that] list_update_id [of "rt_pps st" i] by simp
  have env: "\<And>w. envs w = rc_env tb (role_setup_new ''RequestClient'' w plane_id role_id endpoint_addr) hroute"
    by (simp add: envs_def client_envs_def)
  have neq: "(of_nat b :: worker_id) \<noteq> of_nat a"
    using ua ub ab by metis
  show "worker_task_step envs w t S0 =
           (if unat w = a \<and> t = LocalRx
            then Some (Inr (S0\<lparr>ws_local_rx := replicate n [], ws_inter_rx := (replicate n [])[b := [pkt]],
                               ws_calls := [ca]\<rparr>)) else None)"
  proof (cases "unat w = a \<and> t = LocalRx")
    case True
    then have w: "w = of_nat a" and t: "t = LocalRx"
      by auto
    have h: "handle_packet (envs w) PACKET_PROCESSOR_SOURCE_NEW pkt (rt_pps st ! a) =
        Inr (rt_pps st ! a, [WorkerPush (of_nat b) pkt, HandlerCall hr (plane_id, 1) src pkt,
                              HandlerReturn hr (plane_id, 1)])"
      using client_pp_response_new [OF pkt, of "role_setup_new ''RequestClient'' w plane_id role_id endpoint_addr"
          "map (\<lambda>j. j \<noteq> a) [0..<n]" tb hroute hq hr] rq ab ua ub w pp_at [of a] neq
      by (simp add: env role_setup_new_def)
    show ?thesis
      using True h ab len keep [of a]
      by (simp add: worker_task_step_def S0_def ws_init_def t w ua ub ca_def nth_list_update)
  next
    case False
    then show ?thesis
      by (cases t) (auto simp: worker_task_step_def S0_def ws_init_def nth_list_update Let_def)
  qed
  show "worker_task_step envs w t (S0\<lparr>ws_local_rx := replicate n [], ws_inter_rx := (replicate n [])[b := [pkt]],
                               ws_calls := [ca]\<rparr>) =
           (if unat w = b \<and> t = InterWorkerRx
            then Some (Inr (S0\<lparr>ws_local_rx := replicate n [], ws_inter_rx := replicate n [],
                               ws_calls := [ca, cb]\<rparr>)) else None)"
  proof (cases "unat w = b \<and> t = InterWorkerRx")
    case True
    then have w: "w = of_nat b" and t: "t = InterWorkerRx"
      by auto
    have h: "handle_packet (envs w) PACKET_PROCESSOR_SOURCE_INTER_WORKER pkt (rt_pps st ! b) =
        Inr (rt_pps st ! b, [HandlerCall hr (plane_id, 1) src pkt, HandlerReturn hr (plane_id, 1)])"
      using client_pp_response_inter [OF pkt, of tb "role_setup_new ''RequestClient'' w plane_id role_id endpoint_addr"
          hroute "map (\<lambda>j. j \<noteq> b) [0..<n]" hq hr] pp_at [of b] ab
      by (simp add: env)
    show ?thesis
      using True h ab len keep [of b]
      by (simp add: worker_task_step_def S0_def ws_init_def t w ub cb_def nth_list_update)
  next
    case False
    then show ?thesis
      by (cases t) (auto simp: worker_task_step_def S0_def ws_init_def nth_list_update Let_def)
  qed
  show "worker_task_step envs w t (S0\<lparr>ws_local_rx := replicate n [], ws_inter_rx := replicate n [],
                               ws_calls := [ca, cb]\<rparr>) = None"
    by (cases t) (auto simp: worker_task_step_def Let_def)
qed

lemma client_system_runs:
  fixes a b n tb hq hr hroute :: nat and r :: "'t response"
    and plane_id :: u32 and role_id :: u64 and endpoint_addr src :: endpoint_addr
    and st :: rt_state and pkt :: bytes
  defines "envs \<equiv> client_envs tb plane_id role_id endpoint_addr hroute"
    and "S0 \<equiv> ws_init n st a pkt"
    and "ca \<equiv> (of_nat a :: worker_id, hr, (plane_id, 1 :: u32), src, pkt)"
    and "cb \<equiv> (of_nat b :: worker_id, hr, (plane_id, 1 :: u32), src, pkt)"
  assumes n: "n < 2 ^ 16" and ab: "a < n" "b < n" "a \<noteq> b"
    and pps: "rt_pps st = clients_on n plane_id hq hr hroute {..<n}"
    and pkt: "pkt = send_raw_bytes src plane_id 1 (encode_response encT r)"
    and rq: "rs_requester r = endpoint endpoint_addr" "rs_requester_worker r = of_nat b"
  shows "ws_run envs [(of_nat a, LocalRx), (of_nat b, InterWorkerRx)] S0 =
           Inr (S0\<lparr>ws_local_rx := replicate n [], ws_inter_rx := replicate n [], ws_calls := [ca, cb]\<rparr>)"
    and "\<exists>S. ws_run envs sched S0 = Inr S \<and> (\<exists>k \<le> 2. ws_calls S = take k [ca, cb])"
proof -
  let ?S1 = "S0\<lparr>ws_local_rx := replicate n [], ws_inter_rx := (replicate n [])[b := [pkt]], ws_calls := [ca]\<rparr>"
  let ?S2 = "S0\<lparr>ws_local_rx := replicate n [], ws_inter_rx := replicate n [], ws_calls := [ca, cb]\<rparr>"
  note steps = client_system_steps [where tb = tb and role_id = role_id, OF n ab pps pkt rq, folded envs_def S0_def ca_def cb_def]
  have ua: "unat (of_nat a :: worker_id) = a" and ub: "unat (of_nat b :: worker_id) = b"
    using ab n by simp_all
  show "ws_run envs [(of_nat a, LocalRx), (of_nat b, InterWorkerRx)] S0 = Inr ?S2"
    using steps(1) [where w = "of_nat a" and t = LocalRx] steps(2) [where w = "of_nat b" and t = InterWorkerRx] ua ub
    by simp
  have closed: "worker_task_step envs w t S = None \<or>
      (\<exists>S'. worker_task_step envs w t S = Some (Inr S') \<and> S' \<in> {S0, ?S1, ?S2})"
    if "S \<in> {S0, ?S1, ?S2}" for S w t
    using that steps [where w = w and t = t] by auto
  obtain S where "ws_run envs sched S0 = Inr S" "S \<in> {S0, ?S1, ?S2}"
    using ws_run_closed [of "{S0, ?S1, ?S2}" envs, OF closed] by blast
  moreover have "ws_calls S0 = take 0 [ca, cb]"
    by (simp add: S0_def ws_init_def)
  ultimately show "\<exists>S. ws_run envs sched S0 = Inr S \<and> (\<exists>k \<le> 2. ws_calls S = take k [ca, cb])"
    by (intro exI [of _ S] conjI) (auto intro: exI [of _ "0 :: nat"] exI [of _ "1 :: nat"] exI [of _ "2 :: nat"])
qed

lemma client_runtime_started:
  assumes n: "1 + unat c < 2 ^ 16"
  shows "\<exists>h gs. client_runtime c plane_id endpoint_addr ch role_id hq hr hroute =
           Inr (h, \<lparr>rt_globals = new_inner, rt_pps = clients_on (1 + unat c) plane_id hq hr hroute {..<1 + unat c}\<rparr>, gs)"
proof -
  define N where "N = 1 + unat c"
  define h0 where "h0 = fst (start_role plane_id endpoint_addr (SingleChannel ch) role_id)"
  have N: "N < 2 ^ 16"
    using n by (simp add: N_def)
  have h0: "srh_topic_channels h0 = SingleChannel ch" "srh_plane_id h0 = plane_id"
    "srh_role_id h0 = role_id" "srh_endpoint_addr h0 = endpoint_addr"
    by (simp_all add: h0_def start_role_def)
  have start: "rb_start (rb_with_groups True [c]) =
      Inr (of_nat N, map (\<lambda>i. (of_nat i, pp_new (map (\<lambda>j. j \<noteq> i) [0..<N]))) [0..<N])"
    using rb_start_layout [of True "[c]"] N by (simp add: N_def)
  have groups: "rb_worker_groups (rb_with_groups True [c]) = [\<lparr>wg_first_worker_index = 1, wg_worker_count = c\<rparr>]"
    by (simp add: rb_with_groups_eq)
  define st0 where "st0 = rt_of_start (map (\<lambda>i. (of_nat i :: worker_id, pp_new (map (\<lambda>j. j \<noteq> i) [0..<N]))) [0..<N])"
  have st0: "rt_pps st0 = clients_on N (srh_plane_id h0) hq hr hroute {}"
    by (simp add: st0_def rt_of_start_def clients_on_def comp_def)
  have end_w: "unat (1 + c) = N"
  proof -
    have "(1 + c :: u16) = of_nat N"
      by (simp add: N_def)
    then show ?thesis
      using N by simp
  qed
  have idx: "set [1..<N] \<subseteq> {..<N}" "set [1..<N] \<inter> {} = {}"
    by auto
  obtain gs where grp: "on_worker_group (request_client_start hq hr hroute)
        \<lparr>wg_first_worker_index = 1, wg_worker_count = c\<rparr> (h0, st0, []) =
      Inr (h0\<lparr>srh_has_spawned_globals_shutdown := srh_has_spawned_globals_shutdown h0 \<or> [1..<N] \<noteq> []\<rparr>,
           st0\<lparr>rt_pps := clients_on N (srh_plane_id h0) hq hr hroute {1..<N}\<rparr>, gs)"
    using fold_start_clients [OF h0(1) N st0 distinct_upt idx, of "[]"]
    by (auto simp: on_worker_group_def end_w)
  let ?h1 = "h0\<lparr>srh_has_spawned_globals_shutdown := srh_has_spawned_globals_shutdown h0 \<or> [1..<N] \<noteq> []\<rparr>"
  let ?st1 = "st0\<lparr>rt_pps := clients_on N (srh_plane_id h0) hq hr hroute {1..<N}\<rparr>"
  have pp0: "rt_pps ?st1 ! 0 = pp_new (map (\<lambda>j. j \<noteq> 0) [0..<N])"
    by (simp add: clients_on_fresh N_def)
  have tc1: "srh_topic_channels ?h1 = SingleChannel ch" and len1: "0 < length (rt_pps ?st1)"
    using h0 by (simp_all add: N_def)
  obtain hooks where loc: "start_on_worker (request_client_start hq hr hroute) (of_nat 0) (?h1, ?st1, gs) =
      Inr (hooks, ?h1\<lparr>srh_has_spawned_globals_shutdown := True\<rparr>,
           ?st1\<lparr>rt_pps := (rt_pps ?st1)[0 := client_pp (map (\<lambda>j. j \<noteq> 0) [0..<N]) (srh_plane_id ?h1)
             client_stubs hq hr hroute]\<rparr>,
           if srh_has_spawned_globals_shutdown ?h1 then gs else gs @ [of_nat 0])"
    using start_on_worker_client [OF tc1 len1 _ pp0, where hq = hq and hr = hr and hroute = hroute and gs = gs]
    by auto
  have all: "insert 0 {1..<N} = {..<N}"
    by (auto simp: N_def)
  have "client_runtime c plane_id endpoint_addr ch role_id hq hr hroute =
      Inr (?h1\<lparr>srh_has_spawned_globals_shutdown := True\<rparr>,
           st0\<lparr>rt_pps := clients_on N plane_id hq hr hroute {..<N}\<rparr>,
           if srh_has_spawned_globals_shutdown ?h1 then gs else gs @ [of_nat 0])"
  proof -
    have cr: "client_runtime c plane_id endpoint_addr ch role_id hq hr hroute =
        srh_run (request_client_start hq hr hroute) [\<lparr>wg_first_worker_index = 1, wg_worker_count = c\<rparr>]
          (Some (Some 0)) (h0, st0, [])"
      unfolding client_runtime_def Let_def start groups by (simp add: h0_def st0_def)
    have "0 < N"
      by (simp add: N_def)
    then have upd: "(clients_on N plane_id hq hr hroute {1..<N})[0 := client_pp (map (\<lambda>j. j \<noteq> 0) [0..<N])
        plane_id client_stubs hq hr hroute] = clients_on N plane_id hq hr hroute {..<N}"
      by (simp only: clients_on_update all)
    show ?thesis
      unfolding cr using loc grp h0 upd
      by (simp add: srh_run_def srh_local_def)
  qed
  then show ?thesis
    by (simp add: st0_def rt_of_start_def N_def)
qed

text \<open>
  Claim C15. Start a runtime with a local worker and a group of c remote workers (N = 1 + c
  workers in all, N < 2^16), then a request client role on the group and locally on
  worker 0.  The start succeeds.  Take a response addressed to the client's endpoint and
  to worker b, arriving in the local queue of another worker a.  When a's local task and
  then b's inter-worker task take their turns, a forwards the packet to b and both run
  the client's inline response handler, after which no work is left.  Under any schedule
  of the workers' tasks the system never panics, and the handler calls it has made are
  a prefix of those two calls.
\<close>
theorem client_response_delivery:
  fixes a b tb hq hr hroute :: nat and c :: u16 and r :: "'t response"
    and plane_id ch :: u32 and role_id :: u64 and endpoint_addr src :: endpoint_addr and pkt :: bytes
  assumes n: "1 + unat c < 2 ^ 16" and ab: "a < 1 + unat c" "b < 1 + unat c" "a \<noteq> b"
    and pkt: "pkt = send_raw_bytes src plane_id 1 (encode_response encT r)"
    and rq: "rs_requester r = endpoint endpoint_addr" "rs_requester_worker r = of_nat b"
  shows "\<exists>h st gs. client_runtime c plane_id endpoint_addr ch role_id hq hr hroute = Inr (h, st, gs) \<and>
           ws_run (client_envs tb plane_id role_id endpoint_addr hroute)
             [(of_nat a, LocalRx), (of_nat b, InterWorkerRx)] (ws_init (1 + unat c) st a pkt) =
           Inr ((ws_init (1 + unat c) st a pkt)\<lparr>ws_local_rx := replicate (1 + unat c) [],
                  ws_inter_rx := replicate (1 + unat c) [],
                  ws_calls := [(of_nat a, hr, (plane_id, 1), src, pkt), (of_nat b, hr, (plane_id, 1), src, pkt)]\<rparr>) \<and>
           (\<forall>sched. \<exists>S. ws_run (client_envs tb plane_id role_id endpoint_addr hroute) sched
                            (ws_init (1 + unat c) st a pkt) = Inr S \<and>
              (\<exists>k \<le> 2. ws_calls S = take k [(of_nat a, hr, (plane_id, 1), src, pkt),
                                           (of_nat b, hr, (plane_id, 1), src, pkt)]))"
proof -
  obtain h gs where run: "client_runtime c plane_id endpoint_addr ch role_id hq hr hroute =
      Inr (h, \<lparr>rt_globals = new_inner, rt_pps = clients_on (1 + unat c) plane_id hq hr hroute {..<1 + unat c}\<rparr>, gs)"
    using client_runtime_started [OF n] by blast
  let ?st = "\<lparr>rt_globals = new_inner, rt_pps = clients_on (1 + unat c) plane_id hq hr hroute {..<1 + unat c}\<rparr>"
  have pps: "rt_pps ?st = clients_on (1 + unat c) plane_id hq hr hroute {..<1 + unat c}"
    by simp
  note sys = client_system_runs [OF n ab pps pkt rq, where tb = tb and role_id = role_id]
  show ?thesis
    using run sys by blast
qed

text \<open>Witness: a local worker and one remote worker; a response to worker 1 arriving
  at worker 0.\<close>

definition demo_rt_response :: "u32 response" where
  "demo_rt_response = \<lparr>rs_request_id = 0, rs_requester = 5, rs_requester_worker = 1, rs_payload = 7\<rparr>"

theorem client_response_delivery_witness:
  "\<exists>h st gs. client_runtime 1 3 \<lparr>endpoint = 5\<rparr> 0 1 1 2 3 = Inr (h, st, gs) \<and>
     ws_run (client_envs 4 3 1 \<lparr>endpoint = 5\<rparr> 3)
       [(of_nat 0, LocalRx), (of_nat 1, InterWorkerRx)]
       (ws_init (1 + unat (1 :: u16)) st 0 (send_raw_bytes \<lparr>endpoint = 9\<rparr> 3 1 (encode_response encode_u32 demo_rt_response))) =
     Inr ((ws_init (1 + unat (1 :: u16)) st 0 (send_raw_bytes \<lparr>endpoint = 9\<rparr> 3 1 (encode_response encode_u32 demo_rt_response)))
            \<lparr>ws_local_rx := replicate (1 + unat (1 :: u16)) [], ws_inter_rx := replicate (1 + unat (1 :: u16)) [],
             ws_calls := [(of_nat 0, 2, (3, 1), \<lparr>endpoint = 9\<rparr>,
                             send_raw_bytes \<lparr>endpoint = 9\<rparr> 3 1 (encode_response encode_u32 demo_rt_response)),
                          (of_nat 1, 2, (3, 1), \<lparr>endpoint = 9\<rparr>,
                             send_raw_bytes \<lparr>endpoint = 9\<rparr> 3 1 (encode_response encode_u32 demo_rt_response))]\<rparr>) \<and>
     (\<forall>sched. \<exists>S. ws_run (client_envs 4 3 1 \<lparr>endpoint = 5\<rparr> 3) sched
         (ws_init (1 + unat (1 :: u16)) st 0 (send_raw_bytes \<lparr>endpoint = 9\<rparr> 3 1 (encode_response encode_u32 demo_rt_response))) = Inr S \<and>
       (\<exists>k \<le> 2. ws_calls S = take k
          [(of_nat 0, 2, (3, 1), \<lparr>endpoint = 9\<rparr>, send_raw_bytes \<lparr>endpoint = 9\<rparr> 3 1 (encode_response encode_u32 demo_rt_response)),
           (of_nat 1, 2, (3, 1), \<lparr>endpoint = 9\<rparr>, send_raw_bytes \<lparr>endpoint = 9\<rparr> 3 1 (encode_response encode_u32 demo_rt_response))]))"
  by (rule client_response_delivery [where c = 1 and a = 0 and b = 1 and tb = 4 and hq = 1 and hr = 2 and hroute = 3
      and plane_id = 3 and ch = 0 and role_id = 1 and endpoint_addr = "\<lparr>endpoint = 5\<rparr>"
      and src = "\<lparr>endpoint = 9\<rparr>" and encT = encode_u32 and r = demo_rt_response
      and pkt = "send_raw_bytes \<lparr>endpoint = 9\<rparr> 3 1 (encode_response encode_u32 demo_rt_response)"])
    (simp_all add: demo_rt_response_def)

theorem rb_start_overflow_witness:
  "(1 + sum_list (map unat [65535 :: u16])) mod 2 ^ 16 = 0 \<and>
   rb_start (rb_with_groups True [65535]) = Inl IndexOutOfBounds"
proof -
  have h: "(1 + sum_list (map unat [65535 :: u16])) mod 2 ^ 16 = 0"
    by simp
  show ?thesis
    using h rb_start_overflow [OF h] by (rule conjI)
qed

theorem globals_cleanup_once_witness:
  "\<exists>h st' spawned.
     srh_run (\<lambda>_ _ _ _ st. Inr ((), st)) [\<lparr>wg_first_worker_index = 1, wg_worker_count = 2\<rparr>] (Some (Some 0))
       (fst (start_role 3 \<lparr>endpoint = 5\<rparr> (SingleChannel 0) 7),
        \<lparr>rt_globals = new_inner, rt_pps = replicate 3 (pp_new [True, True, True])\<rparr>, []) = Inr (h, st', spawned) \<and>
     spawned = take 1 (concat (map group_workers [\<lparr>wg_first_worker_index = 1, wg_worker_count = 2\<rparr>]) @ [0]) \<and>
     (srh_has_spawned_globals_shutdown h \<longleftrightarrow> spawned \<noteq> [])"
proof -
  let ?st = "\<lparr>rt_globals = new_inner, rt_pps = replicate 3 (pp_new [True, True, True])\<rparr>"
  let ?h = "\<lparr>srh_plane_id = 3, srh_endpoint_addr = \<lparr>endpoint = 5\<rparr>, srh_topic_channels = SingleChannel 0,
            srh_role_id = 7, srh_has_spawned_globals_shutdown = True\<rparr>"
  let ?hs = "fst (start_role 3 \<lparr>endpoint = 5\<rparr> (SingleChannel 0) 7)"
  have s: "start_role 3 \<lparr>endpoint = 5\<rparr> (SingleChannel 0) 7 = (?hs, 8)"
    by (simp add: start_role_def)
  have r: "srh_run (\<lambda>_ _ _ _ st. Inr ((), st)) [\<lparr>wg_first_worker_index = 1, wg_worker_count = 2\<rparr>] (Some (Some 0))
      (?hs, ?st, []) = Inr (?h, ?st, [1])"
    by (simp add: start_role_def srh_run_def on_worker_group_def start_on_worker_def create_packet_sender_def
        srh_local_def upt_rec)
  have c: "[1] = take 1 (concat (map group_workers [\<lparr>wg_first_worker_index = 1, wg_worker_count = 2\<rparr>]) @
             (case Some (Some (0 :: worker_id)) of Some (Some w) \<Rightarrow> [w] | _ \<Rightarrow> [])) \<and>
      (srh_has_spawned_globals_shutdown ?h \<longleftrightarrow> [1 :: worker_id] \<noteq> [])"
    by (rule globals_cleanup_once [OF s r])
  show ?thesis
    using r c by (intro exI [of _ ?h] exI [of _ ?st] exI [of _ "[1]"] conjI) (simp only: option.case)+
qed

end
