(* ===== verification/Spec2Isabelle.thy ===== *)
theory Spec2Isabelle
  imports PacketProcessor ContextMap FlushBatcher Proto RequestTracker EndpointProto AppProto LoadBalancer SchemaParser Broadcaster Streams Roles RoleSetup RequestRoles Runtime
begin

text \<open>
  A verification library for modrpc, the Rust RPC framework whose core is the crate
  \<open>crates/modrpc\<close>, with its standard roles (\<open>std-modrpc\<close>) and the generated
  protocol crates of its examples.  A modrpc endpoint runs one single-threaded worker per
  core; every message on the wire is a packet (a 20-byte \<open>TransmitPacket\<close> header and a
  payload) and every worker routes the packets it produces or receives through its
  \<open>PacketProcessor\<close>, a table from \<open>(plane_id, topic)\<close> to a chain of handler nodes.
  Transports move bundles of packets, each prefixed by a \<open>PacketBundle\<close> header, after a
  length-prefixed \<open>PlaneHandshake\<close>.  Requests and responses are correlated per worker
  by the \<open>RequestTracker\<close>.

  \<^bold>\<open>Theories.\<close>
  \<^item> \<open>Prelude\<close>: the machine integer types (\<open>u8\<close> to \<open>u64\<close> as words), the
    little-endian fixed-width codec of the external \<open>mproto\<close> crate (modelled from the
    specification), exact codecs (\<open>codec_exact\<close>: decode succeeds exactly on an encoding
    followed by the rest), and lemmas on association lists, which stand for the
    \<open>HashMap\<close>s of the runtime.
  \<^item> \<open>Wire\<close>: \<open>endpoint_proto.rs\<close> (\<open>EndpointAddr\<close>, \<open>TransmitPacket\<close>,
    \<open>PacketBundle\<close>, the lazy accessors), the header of \<open>PacketSender::send_raw\<close>
    (\<open>packet_sender.rs\<close>) and the splitting of bundles in \<open>transport.rs\<close>
    (\<open>shatter_packet_bundle\<close>, \<open>ShatterPacketBundle\<close>). Lemmas: the codecs round
    trip, splitting inverts the framing, the lazy accessors agree with the decoder, and the
    two places where the code loses data (a final empty packet skipped by the iterator, the
    truncating \<open>len as u16\<close>).
  \<^item> \<open>EndpointProto\<close>: the rest of \<open>endpoint_proto.rs\<close> (Gen forms, lazy views with
    their re-encoding and \<open>PartialEq\<close>, \<open>TryFrom\<close>, \<open>PlaneHandshake<T>\<close>) and the
    handshake exchange of \<open>tcp_client_server.rs\<close>. Lemmas: the handshake round trips
    below 64 KiB and is misframed above (\<open>payload_len as u16\<close>); lazy equality agrees
    with equality of headers.
  \<^item> \<open>PacketProcessor\<close>: \<open>packet_processor.rs\<close>. The state is the record
    \<open>packet_processor\<close> (fields for \<open>handlers\<close>, \<open>existing_topics\<close>,
    \<open>mutations\<close>, \<open>plane_topic_chain\<close>, \<open>inter_worker_senders\<close>);
    \<open>add_node\<close>, \<open>add_node_impl\<close>, \<open>remove_plane\<close>, \<open>remove_plane_impl\<close>
    are the methods of the same names, \<open>handle_packet\<close> is the method itself with the
    chain walk as the mutually recursive \<open>dispatch\<close>/\<open>walk_nodes\<close>/\<open>run_ops\<close>,
    where \<open>run_ops\<close> runs what an inline handler does (a \<open>try_send\<close>, which
    dispatches at once on the same processor, or an \<open>add_node\<close>/\<open>remove_plane\<close>
    that finds the table read-locked and is deferred). The flag \<open>is_in_handler\<close> of
    each chain is the list \<open>active\<close> of chains whose handler runs; recursion terminates
    because each nested dispatch enters a chain not yet active. Observable actions are a
    list of \<open>pp_effect\<close>s. Lemmas: the calls are well nested and never re-enter a
    chain, the table does not change during dispatch, the \<open>i32\<close> worker mask is a set
    for worker ids below 32, and in any chain a worker equal modulo 32 to one already
    served is skipped; the order of nodes; and on any processor whose topic is the only
    one of its plane, a handler that removes the plane and re-adds a handler makes
    \<open>handle_packet\<close> panic (the deferred add has no tracer).
  \<^item> \<open>ContextMap\<close>: \<open>context_map.rs\<close>, the hash table of items as an association
    list from item address to item with the intrusive per-tag chains; \<open>with_inner_fn\<close>,
    \<open>shutdown_tag\<close> and \<open>Drop\<close>. The chains are walked with fuel (the number of
    items, which bounds any chain). Lemmas: under the invariant \<open>cm_wf\<close> the map
    refines find-or-insert on an abstract map (\<open>cm_abs\<close>) and \<open>shutdown_tag\<close>
    drops exactly the items created under the tag; the crate's unit test; a key used under
    two tags survives the shutdown of the second.
  \<^item> \<open>FlushBatcher\<close>: \<open>flush_batcher.rs\<close>, the flush task loop of \<open>rt.rs\<close> and the
    high-water decision of \<open>send_raw\<close>; time is an explicit argument in nanoseconds.
    Lemmas: a scheduled flush happens at its deadline, the flush task is never left parked
    with a pending deadline, and the overflow of \<open>checked_add\<close> disables timed flushes.
  \<^item> \<open>Proto\<close> and \<open>AppProto\<close>: every generated struct of std-modrpc's
    \<open>proto.rs\<close> and of the example and test interfaces, with codec, Gen form, lazy view,
    \<open>TryFrom\<close> and \<open>PartialEq\<close>. Lemmas: the codecs are exact for any exact payload
    codec, lazy accessors agree with the owned decoders, lazy re-encoding reproduces the
    bytes, and lazy equality agrees with equality.
  \<^item> \<open>Slab\<close>: the \<open>slab\<close> crate (a dependency, modelled from its documented
    behaviour) with a free-list invariant \<open>slab_wf\<close> and the abstraction
    \<open>slab_abs\<close> to a finite map; every operation preserves the invariant and implements
    the map operation.
  \<^item> \<open>RequestTracker\<close>: \<open>request_tracker.rs\<close> and the request paths of
    \<open>request_client.rs\<close> and \<open>request_server.rs\<close>. The caller-await table is a
    slab, the subscription table an association list with reference counts; wakers,
    callback invocations and notifications are effects. \<open>tracker_reach\<close> is the step
    relation of every operation from \<open>RequestTracker::new\<close>; its invariant
    (\<open>sub_inv\<close>, \<open>slab_wf\<close>) is proved by rule induction. Lemmas: the caller table
    refines a map, responses reach exactly the addressed worker, fresh ids, safe
    subscription drops, routing of responses, a response completing its pending call and
    freeing the slot, on any tracker a stale response of an abandoned call completing
    the next call (which reuses its id), and the panic of \<open>call\<close> on an undecodable
    response.
  \<^item> \<open>LoadBalancer\<close>: \<open>load_balancer.rs\<close> on one worker. The record
    \<open>lb_state\<close> holds the flag \<open>is_flushing_overflow\<close>, the local queue with its
    capacity, the shared queue, the pull task's burst and position in its loop, and ghost
    logs of produced and handled packets; \<open>lb_route_closure\<close> is the routing closure,
    \<open>lb_loop_top\<close>, \<open>lb_recv\<close>, \<open>lb_feed\<close> the steps of the spawned task, and
    \<open>lb_step\<close> interleaves them with production and consumption; \<open>lb_reach\<close> is the
    reachability relation. Lemmas: no packet is lost or duplicated (multiset conservation,
    by rule induction), and from any state whose local queue is full while the task is not
    flushing, a spilled packet is overtaken by a later one of the same worker.
  \<^item> \<open>CodegenAst\<close>: the AST of \<open>modrpc-codegen/src/ast.rs\<close> (one record per
    struct, the \<open>mproto\<close> types as a type parameter), the role queries of
    \<open>impl Interface\<close> and \<open>impl InterfaceObject\<close>, and the name database of
    \<open>db.rs\<close>; \<open>Interface::has_state\<close> is a \<open>partial_function (option)\<close>.
    Lemmas: module well-formedness is preserved and a module refines a finite map from names
    to interfaces; \<open>has_state\<close> returns on ranked (acyclic) object graphs and never
    returns on the interfaces of a cycle through stateless interfaces' first objects.
  \<^item> \<open>SchemaParser\<close>: \<open>parse.rs\<close>. The \<open>nom\<close> 7 combinators (not in the
    repository, written from their behaviour) over a result type with nom's recoverable
    error and failure, \<open>None\<close> standing for a parse that does not return; every parser
    of the file (those whose names are taken by AST records carry a suffix \<open>_p\<close>),
    \<open>parse_schema\<close>, and \<open>parse_file\<close> after the file is read. The
    \<open>mproto_codegen\<close> parsers are a record argument. Lemmas: parsing returns whenever
    those parsers return and consume input (each \<open>separated_list0\<close> loop ends because
    its separator must consume), imports round-trip through their printed form, any text
    after the imports that starts no item is silently dropped with everything after it
    (the unparsed rest of \<open>root\<close> is ignored), and \<open>}}\<close> without a space fails
    the item list.
  \<^item> \<open>Broadcaster\<close>: \<open>broadcaster.rs\<close> of the hub. The record
    \<open>broadcaster\<close> is \<open>Broadcaster\<close> with each \<open>SlotMap\<close> as its live keys and a
    fresh-key counter; \<open>handle_request\<close>, \<open>remove_transport\<close>,
    \<open>handle_in_packet\<close> and \<open>broadcast\<close> return the new state and the list of writes
    (\<open>bc_out\<close>: a framed bundle for TCP and WebSocket, shattered packets for a local
    transport); \<open>bc_step\<close> is one round of \<open>run\<close> and \<open>bc_reach\<close> its reachable
    states. Lemmas: no bundle returns to its source or goes to a removed transport, no
    next hop survives the removal of its transport on any reachable state, and each
    written frame decodes with the \<open>Wire\<close> bundle codec to the incoming bundle.
  \<^item> \<open>Streams\<close>: the stream roles of \<open>std-modrpc\<close>
    (\<open>role_impls/stream_sender.rs\<close>, \<open>stream_receiver.rs\<close>,
    \<open>multi_stream_sender.rs\<close>, \<open>multi_stream_receiver.rs\<close>). The senders number
    items from 0; the multi-stream receiver's \<open>StreamState\<close> is a record whose
    \<open>BinaryHeap\<close> is a list sorted by sequence number and whose \<open>localq\<close> channel is
    a list of capacity 1 (\<open>handle_item\<close>, \<open>try_pop\<close>, \<open>try_next_packet\<close>); the
    broker maps stream ids to references into an explicit store of shared states
    (\<open>new_stream\<close>, the inline item handler of \<open>build\<close>); \<open>next\<close>, \<open>collect\<close> and
    \<open>try_collect\<close> are partial functions (waiting for an item that never comes is no
    result); the callback readers \<open>with_next\<close> and \<open>with_next_sync\<close> are one poll
    (no result while no packet is there), \<open>with_try_next\<close> calls its closure either way.
    The single-stream receiver's inline handler and task are modelled as written.
    The interleaving of arrivals and reads is the inductive relation \<open>ms_reach\<close>. Lemmas:
    whatever the arrival order, the receiver reads the items in order without gaps, and
    \<open>collect\<close> returns all payloads once all items have arrived; completion is reported
    only for streams started at 0; a duplicated item stalls a stream for ever; the
    single-stream receiver never delivers an item (it reads the sequence number inside the
    transport header).
  \<^item> \<open>Roles\<close>: the property owner and observer and the byte stream
    (\<open>property_owner.rs\<close>, \<open>property_observer.rs\<close>, \<open>byte_stream_sender.rs\<close>,
    \<open>byte_stream_receiver.rs\<close>) over \<open>EventTx::send\<close> and \<open>EventRxBuilder::inline\<close>
    of \<open>role_setup.rs\<close>. Each role's state is a record; the byte-stream receiver's blob
    table is an association list and \<open>try_peek_ahead\<close>'s loop a partial function. Lemmas:
    an observer follows the owner's updates; the byte stream returns the sent chunks in
    order whatever the arrival order; an empty send loses the next blob and makes
    \<open>try_peek_ahead\<close> loop for ever; a packet of 8 to 27 bytes panics the blob handler.
  \<^item> \<open>RoleSetup\<close>: \<open>role_setup.rs\<close>, the node-adding methods of
    \<open>WorkerContext\<close> (\<open>worker.rs\<close>) and \<open>run_on_all_other_workers\<close> (\<open>rt.rs\<close>). The
    runtime state is the shared \<open>globals\<close> context map of \<open>ContextMap\<close> and the
    \<open>PacketProcessor\<close> of every worker; the inline and queued router setups add nodes
    with \<open>add_node\<close>, and \<open>add_topic_subscription\<close> updates the \<open>TopicSubscriptions\<close>
    mask through \<open>with_inner\<close> and adds redirects on the other workers. The callback readers
    of \<open>ReceiveMultiStream\<close> are in \<open>Streams\<close>. Lemmas: a queued receiver gets back
    what a role's \<open>EventTx\<close> sent; worker ids equal modulo 64 share a mask bit, so the
    second of them never gets its redirects.
  \<^item> \<open>RequestRoles\<close>: \<open>InterfaceBuilder\<close> (\<open>interface_builder.rs\<close>) and
    \<open>RequestInterface\<close> (\<open>std-modrpc/rust/src/interface.rs\<close>), the \<open>setup_worker\<close> of the
    request client and server roles (\<open>roles/request_client.rs\<close>, \<open>roles/request_server.rs\<close>),
    and what \<open>RequestClientBuilder::build\<close>, \<open>RequestClient::subscribe\<close> and
    \<open>RequestServerBuilder::build\<close> / \<open>build_replier\<close> install (with
    \<open>EventRxBuilder::route_to_worker\<close> and the packet-processor part of
    \<open>spawn_load_balancer\<close>). Lemmas: the client's setup on a fresh worker yields a
    response chain that forwards a novel response for another worker of the endpoint to
    that worker and never forwards a forwarded one again (through \<open>handle_packet\<close> of
    \<open>PacketProcessor\<close> and \<open>response_route\<close> of \<open>RequestTracker\<close>); \<open>build_replier\<close>'s
    reply is byte for byte the reply of \<open>build\<close>; a subscriber sees each request's
    source and payload.
  \<^item> \<open>Runtime\<close>: the worker runtime of \<open>rt.rs\<close>, \<open>worker.rs\<close> and \<open>role.rs\<close>.
    \<open>RuntimeBuilder\<close> (\<open>new_no_local\<close>, \<open>new_with_local\<close>, \<open>new_worker_group\<close>) and
    \<open>start\<close> (\<open>rb_start\<close>, \<open>rb_start_workers\<close>) number the workers and give each a
    \<open>PacketProcessor::new\<close> with the senders of \<open>build_inter_worker_batchers\<close>;
    \<open>start_role\<close>, \<open>on_worker_group\<close> and \<open>local\<close> of \<open>StartRoleHandle\<close> run
    \<open>run_role_worker\<close> on each worker, after \<open>TopicChannels::create_packet_sender\<close>;
    the local-rx and inter-worker-rx tasks of \<open>spawn_worker\<close> are the turns of
    \<open>worker_task_step\<close>, composed into a system of workers (\<open>worker_sys\<close>, \<open>ws_run\<close>)
    under any schedule.  Lemmas: the start numbers the workers in order; a \<open>u16\<close> total
    of \<open>2^16 - 1\<close> remote workers with a local one wraps \<open>worker_count\<close> to 0 and makes
    the start panic; the role's globals clean-up task is spawned once, on the first
    worker the role starts on; a request client started on a runtime delivers a response
    that arrives at the wrong worker to the requester's worker, and under every schedule
    its handler calls are a prefix of that delivery.
  \<^item> This theory: the request/response round trip across the client, the routing
    closure, the server and the tracker, on any well-formed tracker, payload and server
    handler, with the specification's seed scenario 3 as its instance.

  \<^bold>\<open>Bounds and fuel.\<close> The context-map chain walk gets as fuel the number of items,
  enough because a chain visits distinct items; the slab free list is walked with the
  length of the entry vector plus one, enough because it visits distinct vacant positions.
  The subscription invariant assumes fewer than \<open>2^32\<close> live handles (the \<open>u32\<close>
  count), and fresh request ids assume fewer than \<open>2^32\<close> slab entries (ids are slab
  keys cast to \<open>u32\<close>). The parser loop and \<open>has_state\<close> use no fuel: they
  are partial functions whose termination is a theorem under its hypothesis. The stream
  theorems take fewer than \<open>2^64 - 1\<close> items, so that sequence numbers do not wrap.
  The runtime theorems take a total number of workers below \<open>2^16\<close>, the range of
  \<open>WorkerId\<close>; one (\<open>rb_start_overflow\<close>) is about the wrap past it.  A run of the
  worker system is a finite schedule of task turns, so it needs no fuel.

  \<^bold>\<open>Not modelled.\<close> The async executor and the scheduling of tasks (the model is the
  sequential run of one worker; a queue send is assumed to find space), the \<open>bab\<close> buffer
  crate and the transports' I/O, the \<open>refpool\<close> pool behind the subscription states,
  tracing (\<open>probius\<close>), \<open>scratch_len\<close>/\<open>Debug\<close>/\<open>Clone\<close> impls of generated
  types, other workers sharing a load balancer's queue, the text templates of the code
  generator (\<open>codegen/\<close>), the hub's socket front ends (\<open>tcp.rs\<close>,
  \<open>websocket.rs\<close>, \<open>local.rs\<close>) and \<open>BroadcasterHandle\<close> (a channel wrapper
  around the modelled requests), the worker threads, shutdown signals, the command task
  and \<open>run_once\<close> of the runtime (a role start is modelled as running on its worker at
  once), \<open>add_transport\<close>, the byte stream's \<open>send_buffer\<close> (raw buffer
  pointers) and \<open>peek_ahead\<close> waiter queue, the multi-stream receiver's \<open>next_lazy\<close>,
  the request server's \<open>build_proxied\<close> and \<open>send_ok\<close>/\<open>send_err\<close>, and the
  \<open>setup_worker\<close> of the single-event roles and interfaces (each is one
  \<open>event_rx\<close> or \<open>event_tx\<close> call, as in the request roles).  The primitives of the
  libraries the code calls (the \<open>mproto\<close> integer codecs, \<open>nom\<close> combinators, \<open>slotmap\<close>,
  \<open>std\<close> string and time functions) are defined from their documentation as helpers;
  \<open>slab\<close>, whose key reuse the tracker's claims depend on, is defined the same way in
  \<open>Slab\<close>.  The wire framing of the spec, the runs of the modelled loops, the worker
  system and the runtime built by an application are harness definitions over the
  modelled code, not code of the repository.
\<close>

section \<open>Request/response round trip\<close>

text \<open>
  Claim C14. A request/response round trip across the wire codec, the generated Request
  and Response types, the client (call and the response routing of its builder), the
  server's build handler and the tracker.  On any well-formed tracker with fewer than
  2^32 slab entries, a call from worker lw of endpoint la with payload x, sent on the
  request topic, is decoded by the server, which replies with its handler's result
  f src x for the client's endpoint src.  The response is routed from any other worker
  of the endpoint to lw and not rerouted at lw; handled at lw it completes the call with
  f src x, and the call's slot is freed, leaving the caller-await table as it was.
\<close>
theorem request_round_trip:
  fixes encQ :: "'q \<Rightarrow> bytes" and encR :: "'r \<Rightarrow> bytes" and f :: "endpoint_addr \<Rightarrow> 'q \<Rightarrow> 'r"
    and la :: u64
  defines "src \<equiv> \<lparr>endpoint = la\<rparr>"
  assumes wf: "slab_wf (rt_pending_requests st)"
    and small: "length (sl_entries (rt_pending_requests st)) < 2 ^ 32"
    and cq: "codec_exact encQ decQ" and cr: "codec_exact encR decR"
    and call: "call_send encQ lw x st = Inr (rid, req, st1)"
    and other: "w0 \<noteq> lw"
  shows "\<exists>resp st2 effs st3.
           server_reply decQ f (tp_source (fst (the (decode_transmit_packet (send_raw_bytes src plane tq req)))))
             (drop transmit_packet_base_len (send_raw_bytes src plane tq req)) = Some resp \<and>
           response_route tb la w0 (send_raw_bytes srv plane tr (encode_response encR resp)) = Inr (Some lw) \<and>
           response_route tb la lw (send_raw_bytes srv plane tr (encode_response encR resp)) = Inr None \<and>
           handle_response tb plane la lw (send_raw_bytes srv plane tr (encode_response encR resp)) st1 =
             Inr (st2, effs) \<and>
           call_complete decR rid wk st2 = Inr (Some (f src x), st3) \<and>
           slab_abs (rt_pending_requests st3) = slab_abs (rt_pending_requests st)"
proof -
  from client_start_correct [OF wf] obtain k s1 where
      cs: "client_start_request st = Inr (of_nat k, s1)" and
      fresh: "slab_abs (rt_pending_requests st) k = None" and wf1: "slab_wf (rt_pending_requests s1)" and
      abs1: "slab_abs (rt_pending_requests s1) =
               (slab_abs (rt_pending_requests st))(k \<mapsto> \<lparr>prs_response = None, prs_waker = None\<rparr>)" and
      le: "k \<le> length (sl_entries (rt_pending_requests st))"
    by blast
  let ?q = "\<lparr>rq_request_id = rid, rq_worker = lw, rq_payload = x\<rparr>"
  from call cs have rid: "rid = of_nat k" and st1: "st1 = s1" and req: "req = encode_request encQ ?q"
    by (auto simp: call_send_def)
  from le small have k: "unat rid = k"
    by (simp add: rid unat_of_nat)
  let ?resp = "\<lparr>rs_request_id = rid, rs_requester = la, rs_requester_worker = lw, rs_payload = f src x\<rparr>"
  have dec: "decode_transmit_packet (send_raw_bytes src plane tq req) =
      Some (send_raw_header src plane tq (length req), req)"
    using send_raw_payload_length by blast
  have srv_reply: "server_reply decQ f src req = Some ?resp"
    using request_lazy_enc [of encQ ?q "[]"] request_lazy_payload_enc [OF cq, of ?q "[]"]
    by (simp add: server_reply_def req src_def)
  have reply: "server_reply decQ f (tp_source (fst (the (decode_transmit_packet (send_raw_bytes src plane tq req)))))
      (drop transmit_packet_base_len (send_raw_bytes src plane tq req)) = Some ?resp"
    using dec srv_reply by (simp add: send_raw_bytes_def send_raw_header_def)
  let ?h = "encode_transmit_packet (send_raw_header srv plane tr (length (encode_response encR ?resp)))"
  have rp: "send_raw_bytes srv plane tr (encode_response encR ?resp) = ?h @ encode_response encR ?resp @ []"
    by (simp add: send_raw_bytes_def)
  have h: "length ?h = transmit_packet_base_len"
    by simp
  have routes: "response_route tb la w0 (send_raw_bytes srv plane tr (encode_response encR ?resp)) = Inr (Some lw)"
      "response_route tb la lw (send_raw_bytes srv plane tr (encode_response encR ?resp)) = Inr None"
    using response_route_enc [OF h, of tb la w0 encR ?resp "[]"] response_route_enc [OF h, of tb la lw encR ?resp "[]"]
      other by (simp_all only: rp) simp_all
  obtain st2 effs where hr: "handle_response tb plane la lw (?h @ encode_response encR ?resp @ []) st1 = Inr (st2, effs)"
    using handle_response_enc [OF h, of tb plane la lw encR ?resp "[]" st1]
    by (auto simp: Let_def split: prod.splits)
  have get: "slab_abs (rt_pending_requests st1) (unat (rs_request_id ?resp)) = Some \<lparr>prs_response = None, prs_waker = None\<rparr>"
    using abs1 st1 k by simp
  from response_completes_call [OF wf1 [folded st1] get h cr, of tb plane "[]" st2 effs wk] hr
  obtain st3 where fin: "call_complete decR rid wk st2 = Inr (Some (f src x), st3)" and
      abs3: "slab_abs (rt_pending_requests st3) = (slab_abs (rt_pending_requests st1))(k := None)"
    using k by auto
  have "slab_abs (rt_pending_requests st3) = slab_abs (rt_pending_requests st)"
    using abs3 abs1 st1 fresh by (auto simp: fun_eq_iff)
  with reply routes hr fin rp show ?thesis
    by (intro exI [of _ ?resp] exI [of _ st2] exI [of _ effs] exI [of _ st3]) simp
qed

text \<open>The specification's seed scenario 3: the client runs on worker 1 of endpoint 5 and
  calls with payload 5 on plane 3, request topic 10; the server at endpoint 9 replies
  payload * 2 + 42 on response topic 11; the response first reaches worker 0.\<close>

theorem request_round_trip_witness:
  "\<exists>rid req st1. call_send encode_u32 1 (5::u32) rt_new = Inr (rid, req, st1) \<and>
     (\<exists>resp st2 effs st3.
        server_reply decode_u32 (\<lambda>src p. p * 2 + 42)
          (tp_source (fst (the (decode_transmit_packet (send_raw_bytes \<lparr>endpoint = 5\<rparr> 3 10 req)))))
          (drop transmit_packet_base_len (send_raw_bytes \<lparr>endpoint = 5\<rparr> 3 10 req)) = Some resp \<and>
        response_route 4 5 0 (send_raw_bytes \<lparr>endpoint = 9\<rparr> 3 11 (encode_response encode_u32 resp)) = Inr (Some 1) \<and>
        response_route 4 5 1 (send_raw_bytes \<lparr>endpoint = 9\<rparr> 3 11 (encode_response encode_u32 resp)) = Inr None \<and>
        handle_response 4 3 5 1 (send_raw_bytes \<lparr>endpoint = 9\<rparr> 3 11 (encode_response encode_u32 resp)) st1 =
          Inr (st2, effs) \<and>
        call_complete decode_u32 rid 7 st2 = Inr (Some ((5::u32) * 2 + 42), st3) \<and>
        slab_abs (rt_pending_requests st3) = slab_abs (rt_pending_requests rt_new))"
proof -
  obtain req where call: "call_send encode_u32 1 (5::u32) rt_new = Inr (0, req, rt_one)"
    by (simp add: call_send_def client_start_request_def slab_insert_def rt_new_def rt_one_def slab_new_def)
  have wf: "slab_wf (rt_pending_requests rt_new)"
    by (simp add: rt_new_def slab_new_wf)
  have small: "length (sl_entries (rt_pending_requests rt_new)) < 2 ^ 32"
    by (simp add: rt_new_def slab_new_def)
  have other: "(0::u16) \<noteq> 1" by simp
  from request_round_trip [OF wf small codec_exact_u32 codec_exact_u32 call other,
      where f = "\<lambda>src p. p * 2 + 42" and plane = 3 and tq = 10 and srv = "\<lparr>endpoint = 9\<rparr>" and tr = 11
        and tb = 4 and wk = 7 and la = 5]
  show ?thesis
    using call by blast
qed

end
